(* ===== verification/Prelude.thy ===== *)
theory Prelude
  imports
    Main
    "HOL-Library.AList"
    "HOL-Library.Word"
    "HOL-Library.Char_ord"
    "HOL-Library.List_Lexorder"
begin

text \<open>
  Shared ground of the development: the types that stand for Go's basic types, Go maps as
  association lists behind an interface, labelled transition systems with their invariants, and
  generic list lemmas.

  A Go \<open>string\<close> and a Go \<open>[]byte\<close> are both byte sequences; both are \<^typ>\<open>string\<close> here, whose
  characters are the 256 byte values. \<open>time.Time\<close> and \<open>time.Duration\<close> are integers counting
  nanoseconds; \<open>now.Sub(t)\<close> is the difference (Go saturates it at 292 years, which no comparison
  in the source can tell apart). Unsigned counters are words of their width.
\<close>

type_synonym bytes = string
type_synonym time = int
type_synonym duration = int
type_synonym u64 = "64 word"

definition second :: duration where
  "second = 1000000000"

definition minute :: duration where
  "minute = 60 * second"

definition hour :: duration where
  "hour = 60 * minute"

lemmas duration_defs = second_def minute_def hour_def

named_theorems go_defs "definitions to unfold when a closed term is evaluated"
declare duration_defs [go_defs]

section \<open>Go maps\<close>

text \<open>
  A Go map is used through lookup, insertion, deletion and iteration. The interface below is what
  every component relies on; iteration order is the order of \<open>entries\<close>, about which nothing is
  assumed, as Go leaves it unspecified.
\<close>

locale go_map =
  fixes get :: "'m \<Rightarrow> 'k \<Rightarrow> 'v option"
    and put :: "'k \<Rightarrow> 'v \<Rightarrow> 'm \<Rightarrow> 'm"
    and del :: "'k \<Rightarrow> 'm \<Rightarrow> 'm"
    and entries :: "'m \<Rightarrow> ('k \<times> 'v) list"
    and wf :: "'m \<Rightarrow> bool"
  assumes get_put: "get (put k v m) k' = (if k = k' then Some v else get m k')"
    and get_del: "get (del k m) k' = (if k = k' then None else get m k')"
    and entries_get: "wf m \<Longrightarrow> (k, v) \<in> set (entries m) \<longleftrightarrow> get m k = Some v"
    and distinct_entries: "wf m \<Longrightarrow> distinct (map fst (entries m))"
    and wf_put: "wf m \<Longrightarrow> wf (put k v m)"
    and wf_del: "wf m \<Longrightarrow> wf (del k m)"
begin

lemma wf_sweep_over:
  "wf m \<Longrightarrow> wf (fold (\<lambda>(k, v) n. if P k v then del k n else n) es m)"
  by (induction es arbitrary: m) (auto simp: wf_del split: prod.splits)

lemma get_sweep_over:
  "get (fold (\<lambda>(k, v) n. if P k v then del k n else n) es m) k =
     (if \<exists>v. (k, v) \<in> set es \<and> P k v then None else get m k)"
  by (induction es arbitrary: m) (auto simp: get_del)

lemma get_sweep:
  assumes "wf m"
  shows "get (fold (\<lambda>(k, v) n. if P k v then del k n else n) (entries m) m) k =
     (case get m k of None \<Rightarrow> None | Some v \<Rightarrow> if P k v then None else Some v)"
  unfolding get_sweep_over using assms by (auto simp: entries_get split: option.splits)

lemma entries_put_other:
  "wf m \<Longrightarrow> k \<noteq> k' \<Longrightarrow> (k, v) \<in> set (entries (put k' v' m)) \<longleftrightarrow> (k, v) \<in> set (entries m)"
  by (simp add: entries_get wf_put get_put)

lemma entries_unique:
  "wf m \<Longrightarrow> (k, v) \<in> set (entries m) \<Longrightarrow> (k, v') \<in> set (entries m) \<Longrightarrow> v = v'"
  by (simp add: entries_get)

end

type_synonym ('k, 'v) gomap = "('k \<times> 'v) list"

definition mget :: "('k, 'v) gomap \<Rightarrow> 'k \<Rightarrow> 'v option" where
  "mget m k = map_of m k"

definition mput :: "'k \<Rightarrow> 'v \<Rightarrow> ('k, 'v) gomap \<Rightarrow> ('k, 'v) gomap" where
  "mput k v m = AList.update k v m"

definition mdel :: "'k \<Rightarrow> ('k, 'v) gomap \<Rightarrow> ('k, 'v) gomap" where
  "mdel k m = AList.delete k m"

definition mentries :: "('k, 'v) gomap \<Rightarrow> ('k \<times> 'v) list" where
  "mentries m = m"

definition mwf :: "('k, 'v) gomap \<Rightarrow> bool" where
  "mwf m \<longleftrightarrow> distinct (map fst m)"

lemmas gomap_defs = mget_def mput_def mdel_def mentries_def mwf_def
declare gomap_defs [go_defs]

interpretation gm: go_map mget mput mdel mentries mwf
proof unfold_locales
  fix m :: "('k, 'v) gomap" and k k' :: 'k and v :: 'v
  show "mget (mput k v m) k' = (if k = k' then Some v else mget m k')"
    by (simp add: gomap_defs update_conv')
  show "mget (mdel k m) k' = (if k = k' then None else mget m k')"
    by (simp add: gomap_defs delete_conv')
  assume wf: "mwf m"
  then show "(k, v) \<in> set (mentries m) \<longleftrightarrow> mget m k = Some v"
    by (simp add: gomap_defs)
  from wf show "distinct (map fst (mentries m))"
    by (simp add: gomap_defs)
  from wf show "mwf (mput k v m)"
    by (simp add: gomap_defs distinct_update)
  from wf show "mwf (mdel k m)"
    by (simp add: gomap_defs distinct_delete)
qed

declare gm.get_put [simp] gm.get_del [simp] gm.wf_put [simp] gm.wf_del [simp]

lemma mget_empty [simp]: "mget [] k = None"
  by (simp add: mget_def)

lemma mwf_empty [simp]: "mwf []"
  by (simp add: mwf_def)

lemma mget_None_iff: "mwf m \<Longrightarrow> mget m k = None \<longleftrightarrow> k \<notin> fst ` set (mentries m)"
  by (simp add: gomap_defs map_of_eq_None_iff)

text \<open>
  \<open>for k, v := range m { if P { delete(m, k) } }\<close>: Go allows deletion during iteration and visits
  each entry that is still there exactly once.
\<close>

definition msweep :: "('k \<Rightarrow> 'v \<Rightarrow> bool) \<Rightarrow> ('k, 'v) gomap \<Rightarrow> ('k, 'v) gomap" where
  "msweep P m = fold (\<lambda>(k, v) n. if P k v then mdel k n else n) (mentries m) m"

declare msweep_def [go_defs]

lemma mwf_msweep [simp]: "mwf m \<Longrightarrow> mwf (msweep P m)"
  unfolding msweep_def by (rule gm.wf_sweep_over)

lemma mget_msweep:
  "mwf m \<Longrightarrow> mget (msweep P m) k =
     (case mget m k of None \<Rightarrow> None | Some v \<Rightarrow> if P k v then None else Some v)"
  unfolding msweep_def by (rule gm.get_sweep)

section \<open>Labelled transition systems\<close>

text \<open>
  The states a program can be in: the least set that holds the initial states and is closed under
  its steps. A label carries what the environment chooses in a step (the message read, the clock).
\<close>

inductive reach :: "('s \<Rightarrow> bool) \<Rightarrow> ('s \<Rightarrow> 'l \<Rightarrow> 's \<Rightarrow> bool) \<Rightarrow> 's \<Rightarrow> bool"
  for init step where
  reach_init: "init s \<Longrightarrow> reach init step s"
| reach_step: "reach init step s \<Longrightarrow> step s l t \<Longrightarrow> reach init step t"

locale invariant_system =
  fixes init :: "'s \<Rightarrow> bool"
    and step :: "'s \<Rightarrow> 'l \<Rightarrow> 's \<Rightarrow> bool"
    and inv :: "'s \<Rightarrow> bool"
  assumes inv_init: "init s \<Longrightarrow> inv s"
    and inv_step: "inv s \<Longrightarrow> step s l t \<Longrightarrow> inv t"
begin

lemma reach_inv: "reach init step s \<Longrightarrow> inv s"
  by (induction rule: reach.induct) (auto intro: inv_init inv_step)

lemma reach_step_inv: "reach init step s \<Longrightarrow> step s l t \<Longrightarrow> inv s \<and> inv t"
  by (blast intro: reach_inv inv_step)

end

section \<open>Lists\<close>

lemma take_append_exact: "length xs = n \<Longrightarrow> take n (xs @ ys) = xs"
  by simp

lemma drop_append_exact: "length xs = n \<Longrightarrow> drop n (xs @ ys) = ys"
  by simp

end
