(* ===== verification/Go_Strings.thy ===== *)
theory Go_Strings
  imports Prelude
begin

text \<open>
  The byte-level functions of Go's \<open>strings\<close>, \<open>strconv\<close> and \<open>encoding/binary\<close> packages that the
  source calls, each written out for the way it is called (separators are single bytes).
\<close>

section \<open>Prefixes, suffixes, searching\<close>

definition hasPrefix :: "string \<Rightarrow> string \<Rightarrow> bool" where
  "hasPrefix s p \<longleftrightarrow> take (length p) s = p"

definition hasSuffix :: "string \<Rightarrow> string \<Rightarrow> bool" where
  "hasSuffix s p \<longleftrightarrow> length p \<le> length s \<and> drop (length s - length p) s = p"

definition trimPrefix :: "string \<Rightarrow> string \<Rightarrow> string" where
  "trimPrefix s p = (if hasPrefix s p then drop (length p) s else s)"

definition trimSuffix :: "string \<Rightarrow> string \<Rightarrow> string" where
  "trimSuffix s p = (if hasSuffix s p then take (length s - length p) s else s)"

definition trimRightByte :: "char \<Rightarrow> string \<Rightarrow> string" where
  "trimRightByte c s = rev (dropWhile (\<lambda>x. x = c) (rev s))"

definition trimLeftByte :: "char \<Rightarrow> string \<Rightarrow> string" where
  "trimLeftByte c s = dropWhile (\<lambda>x. x = c) s"

fun indexByte :: "char \<Rightarrow> string \<Rightarrow> nat option" where
  "indexByte c [] = None"
| "indexByte c (x # xs) = (if x = c then Some 0 else map_option Suc (indexByte c xs))"

fun lastIndexByte :: "char \<Rightarrow> string \<Rightarrow> nat option" where
  "lastIndexByte c [] = None"
| "lastIndexByte c (x # xs) =
     (case lastIndexByte c xs of
        Some i \<Rightarrow> Some (Suc i)
      | None \<Rightarrow> if x = c then Some 0 else None)"

fun splitOn :: "char \<Rightarrow> string \<Rightarrow> string list" where
  "splitOn c [] = [[]]"
| "splitOn c (x # xs) =
     (if x = c then [] # splitOn c xs
      else (x # hd (splitOn c xs)) # tl (splitOn c xs))"

fun joinWith :: "'a list \<Rightarrow> 'a list list \<Rightarrow> 'a list" where
  "joinWith sep [] = []"
| "joinWith sep [w] = w"
| "joinWith sep (w # v # ws) = w @ sep @ joinWith sep (v # ws)"

lemmas gostring_defs [go_defs] =
  hasPrefix_def hasSuffix_def trimPrefix_def trimSuffix_def trimRightByte_def trimLeftByte_def

lemma hasPrefix_iff: "hasPrefix s p \<longleftrightarrow> (\<exists>t. s = p @ t)"
  unfolding hasPrefix_def by (metis append_eq_conv_conj append_take_drop_id)

lemma hasPrefix_append [simp]: "hasPrefix (p @ t) p"
  by (simp add: hasPrefix_def)

lemma hasPrefix_self [simp]: "hasPrefix p p"
  by (simp add: hasPrefix_def)

lemma hasPrefix_Nil [simp]: "hasPrefix s []"
  by (simp add: hasPrefix_def)

lemma indexByte_None [simp]: "indexByte c s = None \<longleftrightarrow> c \<notin> set s"
  by (induction s) auto

lemma indexByte_SomeD:
  "indexByte c s = Some i \<Longrightarrow> i < length s \<and> s ! i = c \<and> c \<notin> set (take i s)"
proof (induction s arbitrary: i)
  case (Cons x xs)
  then show ?case
    by (cases i) (auto split: if_splits)
qed simp

lemma lastIndexByte_None [simp]: "lastIndexByte c s = None \<longleftrightarrow> c \<notin> set s"
  by (induction s) (auto split: option.splits)

lemma lastIndexByte_append_last [simp]:
  "c \<notin> set t \<Longrightarrow> lastIndexByte c (s @ c # t) = Some (length s)"
  by (induction s) (auto split: option.splits)

lemma splitOn_ne_Nil [simp]: "splitOn c s \<noteq> []"
  by (cases s) auto

lemma splitOn_no_sep: "c \<notin> set s \<Longrightarrow> splitOn c s = [s]"
  by (induction s) auto

lemma splitOn_append_sep:
  "c \<notin> set s \<Longrightarrow> splitOn c (s @ c # t) = s # splitOn c t"
  by (induction s) auto

lemma splitOn_parts: "w \<in> set (splitOn c s) \<Longrightarrow> c \<notin> set w"
proof (induction s arbitrary: w)
  case (Cons x xs)
  then show ?case
    by (cases "splitOn c xs") (auto split: if_splits)
qed simp

lemma joinWith_Cons: "ws \<noteq> [] \<Longrightarrow> joinWith sep (w # ws) = w @ sep @ joinWith sep ws"
  by (cases ws) auto

lemma joinWith_splitOn: "joinWith [c] (splitOn c s) = s"
proof (induction s)
  case (Cons x xs)
  then show ?case
    by (cases "splitOn c xs"; cases "tl (splitOn c xs)") (auto simp: joinWith_Cons)
qed simp

lemma splitOn_joinWith:
  "ws \<noteq> [] \<Longrightarrow> (\<And>w. w \<in> set ws \<Longrightarrow> c \<notin> set w) \<Longrightarrow> splitOn c (joinWith [c] ws) = ws"
proof (induction ws)
  case (Cons w ws)
  then show ?case
    by (cases ws) (auto simp: splitOn_no_sep splitOn_append_sep joinWith_Cons)
qed simp

section \<open>Decimal numbers\<close>

definition digitChar :: "nat \<Rightarrow> char" where
  "digitChar d = char_of (48 + d)"

fun natToDec :: "nat \<Rightarrow> string" where
  "natToDec n = (if n < 10 then [digitChar n] else natToDec (n div 10) @ [digitChar (n mod 10)])"

declare natToDec.simps [simp del]

definition isDigit :: "char \<Rightarrow> bool" where
  "isDigit c \<longleftrightarrow> 48 \<le> (of_char c :: nat) \<and> (of_char c :: nat) \<le> 57"

definition digitVal :: "char \<Rightarrow> nat" where
  "digitVal c = of_char c - 48"

definition decToNat :: "string \<Rightarrow> nat" where
  "decToNat s = foldl (\<lambda>n c. 10 * n + digitVal c) 0 s"

text \<open>
  \<open>strconv.Itoa\<close>, and \<open>strconv.Atoi\<close> for a 64-bit \<open>int\<close>: an optional sign, at least one digit and
  nothing else, and a value in range; every other input is an error.
\<close>

definition itoa :: "int \<Rightarrow> string" where
  "itoa i = (if i < 0 then CHR ''-'' # natToDec (nat (- i)) else natToDec (nat i))"

definition atoi :: "string \<Rightarrow> int option" where
  "atoi s =
     (let neg = (s \<noteq> [] \<and> hd s = CHR ''-'');
          ds = (if s \<noteq> [] \<and> (hd s = CHR ''-'' \<or> hd s = CHR ''+'') then tl s else s);
          v = (if neg then - int (decToNat ds) else int (decToNat ds))
      in if ds = [] \<or> \<not> list_all isDigit ds then None
         else if v < - (2 ^ 63) \<or> 2 ^ 63 \<le> v then None
         else Some v)"

lemma of_char_digitChar [simp]: "d < 10 \<Longrightarrow> (of_char (digitChar d) :: nat) = 48 + d"
  by (simp add: digitChar_def)

lemma isDigit_digitChar [simp]: "d < 10 \<Longrightarrow> isDigit (digitChar d)"
  by (simp add: isDigit_def)

lemma digitVal_digitChar [simp]: "d < 10 \<Longrightarrow> digitVal (digitChar d) = d"
  by (simp add: digitVal_def)

lemma decToNat_snoc [simp]: "decToNat (s @ [c]) = 10 * decToNat s + digitVal c"
  by (simp add: decToNat_def)

lemma decToNat_natToDec [simp]: "decToNat (natToDec n) = n"
proof (induction n rule: natToDec.induct)
  case (1 n)
  show ?case
  proof (cases "n < 10")
    case True
    then show ?thesis by (simp add: natToDec.simps [of n] decToNat_def)
  next
    case False
    with 1 show ?thesis by (simp add: natToDec.simps [of n])
  qed
qed

lemma natToDec_digits: "list_all isDigit (natToDec n)"
proof (induction n rule: natToDec.induct)
  case (1 n)
  then show ?case by (cases "n < 10") (simp_all add: natToDec.simps [of n])
qed

lemma natToDec_ne_Nil [simp]: "natToDec n \<noteq> []"
  by (subst natToDec.simps) simp

lemma natToDec_set: "c \<in> set (natToDec n) \<Longrightarrow> isDigit c"
  using natToDec_digits by (auto simp: list_all_iff)

lemma isDigit_neq:
  "isDigit c \<Longrightarrow> c \<noteq> CHR '':''" "isDigit c \<Longrightarrow> c \<noteq> CHR ''-''" "isDigit c \<Longrightarrow> c \<noteq> CHR ''+''"
  "isDigit c \<Longrightarrow> c \<noteq> CHR ''.''" "isDigit c \<Longrightarrow> c \<noteq> CHR ''$''" "isDigit c \<Longrightarrow> c \<noteq> CHR 0x20"
  by (auto simp: isDigit_def)

lemma atoi_itoa:
  assumes "- (2 ^ 63) \<le> i" and "i < 2 ^ 63"
  shows "atoi (itoa i) = Some i"
proof -
  have hd: "hd (natToDec n) \<noteq> CHR ''-''" "hd (natToDec n) \<noteq> CHR ''+''" for n
    using natToDec_set [of "hd (natToDec n)" n] isDigit_neq by (auto simp: hd_in_set)
  show ?thesis
    using assms hd natToDec_digits by (auto simp: atoi_def itoa_def Let_def)
qed

section \<open>Big-endian integers\<close>

text \<open>\<open>binary.BigEndian.PutUint32(b, uint32(n))\<close>: the conversion keeps the low 32 bits.\<close>

definition putUint32 :: "nat \<Rightarrow> string" where
  "putUint32 n = map char_of [n div 2 ^ 24 mod 256, n div 2 ^ 16 mod 256, n div 2 ^ 8 mod 256, n mod (256 :: nat)]"

definition getUint32 :: "string \<Rightarrow> nat" where
  "getUint32 s = foldl (\<lambda>n c. 256 * n + of_char c) 0 (take 4 s)"

lemma length_putUint32 [simp]: "length (putUint32 n) = 4"
  by (simp add: putUint32_def)

lemma of_char_le: "(of_char c :: nat) \<le> 255"
proof -
  have "(of_char c :: nat) mod 256 \<le> 255"
    by (rule mod_Suc_le_divisor [of _ 255, simplified])
  then show ?thesis by (simp only: of_char_mod_256)
qed

lemma mod_split_256: "n mod (256 * m) = 256 * (n div 256 mod m) + n mod (256 :: nat)"
  by (rule mod_mult2_eq)

lemma getUint32_putUint32:
  "getUint32 (putUint32 n @ t) = n mod 2 ^ 32"
proof -
  have "getUint32 (putUint32 n @ t)
      = 256 * (256 * (256 * (n div 2 ^ 24 mod 256) + n div 2 ^ 16 mod 256) + n div 2 ^ 8 mod 256)
        + n mod 256"
    by (simp add: getUint32_def putUint32_def)
  also have "\<dots> = n mod (256 * (256 * (256 * 256)))"
    by (simp only: mod_split_256) (simp add: div_mult2_eq [symmetric])
  finally show ?thesis by simp
qed

lemma foldl_base256_bound:
  fixes n :: nat
  shows "foldl (\<lambda>n c. 256 * n + of_char c) n s < (n + 1) * 256 ^ length s"
proof (induction s arbitrary: n)
  case Nil
  then show ?case by simp
next
  case (Cons c s)
  let ?m = "256 * n + (of_char c :: nat)"
  have "?m + 1 \<le> 256 * (n + 1)"
    using of_char_le [of c] by simp
  then have "(?m + 1) * 256 ^ length s \<le> 256 * (n + 1) * 256 ^ length s"
    by (rule mult_le_mono1)
  with Cons [of ?m] have "foldl (\<lambda>n c. 256 * n + of_char c) ?m s < 256 * (n + 1) * 256 ^ length s"
    by (rule less_le_trans)
  then show ?case
    by (simp add: algebra_simps)
qed

lemma getUint32_bound: "getUint32 s < 2 ^ 32"
proof -
  have "getUint32 s < 1 * 256 ^ length (take 4 s)"
    unfolding getUint32_def using foldl_base256_bound [of 0 "take 4 s"] by simp
  also have "\<dots> \<le> 256 ^ 4"
    using power_increasing [of "length (take 4 s)" 4 "256 :: nat"] by simp
  finally show ?thesis by simp
qed

end
