(* ===== verification/Go_Utf8.thy ===== *)
theory Go_Utf8
  imports Go_Strings
begin

text \<open>
  UTF-8 the way Go reads and writes it: \<open>for range\<close> over a string and \<open>utf8.DecodeRuneInString\<close>
  give \<open>RuneError\<close> with width 1 for an ill-formed byte, \<open>utf8.DecodeLastRuneInString\<close> reads from
  the end, and \<open>strings.Map\<close>, \<open>strings.Fields\<close> and \<open>strings.TrimSpace\<close> are built on them. A rune
  is a natural number; the scalar values are the runes a well-formed string decodes to.
\<close>

section \<open>Decoding and encoding one rune\<close>

definition runeError :: nat where
  "runeError = 0xFFFD"

definition scalarRune :: "nat \<Rightarrow> bool" where
  "scalarRune r \<longleftrightarrow> r \<le> 0x10FFFF \<and> \<not> (0xD800 \<le> r \<and> r \<le> 0xDFFF)"

text \<open>Width of the sequence a first byte announces, and the range of its second byte.\<close>

definition acceptRange :: "nat \<Rightarrow> (nat \<times> nat \<times> nat) option" where
  "acceptRange p =
     (if p < 0xC2 then None
      else if p < 0xE0 then Some (2, 0x80, 0xBF)
      else if p = 0xE0 then Some (3, 0xA0, 0xBF)
      else if p = 0xED then Some (3, 0x80, 0x9F)
      else if p < 0xF0 then Some (3, 0x80, 0xBF)
      else if p = 0xF0 then Some (4, 0x90, 0xBF)
      else if p < 0xF4 then Some (4, 0x80, 0xBF)
      else if p = 0xF4 then Some (4, 0x80, 0x8F)
      else None)"

definition contByte :: "nat \<Rightarrow> bool" where
  "contByte b \<longleftrightarrow> 0x80 \<le> b \<and> b \<le> 0xBF"

definition decodeRune :: "string \<Rightarrow> nat \<times> nat" where
  "decodeRune s =
     (case map of_char s of
        [] \<Rightarrow> (runeError, 0)
      | p # bs \<Rightarrow>
          if p < 0x80 then (p, 1)
          else (case acceptRange p of
              None \<Rightarrow> (runeError, 1)
            | Some (n, lo, hi) \<Rightarrow>
                (case bs of
                   [] \<Rightarrow> (runeError, 1)
                 | b1 # bs1 \<Rightarrow>
                     if length s < n \<or> b1 < lo \<or> hi < b1 then (runeError, 1)
                     else if n = 2 then (p mod 32 * 64 + b1 mod 64, 2)
                     else (case bs1 of
                         [] \<Rightarrow> (runeError, 1)
                       | b2 # bs2 \<Rightarrow>
                           if \<not> contByte b2 then (runeError, 1)
                           else if n = 3 then (p mod 16 * 4096 + b1 mod 64 * 64 + b2 mod 64, 3)
                           else (case bs2 of
                               [] \<Rightarrow> (runeError, 1)
                             | b3 # bs3 \<Rightarrow>
                                 if \<not> contByte b3 then (runeError, 1)
                                 else (p mod 8 * 262144 + b1 mod 64 * 4096 + b2 mod 64 * 64 + b3 mod 64, 4))))))"

definition encodeRune :: "nat \<Rightarrow> string" where
  "encodeRune r0 =
     (let r = (if scalarRune r0 then r0 else runeError) in
      if r < 0x80 then [char_of r]
      else if r < 0x800 then map char_of [0xC0 + r div 64, 0x80 + r mod 64]
      else if r < 0x10000 then map char_of [0xE0 + r div 4096, 0x80 + r div 64 mod 64, 0x80 + r mod 64]
      else map char_of [0xF0 + r div 262144, 0x80 + r div 4096 mod 64, 0x80 + r div 64 mod 64, 0x80 + r mod 64])"

definition utf8 :: "nat list \<Rightarrow> string" where
  "utf8 rs = concat (map encodeRune rs)"

definition runeStart :: "char \<Rightarrow> bool" where
  "runeStart c \<longleftrightarrow> \<not> contByte (of_char c)"

text \<open>
  \<open>utf8.DecodeLastRuneInString\<close>: from the end, at most four bytes back to a byte that can start a
  rune; the rune there has to reach exactly to the end.
\<close>

definition lastStart :: "string \<Rightarrow> nat" where
  "lastStart s =
     (let n = length s; back = (\<lambda>k. k \<le> n \<and> runeStart (s ! (n - k)))
      in if back 2 then n - 2 else if back 3 then n - 3 else if back 4 then n - 4 else n - 5)"

definition decodeLastRune :: "string \<Rightarrow> nat \<times> nat" where
  "decodeLastRune s =
     (let n = length s in
      if s = [] then (runeError, 0)
      else if (of_char (s ! (n - 1)) :: nat) < 0x80 then (of_char (s ! (n - 1)), 1)
      else (case decodeRune (drop (lastStart s) s) of
              (r, w) \<Rightarrow> if lastStart s + w \<noteq> n then (runeError, 1) else (r, w)))"

lemmas utf8_defs [go_defs] =
  runeError_def scalarRune_def acceptRange_def contByte_def decodeRune_def encodeRune_def utf8_def
  runeStart_def lastStart_def decodeLastRune_def

lemma scalarRune_runeError [simp]: "scalarRune runeError"
  by (simp add: scalarRune_def runeError_def)

lemma acceptRange_cases:
  assumes "acceptRange p = Some (n, lo, hi)"
  obtains (two) "n = 2" "lo = 0x80" "hi = 0xBF" "0xC2 \<le> p" "p < 0xE0"
  | (three) "n = 3" "0x80 \<le> lo" "hi \<le> 0xBF" "0xE0 \<le> p" "p < 0xF0" "p = 0xE0 \<longrightarrow> lo = 0xA0"
      "p = 0xED \<longrightarrow> hi = 0x9F"
  | (four) "n = 4" "0x80 \<le> lo" "hi \<le> 0xBF" "0xF0 \<le> p" "p \<le> 0xF4" "p = 0xF0 \<longrightarrow> lo = 0x90"
      "p = 0xF4 \<longrightarrow> hi = 0x8F"
  using assms by (auto simp: acceptRange_def split: if_splits)

lemma decodeRune_size:
  assumes "s \<noteq> []"
  shows "1 \<le> snd (decodeRune s) \<and> snd (decodeRune s) \<le> length s"
  using assms
  by (auto simp: decodeRune_def split: list.splits option.splits elim!: acceptRange_cases)

lemma decodeRune_Nil [simp]: "decodeRune [] = (runeError, 0)"
  by (simp add: decodeRune_def)

lemma of_char_char_of: "n < 256 \<Longrightarrow> of_char (char_of n) = (n :: nat)"
  by simp

lemma digits64:
  fixes r :: nat
  obtains a b where "r = a * 64 + b" "b < 64" "a = r div 64" "b = r mod 64"
  by (metis div_mult_mod_eq mod_less_divisor zero_less_numeral)

lemma encodeRune_1: "r < 0x80 \<Longrightarrow> encodeRune r = [char_of r]"
  by (simp add: encodeRune_def scalarRune_def)

lemma encodeRune_2:
  "2 \<le> a \<Longrightarrow> a < 32 \<Longrightarrow> b < 64 \<Longrightarrow>
   encodeRune (a * 64 + b) = map char_of [0xC0 + a, 0x80 + b]"
  by (simp add: encodeRune_def scalarRune_def div_add1_eq)

lemma div_mod_64:
  fixes x b :: nat
  assumes "b < 64"
  shows "(x * 64 + b) div 64 = x" "(x * 64 + b) mod 64 = b"
  using assms by simp_all

lemma div_4096: "r div 4096 = r div 64 div (64 :: nat)"
  by (simp flip: div_mult2_eq)

lemma div_262144: "r div 262144 = r div 64 div 64 div (64 :: nat)"
  by (simp flip: div_mult2_eq)

lemma encodeRune_3:
  assumes "r = (a * 64 + b) * 64 + c" "a < 16" "b < 64" "c < 64" "0x800 \<le> r" "scalarRune r"
  shows "encodeRune r = map char_of [0xE0 + a, 0x80 + b, 0x80 + c]"
proof -
  have "r div 64 = a * 64 + b" "r mod 64 = c" "r div 4096 = a" "r div 64 mod 64 = b"
    unfolding assms(1) div_4096 using assms(3,4) by (simp_all only: div_mod_64)
  moreover have "r < 0x10000"
    unfolding assms(1) using assms(2-4) by simp
  ultimately show ?thesis
    using assms(5,6) by (simp add: encodeRune_def Let_def)
qed

lemma encodeRune_4:
  assumes "r = ((a * 64 + b) * 64 + c) * 64 + d" "b < 64" "c < 64" "d < 64"
    and "0x10000 \<le> r" "scalarRune r"
  shows "encodeRune r = map char_of [0xF0 + a, 0x80 + b, 0x80 + c, 0x80 + d]"
proof -
  have "r mod 64 = d" "r div 64 mod 64 = c" "r div 4096 mod 64 = b" "r div 262144 = a"
    unfolding assms(1) div_4096 div_262144 using assms(2-4) by (simp_all only: div_mod_64)
  then show ?thesis
    using assms(5,6) by (simp add: encodeRune_def Let_def)
qed

text \<open>Every scalar value falls in one of the four classes.\<close>

lemma scalarRune_cases [consumes 1, case_names one two three four]:
  assumes "scalarRune r"
  obtains (one) "r < 0x80"
  | (two) a b where "2 \<le> a" "a < 32" "b < 64" "r = a * 64 + b"
  | (three) a b c where "a < 16" "b < 64" "c < 64" "r = (a * 64 + b) * 64 + c"
      "a = 0 \<longrightarrow> 0x20 \<le> b" "a = 13 \<longrightarrow> b < 0x20" "0x800 \<le> r"
  | (four) a b c d where "a < 5" "b < 64" "c < 64" "d < 64" "r = ((a * 64 + b) * 64 + c) * 64 + d"
      "a = 0 \<longrightarrow> 0x10 \<le> b" "a = 4 \<longrightarrow> b < 0x10" "0x10000 \<le> r"
proof -
  obtain d x where r: "r = x * 64 + d" "d < 64"
    by (metis digits64)
  obtain c y where x: "x = y * 64 + c" "c < 64"
    by (metis digits64)
  obtain b z where y: "y = z * 64 + b" "b < 64"
    by (metis digits64)
  consider "r < 0x80" | "0x80 \<le> r" "r < 0x800" | "0x800 \<le> r" "r < 0x10000" | "0x10000 \<le> r"
    by linarith
  then show thesis
  proof cases
    case 1
    then show thesis by (rule one)
  next
    case 2
    with r have "2 \<le> x" "x < 32" by linarith+
    with r show thesis using two by blast
  next
    case 3
    with r x have "y < 16" by linarith
    moreover have "y = 0 \<longrightarrow> 0x20 \<le> c"
      using 3 r x by auto
    moreover have "y = 13 \<longrightarrow> c < 0x20"
      using assms r x by (auto simp: scalarRune_def)
    ultimately show thesis
      using three [of y c d] r x 3 by simp
  next
    case 4
    have "z < 5"
      using assms r x y by (simp add: scalarRune_def)
    moreover have "z = 0 \<longrightarrow> 0x10 \<le> b"
      using 4 r x y by auto
    moreover have "z = 4 \<longrightarrow> b < 0x10"
      using assms r x y by (auto simp: scalarRune_def)
    ultimately show thesis
      using four [of z b c d] r x y 4 by simp
  qed
qed

lemma mod_add_multiple: "b < m \<Longrightarrow> (k * m + b) mod m = (b :: nat)"
  by simp

lemma decode_encode:
  assumes "scalarRune r"
  shows "decodeRune (encodeRune r @ s) = (r, length (encodeRune r))"
  using assms
proof (cases rule: scalarRune_cases)
  case one
  then show ?thesis by (simp add: encodeRune_1 decodeRune_def)
next
  case (two a b)
  then have "(0xC0 + a) mod 32 = a" "(0x80 + b) mod 64 = b"
    using mod_add_multiple [of a 32 6] mod_add_multiple [of b 64 2] by simp_all
  with two show ?thesis
    by (simp add: encodeRune_2 decodeRune_def acceptRange_def)
next
  case (three a b c)
  have "(0xE0 + a) mod 16 = a" "(0x80 + b) mod 64 = b" "(0x80 + c) mod 64 = c"
    using mod_add_multiple [of a 16 14] mod_add_multiple [of b 64 2] mod_add_multiple [of c 64 2]
      three(1-3) by simp_all
  moreover have "a * 4096 + b * 64 + c = r"
    using three(4) by simp
  moreover have "acceptRange (0xE0 + a) = Some (3, if a = 0 then 0xA0 else 0x80, if a = 13 then 0x9F else 0xBF)"
    using three(1) by (simp add: acceptRange_def)
  ultimately show ?thesis
    using three(1-3,5,6)
    by (auto simp: encodeRune_3 [OF three(4,1-3,7) assms] decodeRune_def contByte_def)
next
  case (four a b c d)
  have "(0xF0 + a) mod 8 = a" "(0x80 + b) mod 64 = b" "(0x80 + c) mod 64 = c"
    "(0x80 + d) mod 64 = d"
    using mod_add_multiple [of a 8 30] mod_add_multiple [of b 64 2] mod_add_multiple [of c 64 2]
      mod_add_multiple [of d 64 2] four(1-4)
    by simp_all
  moreover have "a * 262144 + b * 4096 + c * 64 + d = r"
    using four(5) by simp
  moreover have "acceptRange (0xF0 + a) = Some (4, if a = 0 then 0x90 else 0x80, if a = 4 then 0x8F else 0xBF)"
    using four(1) by (simp add: acceptRange_def)
  ultimately show ?thesis
    using four(1-4,6,7)
    by (auto simp: encodeRune_4 [OF four(5,2-4,8) assms] decodeRune_def contByte_def)
qed

lemma decode_encode_alone: "scalarRune r \<Longrightarrow> decodeRune (encodeRune r) = (r, length (encodeRune r))"
  using decode_encode [of r "[]"] by simp

lemma encodeRune_ne_Nil [simp]: "encodeRune r \<noteq> []"
  by (simp add: encodeRune_def Let_def)

lemma length_encodeRune: "1 \<le> length (encodeRune r) \<and> length (encodeRune r) \<le> 4"
  by (simp add: encodeRune_def Let_def)

lemma length_encodeRune_pos [simp]: "0 < length (encodeRune r)"
  by simp

section \<open>Ranging over a string\<close>

text \<open>
  \<open>for i, r := range s\<close>: the runes of a string in order, each with the bytes it was read from.
\<close>

function spans :: "string \<Rightarrow> (nat \<times> string) list" where
  "spans s =
     (if s = [] then []
      else (fst (decodeRune s), take (snd (decodeRune s)) s) # spans (drop (snd (decodeRune s)) s))"
  by pat_completeness auto
termination
  by (relation "measure length") (use decodeRune_size in \<open>fastforce\<close>)+

declare spans.simps [simp del]

definition runes :: "string \<Rightarrow> nat list" where
  "runes s = map fst (spans s)"

declare runes_def [go_defs]

lemma spans_Nil [simp]: "spans [] = []"
  by (simp add: spans.simps)

lemma spans_encode: "scalarRune r \<Longrightarrow> spans (encodeRune r @ s) = (r, encodeRune r) # spans s"
  by (subst spans.simps) (simp add: decode_encode)

lemma utf8_simps [simp]:
  "utf8 [] = []" "utf8 (r # rs) = encodeRune r @ utf8 rs" "utf8 (rs @ qs) = utf8 rs @ utf8 qs"
  by (simp_all add: utf8_def)

lemma spans_utf8: "list_all scalarRune rs \<Longrightarrow> spans (utf8 rs) = map (\<lambda>r. (r, encodeRune r)) rs"
  by (induction rs) (simp_all add: spans_encode)

lemma runes_utf8: "list_all scalarRune rs \<Longrightarrow> runes (utf8 rs) = rs"
  by (simp add: runes_def spans_utf8 comp_def)

lemma concat_spans: "concat (map snd (spans s)) = s"
proof (induction s rule: spans.induct)
  case (1 s)
  then show ?case
    by (cases "s = []") (simp_all add: spans.simps [of s])
qed

text \<open>Every rune a string decodes to is a scalar value, \<open>RuneError\<close> included.\<close>

lemma scalar_two: "b < 64 \<Longrightarrow> a < 32 \<Longrightarrow> scalarRune (a * 64 + b)"
  by (simp add: scalarRune_def)

lemma scalar_three:
  "a < 16 \<Longrightarrow> b < 64 \<Longrightarrow> c < 64 \<Longrightarrow> (a = 13 \<Longrightarrow> b < 32) \<Longrightarrow> scalarRune (a * 4096 + b * 64 + c)"
  unfolding scalarRune_def by (cases "a < 13"; cases "a = 13") simp_all

lemma scalar_four:
  "a \<le> 4 \<Longrightarrow> 0 < a \<or> 16 \<le> b \<Longrightarrow> b < 64 \<Longrightarrow> c < 64 \<Longrightarrow> d < 64 \<Longrightarrow> (a = 4 \<Longrightarrow> b < 16) \<Longrightarrow>
   scalarRune (a * 262144 + b * 4096 + c * 64 + d)"
  unfolding scalarRune_def by (cases "a = 4"; cases "a = 0") simp_all

lemma mod_of_range:
  fixes b :: nat
  shows "0x80 \<le> b \<Longrightarrow> b \<le> 0xBF \<Longrightarrow> b mod 64 = b - 0x80"
    and "0xE0 \<le> b \<Longrightarrow> b < 0xF0 \<Longrightarrow> b mod 16 = b - 0xE0"
    and "0xF0 \<le> b \<Longrightarrow> b < 0xF8 \<Longrightarrow> b mod 8 = b - 0xF0"
  using mod_add_multiple [of "b - 0x80" 64 2] mod_add_multiple [of "b - 0xE0" 16 14]
    mod_add_multiple [of "b - 0xF0" 8 30]
  by simp_all

lemma scalarRune_decode: "scalarRune (fst (decodeRune s))"
proof -
  have three: "scalarRune (p mod 16 * 4096 + b1 mod 64 * 64 + b2 mod 64)"
    if "acceptRange p = Some (3, lo, hi)" "lo \<le> b1" "b1 \<le> hi" for p lo hi b1 b2
    using that(1)
  proof (cases rule: acceptRange_cases)
    case three
    with that(2,3) show ?thesis
      by (intro scalar_three) (auto simp: mod_of_range)
  qed simp_all
  have four: "scalarRune (p mod 8 * 262144 + b1 mod 64 * 4096 + b2 mod 64 * 64 + b3 mod 64)"
    if "acceptRange p = Some (n, lo, hi)" "n \<noteq> 2" "n \<noteq> 3" "lo \<le> b1" "b1 \<le> hi" for p n lo hi b1 b2 b3
    using that(1)
  proof (cases rule: acceptRange_cases)
    case four
    with that(4,5) show ?thesis
      by (intro scalar_four) (auto simp: mod_of_range)
  qed (use that in simp_all)
  have one: "scalarRune p" if "p < 0x80" for p
    using that by (simp add: scalarRune_def)
  show ?thesis
    unfolding decodeRune_def
    by (auto split: list.split option.split prod.split simp: not_le not_less
        intro: one three four scalar_two)
qed

lemma scalarRune_runes: "list_all scalarRune (runes s)"
proof (induction s rule: spans.induct)
  case (1 s)
  then show ?case
    by (cases "s = []") (simp_all add: runes_def spans.simps [of s] scalarRune_decode)
qed

end
