(* ===== verification/Go_Text.thy ===== *)
theory Go_Text
  imports Go_Utf8
begin

text \<open>
  The rune-level functions of Go's \<open>strings\<close> and \<open>unicode\<close> packages: \<open>Map\<close>, \<open>Fields\<close>,
  \<open>TrimSpace\<close>, \<open>ToLower\<close>, \<open>IsSpace\<close> and \<open>IsControl\<close>, and the facts about well-formed text that
  the components use.
\<close>

section \<open>Character classes\<close>

text \<open>\<open>unicode.IsSpace\<close> and \<open>unicode.IsControl\<close>, spelled out in full.\<close>

definition isSpaceRune :: "nat \<Rightarrow> bool" where
  "isSpaceRune r \<longleftrightarrow>
     (9 \<le> r \<and> r \<le> 13) \<or> r = 0x20 \<or> r = 0x85 \<or> r = 0xA0 \<or> r = 0x1680 \<or>
     (0x2000 \<le> r \<and> r \<le> 0x200A) \<or> r = 0x2028 \<or> r = 0x2029 \<or> r = 0x202F \<or> r = 0x205F \<or> r = 0x3000"

definition isControlRune :: "nat \<Rightarrow> bool" where
  "isControlRune r \<longleftrightarrow> r < 0x20 \<or> (0x7F \<le> r \<and> r < 0xA0)"

section \<open>Map\<close>

text \<open>
  \<open>strings.Map\<close>: each rune is mapped, a negative result (here \<^const>\<open>None\<close>) drops it, and an
  ill-formed byte is mapped as \<open>RuneError\<close> and comes out as its encoding.
\<close>

definition stringsMap :: "(nat \<Rightarrow> nat option) \<Rightarrow> string \<Rightarrow> string" where
  "stringsMap f s = utf8 (List.map_filter f (runes s))"

section \<open>Fields and TrimSpace\<close>

text \<open>
  \<open>strings.FieldsFunc\<close>: the maximal runs of runes that are not separators; \<open>cur\<close> is the run being
  read, empty between runs.
\<close>

fun fieldsAux :: "(nat \<Rightarrow> bool) \<Rightarrow> string \<Rightarrow> (nat \<times> string) list \<Rightarrow> string list" where
  "fieldsAux p cur [] = (if cur = [] then [] else [cur])"
| "fieldsAux p cur ((r, b) # rest) =
     (if p r then (if cur = [] then fieldsAux p [] rest else cur # fieldsAux p [] rest)
      else fieldsAux p (cur @ b) rest)"

definition stringsFields :: "string \<Rightarrow> string list" where
  "stringsFields s = fieldsAux isSpaceRune [] (spans s)"

function trimLeftSpace :: "string \<Rightarrow> string" where
  "trimLeftSpace s =
     (if s \<noteq> [] \<and> isSpaceRune (fst (decodeRune s)) then trimLeftSpace (drop (snd (decodeRune s)) s)
      else s)"
  by pat_completeness auto
termination
  by (relation "measure length") (use decodeRune_size in \<open>fastforce\<close>)+

lemma decodeLastRune_size: "s \<noteq> [] \<Longrightarrow> 1 \<le> snd (decodeLastRune s) \<and> snd (decodeLastRune s) \<le> length s"
proof -
  assume s: "s \<noteq> []"
  have "1 \<le> w \<and> w \<le> length s"
    if "decodeRune (drop (lastStart s) s) = (r, w)" "lastStart s + w = length s" "0 < w" for r w
    using that by simp
  moreover have "lastStart s < length s"
    using s by (auto simp: lastStart_def Let_def)
  ultimately show ?thesis
    using s decodeRune_size [of "drop (lastStart s) s"]
    by (auto simp: decodeLastRune_def Let_def Suc_le_eq split: prod.split)
qed

function trimRightSpace :: "string \<Rightarrow> string" where
  "trimRightSpace s =
     (if s \<noteq> [] \<and> isSpaceRune (fst (decodeLastRune s))
      then trimRightSpace (take (length s - snd (decodeLastRune s)) s)
      else s)"
  by pat_completeness auto
termination
  by (relation "measure length") (use decodeLastRune_size in \<open>fastforce\<close>)+

declare trimLeftSpace.simps [simp del] trimRightSpace.simps [simp del]

definition trimSpace :: "string \<Rightarrow> string" where
  "trimSpace s = trimRightSpace (trimLeftSpace s)"

section \<open>ToLower\<close>

text \<open>
  \<open>strings.ToLower\<close>. The Unicode case table above the ASCII range is Go's data; it enters as the
  parameter \<open>L\<close>.
\<close>

definition lowerRune :: "(nat \<Rightarrow> nat) \<Rightarrow> nat \<Rightarrow> nat" where
  "lowerRune L r = (if r < 0x80 then (if 65 \<le> r \<and> r \<le> 90 then r + 32 else r) else L r)"

definition isAscii :: "string \<Rightarrow> bool" where
  "isAscii s \<longleftrightarrow> list_all (\<lambda>c. (of_char c :: nat) < 0x80) s"

definition toLower :: "(nat \<Rightarrow> nat) \<Rightarrow> string \<Rightarrow> string" where
  "toLower L s =
     (if isAscii s then map (\<lambda>c. char_of (lowerRune L (of_char c))) s
      else stringsMap (\<lambda>r. Some (lowerRune L r)) s)"

lemmas gotext_defs [go_defs] =
  isSpaceRune_def isControlRune_def stringsMap_def stringsFields_def trimSpace_def
  lowerRune_def isAscii_def toLower_def

section \<open>Facts about well-formed text\<close>

lemma of_char_encode_first:
  "0x80 \<le> r \<Longrightarrow> 0xC0 \<le> (of_char (hd (encodeRune r)) :: nat)"
  by (auto simp: encodeRune_def Let_def scalarRune_def runeError_def)

text \<open>Reading backwards finds the rune a well-formed text ends with.\<close>

lemma decodeLast_encode:
  assumes "scalarRune r"
  shows "decodeLastRune (s @ encodeRune r) = (r, length (encodeRune r))"
  using assms
proof (cases rule: scalarRune_cases)
  case one
  then show ?thesis by (simp add: encodeRune_1 decodeLastRune_def)
next
  case (two a b)
  let ?e = "encodeRune r"
  have e: "?e = map char_of [0xC0 + a, 0x80 + b]" using two by (simp add: encodeRune_2)
  have "lastStart (s @ ?e) = length s"
    using two e by (simp add: lastStart_def Let_def nth_append runeStart_def contByte_def)
  then show ?thesis
    using two e decode_encode_alone [OF assms] by (simp add: decodeLastRune_def Let_def nth_append)
next
  case (three a b c)
  let ?e = "encodeRune r"
  have e: "?e = map char_of [0xE0 + a, 0x80 + b, 0x80 + c]"
    using encodeRune_3 [OF three(4,1-3,7) assms] .
  have "lastStart (s @ ?e) = length s"
    using three(1-3) e by (simp add: lastStart_def Let_def nth_append runeStart_def contByte_def)
  then show ?thesis
    using three(1-3) e decode_encode_alone [OF assms] by (simp add: decodeLastRune_def Let_def nth_append)
next
  case (four a b c d)
  let ?e = "encodeRune r"
  have e: "?e = map char_of [0xF0 + a, 0x80 + b, 0x80 + c, 0x80 + d]"
    using encodeRune_4 [OF four(5,2-4,8) assms] .
  have "lastStart (s @ ?e) = length s"
    using four(1-4) e by (simp add: lastStart_def Let_def nth_append runeStart_def contByte_def)
  then show ?thesis
    using four(1-4) e decode_encode_alone [OF assms] by (simp add: decodeLastRune_def Let_def nth_append)
qed

text \<open>\<open>Map\<close> on well-formed text is \<open>List.map_filter\<close> on its runes.\<close>

lemma stringsMap_utf8:
  "list_all scalarRune rs \<Longrightarrow> stringsMap f (utf8 rs) = utf8 (List.map_filter f rs)"
  by (simp add: stringsMap_def runes_utf8)

text \<open>Fields of well-formed text, at the level of runes.\<close>

fun runeFields :: "(nat \<Rightarrow> bool) \<Rightarrow> nat list \<Rightarrow> nat list \<Rightarrow> nat list list" where
  "runeFields p cur [] = (if cur = [] then [] else [cur])"
| "runeFields p cur (r # rs) =
     (if p r then (if cur = [] then runeFields p [] rs else cur # runeFields p [] rs)
      else runeFields p (cur @ [r]) rs)"

lemma utf8_Nil_iff [simp]: "utf8 rs = [] \<longleftrightarrow> rs = []"
  by (cases rs) simp_all

lemma fieldsAux_utf8:
  "fieldsAux p (utf8 cur) (map (\<lambda>r. (r, encodeRune r)) rs) = map utf8 (runeFields p cur rs)"
proof (induction rs arbitrary: cur)
  case (Cons r rs)
  then show ?case
    using Cons.IH [of "cur @ [r]"] Cons.IH [of "[]"] by simp
qed simp

lemma stringsFields_utf8:
  "list_all scalarRune rs \<Longrightarrow> stringsFields (utf8 rs) = map utf8 (runeFields isSpaceRune [] rs)"
  using fieldsAux_utf8 [of isSpaceRune "[]"] by (simp add: stringsFields_def spans_utf8)

lemma runeFields_parts:
  "w \<in> set (runeFields p cur rs) \<Longrightarrow> (\<forall>r \<in> set cur. \<not> p r) \<Longrightarrow>
   w \<noteq> [] \<and> (\<forall>r \<in> set w. \<not> p r \<and> r \<in> set cur \<union> set rs)"
  by (induction p cur rs rule: runeFields.induct) (fastforce split: if_splits)+

section \<open>ASCII text\<close>

lemma acceptRange_big:
  assumes "acceptRange p = Some (n, lo, hi)" "lo \<le> b1" "b1 \<le> hi"
  shows "n = 2 \<longrightarrow> 2 \<le> p mod 32"
    "n = 3 \<longrightarrow> 1 \<le> p mod 16 \<or> 32 \<le> b1 mod 64"
    "n \<noteq> 2 \<and> n \<noteq> 3 \<longrightarrow> 1 \<le> p mod 8 \<or> 16 \<le> b1 mod 64"
  using assms mod_add_multiple [of "p - 0xC0" 32 6] mod_of_range(1) [of b1] mod_of_range(2,3) [of p]
  by (auto simp: acceptRange_def split: if_splits)

lemma decodeRune_ascii:
  assumes "s \<noteq> []" "fst (decodeRune s) < 0x80"
  shows "decodeRune s = (of_char (hd s), 1)"
proof (cases "(of_char (hd s) :: nat) < 0x80")
  case True
  then show ?thesis
    using assms(1) by (cases s) (simp_all add: decodeRune_def)
next
  case False
  have "0x80 \<le> fst (decodeRune s)"
    using False assms(1) acceptRange_big
    unfolding decodeRune_def
    by (cases s) (fastforce simp: runeError_def not_less split: list.split option.split prod.split)+
  then show ?thesis
    using assms(2) by simp
qed

lemma decodeRune_ascii_hd: "(of_char c :: nat) < 0x80 \<Longrightarrow> decodeRune (c # s) = (of_char c, 1)"
  by (simp add: decodeRune_def)

text \<open>Text whose runes are all ASCII is its own bytes.\<close>

lemma runes_of_ascii: "isAscii s \<Longrightarrow> runes s = map of_char s"
proof (induction s)
  case (Cons c s)
  then have "decodeRune (c # s) = (of_char c, 1)"
    by (simp add: decodeRune_ascii_hd isAscii_def)
  then show ?case
    using Cons by (simp add: runes_def spans.simps [of "c # s"] isAscii_def)
qed (simp add: runes_def spans.simps)

lemma runes_ascii: "list_all (\<lambda>r. r < 0x80) (runes s) \<Longrightarrow> runes s = map of_char s"
proof (induction s rule: spans.induct)
  case (1 s)
  show ?case
  proof (cases "s = []")
    case False
    then have "fst (decodeRune s) < 0x80"
      using 1(2) by (simp add: runes_def spans.simps [of s])
    then have d: "decodeRune s = (of_char (hd s), 1)"
      by (rule decodeRune_ascii [OF False])
    then have "runes s = of_char (hd s) # runes (tl s)"
      using False by (simp add: runes_def spans.simps [of s] drop_Suc)
    moreover have "runes (tl s) = map of_char (tl s)"
      using 1 False d calculation by (simp add: drop_Suc)
    ultimately show ?thesis
      using False by (cases s) simp_all
  qed (simp add: runes_def)
qed

lemma trimSpace_ascii:
  assumes "(of_char (hd s) :: nat) < 0x80" "(of_char (last s) :: nat) < 0x80"
    and "\<not> isSpaceRune (of_char (hd s))" "\<not> isSpaceRune (of_char (last s))"
  shows "trimSpace s = s"
proof (cases "s = []")
  case True
  then show ?thesis by (simp add: trimSpace_def trimLeftSpace.simps trimRightSpace.simps)
next
  case False
  have "fst (decodeRune s) = of_char (hd s)"
    using False assms(1) by (cases s) (simp_all add: decodeRune_ascii_hd)
  moreover have "fst (decodeLastRune (butlast s @ encodeRune (of_char (last s)))) = of_char (last s)"
    using assms(2) by (subst decodeLast_encode) (simp_all add: scalarRune_def)
  then have "fst (decodeLastRune s) = of_char (last s)"
    using assms(2) False by (simp add: encodeRune_1)
  ultimately show ?thesis
    using assms(3,4) by (simp add: trimSpace_def trimLeftSpace.simps trimRightSpace.simps)
qed

end
