(* ===== verification/Peer_Name.thy ===== *)
theory Peer_Name
  imports Go_Text
begin

text \<open>
  The label a peer gives for itself (\<open>sanitizeName\<close> in \<open>internal/signal/server.go\<close>). Anyone who
  holds the session code chooses these bytes, so what is proved is what the rest of the server may
  rely on when it logs and shows the name.
\<close>

definition maxNameLen :: nat where
  "maxNameLen = 64"

text \<open>The function mapped over the name: white space to a blank, other control characters dropped.\<close>

definition sanitizeRune :: "nat \<Rightarrow> nat option" where
  "sanitizeRune r =
     (if isSpaceRune r then Some 0x20 else if isControlRune r then None else Some r)"

text \<open>The loop that cuts whole runes from the end until the name fits.\<close>

function capName :: "nat \<Rightarrow> string \<Rightarrow> string" where
  "capName n name =
     (if n < length name then capName n (take (length name - snd (decodeLastRune name)) name)
      else name)"
  by pat_completeness auto
termination
proof (relation "measure (\<lambda>(n, name). length name)", goal_cases)
  case (2 n name)
  then have "name \<noteq> []" by auto
  then show ?case using decodeLastRune_size [of name] by auto
qed simp

declare capName.simps [simp del]

definition sanitizeName :: "string \<Rightarrow> string" where
  "sanitizeName name =
     capName maxNameLen (joinWith '' '' (stringsFields (stringsMap sanitizeRune name)))"

lemmas peername_defs [go_defs] = maxNameLen_def sanitizeRune_def sanitizeName_def

section \<open>The name at the level of runes\<close>

fun noDouble :: "nat list \<Rightarrow> bool" where
  "noDouble (x # y # zs) = (\<not> (x = 0x20 \<and> y = 0x20) \<and> noDouble (y # zs))"
| "noDouble _ = True"

text \<open>
  What a displayed name must satisfy: well-formed characters, no control character, no white space
  but single blanks, and none in front.
\<close>

definition cleanName :: "nat list \<Rightarrow> bool" where
  "cleanName rs \<longleftrightarrow>
     list_all (\<lambda>r. scalarRune r \<and> \<not> isControlRune r \<and> (isSpaceRune r \<longrightarrow> r = 0x20)) rs \<and>
     (rs \<noteq> [] \<longrightarrow> hd rs \<noteq> 0x20) \<and> noDouble rs"

declare cleanName_def [go_defs]

lemma noDouble_appendD: "noDouble (xs @ ys) \<Longrightarrow> noDouble xs"
proof (induction xs rule: noDouble.induct)
  case (1 x y zs)
  then show ?case by simp
qed simp_all

lemma noDouble_take: "noDouble rs \<Longrightarrow> noDouble (take k rs)"
  using noDouble_appendD [of "take k rs" "drop k rs"] by simp

lemma cleanName_take: "cleanName rs \<Longrightarrow> cleanName (take k rs)"
  unfolding cleanName_def using noDouble_take [of rs k]
  by (auto simp: list_all_iff hd_take dest: in_set_takeD)

lemma noDouble_no_blank: "0x20 \<notin> set xs \<Longrightarrow> noDouble xs"
  by (induction xs rule: noDouble.induct) auto

lemma noDouble_join:
  "0x20 \<notin> set w \<Longrightarrow> ys \<noteq> [] \<Longrightarrow> hd ys \<noteq> 0x20 \<Longrightarrow> noDouble ys \<Longrightarrow> noDouble (w @ 0x20 # ys)"
  by (induction w rule: noDouble.induct) (auto simp: neq_Nil_conv)

lemma cleanName_joinWith:
  "(\<And>w. w \<in> set ws \<Longrightarrow> w \<noteq> [] \<and> (\<forall>r \<in> set w. scalarRune r \<and> \<not> isSpaceRune r \<and> \<not> isControlRune r))
   \<Longrightarrow> cleanName (joinWith [0x20] ws) \<and> (ws \<noteq> [] \<longrightarrow> joinWith [0x20] ws \<noteq> [])"
proof (induction ws)
  case Nil
  then show ?case by (simp add: cleanName_def)
next
  case (Cons w ws)
  have w: "w \<noteq> []" "\<forall>r \<in> set w. scalarRune r \<and> \<not> isSpaceRune r \<and> \<not> isControlRune r"
    using Cons.prems [of w] by simp_all
  have blank: "isSpaceRune 0x20" "\<not> isControlRune 0x20" "scalarRune 0x20"
    by (simp_all add: isSpaceRune_def isControlRune_def scalarRune_def)
  have nb: "0x20 \<notin> set w" using w(2) blank(1) by blast
  then have hd: "hd w \<noteq> 0x20" using w(1) hd_in_set by metis
  show ?case
  proof (cases "ws = []")
    case True
    then show ?thesis
      using w nb hd by (auto simp: cleanName_def list_all_iff noDouble_no_blank)
  next
    case False
    let ?j = "joinWith [0x20] ws"
    have "cleanName ?j \<and> (ws \<noteq> [] \<longrightarrow> ?j \<noteq> [])"
      by (rule Cons.IH, rule Cons.prems) simp
    then have "cleanName ?j" "?j \<noteq> []" using False by simp_all
    then have "noDouble (w @ 0x20 # ?j)"
      using nb by (intro noDouble_join) (auto simp: cleanName_def)
    then show ?thesis
      using False w blank hd \<open>cleanName ?j\<close> by (auto simp: cleanName_def list_all_iff joinWith_Cons)
  qed
qed

lemma char_of_blank: "char_of (0x20 :: nat) = CHR '' ''"
  by code_simp

lemma utf8_joinWith: "joinWith '' '' (map utf8 ws) = utf8 (joinWith [0x20] ws)"
proof (induction ws)
  case (Cons w ws)
  then show ?case by (cases ws) (simp_all add: joinWith_Cons encodeRune_1 char_of_blank)
qed simp

lemma sanitizeRune_scalar:
  "list_all scalarRune rs \<Longrightarrow>
   list_all (\<lambda>r. scalarRune r \<and> \<not> isControlRune r \<and> (isSpaceRune r \<longrightarrow> r = 0x20))
     (List.map_filter sanitizeRune rs)"
  by (induction rs)
    (auto simp: List.map_filter_simps sanitizeRune_def isControlRune_def isSpaceRune_def scalarRune_def
      split: if_splits)

lemma list_all_joinWith_ne:
  "list_all P rs \<Longrightarrow> (\<And>w. w \<in> set ws \<Longrightarrow> set w \<subseteq> set rs) \<Longrightarrow> w \<in> set ws \<Longrightarrow> \<forall>r \<in> set w. P r"
  by (fastforce simp: list_all_iff)

text \<open>Before the cut, the name is clean well-formed text.\<close>

definition fullName :: "string \<Rightarrow> nat list" where
  "fullName name =
     joinWith [0x20] (runeFields isSpaceRune [] (List.map_filter sanitizeRune (runes name)))"

lemma fullName_clean: "cleanName (fullName name)"
proof -
  let ?rs = "List.map_filter sanitizeRune (runes name)"
  have rs: "list_all (\<lambda>r. scalarRune r \<and> \<not> isControlRune r \<and> (isSpaceRune r \<longrightarrow> r = 0x20)) ?rs"
    by (rule sanitizeRune_scalar [OF scalarRune_runes])
  have "w \<noteq> [] \<and> (\<forall>r \<in> set w. scalarRune r \<and> \<not> isSpaceRune r \<and> \<not> isControlRune r)"
    if "w \<in> set (runeFields isSpaceRune [] ?rs)" for w
    using runeFields_parts [OF that] rs by (auto simp: list_all_iff)
  then show ?thesis
    unfolding fullName_def by (rule cleanName_joinWith [THEN conjunct1])
qed

lemma cleanName_scalar: "cleanName rs \<Longrightarrow> list_all scalarRune rs"
  by (auto simp: cleanName_def list_all_iff)

lemma sanitizeName_full: "sanitizeName name = capName maxNameLen (utf8 (fullName name))"
proof -
  let ?rs = "List.map_filter sanitizeRune (runes name)"
  have "list_all scalarRune ?rs"
    using sanitizeRune_scalar [OF scalarRune_runes, of name] by (auto simp: list_all_iff)
  then show ?thesis
    by (simp add: sanitizeName_def stringsMap_def stringsFields_utf8 utf8_joinWith fullName_def)
qed

lemma capName_bound: "length (capName n name) \<le> n"
  by (induction n name rule: capName.induct) (subst capName.simps, auto)

lemma capName_short: "length name \<le> n \<Longrightarrow> capName n name = name"
  by (subst capName.simps) simp

lemma capName_utf8:
  "list_all scalarRune rs \<Longrightarrow> \<exists>k. capName n (utf8 rs) = utf8 (take k rs)"
proof (induction rs rule: rev_induct)
  case Nil
  then show ?case by (simp add: capName_short)
next
  case (snoc r rs)
  show ?case
  proof (cases "n < length (utf8 (rs @ [r]))")
    case True
    have "decodeLastRune (utf8 rs @ encodeRune r) = (r, length (encodeRune r))"
      using snoc.prems by (simp add: decodeLast_encode)
    with True have "capName n (utf8 (rs @ [r])) = capName n (utf8 rs)"
      by (subst capName.simps) simp
    moreover obtain k where "capName n (utf8 rs) = utf8 (take k rs)"
      using snoc by auto
    then have "capName n (utf8 rs) = utf8 (take (min k (length rs)) (rs @ [r]))"
      by (cases "k \<le> length rs") (simp_all add: min_def)
    ultimately show ?thesis by metis
  next
    case False
    then have "capName n (utf8 (rs @ [r])) = utf8 (take (Suc (length rs)) (rs @ [r]))"
      by (simp add: capName_short)
    then show ?thesis by blast
  qed
qed

lemma sanitizeName_take: "\<exists>k. sanitizeName name = utf8 (take k (fullName name))"
  unfolding sanitizeName_full by (rule capName_utf8 [OF cleanName_scalar [OF fullName_clean]])

lemma runes_sanitizeName_clean:
  "cleanName (runes (sanitizeName name)) \<and> sanitizeName name = utf8 (runes (sanitizeName name))"
proof -
  obtain k where k: "sanitizeName name = utf8 (take k (fullName name))"
    using sanitizeName_take by blast
  have c: "cleanName (take k (fullName name))"
    by (rule cleanName_take [OF fullName_clean])
  then show ?thesis using k by (simp add: runes_utf8 cleanName_scalar)
qed

lemma runeFields_clean_join:
  assumes "noDouble rs" "cur = [] \<Longrightarrow> rs \<noteq> [] \<Longrightarrow> hd rs \<noteq> 0x20"
    and "cur @ rs \<noteq> [] \<Longrightarrow> last (cur @ rs) \<noteq> 0x20"
    and "\<And>r. r \<in> set rs \<Longrightarrow> isSpaceRune r \<longleftrightarrow> r = 0x20"
  shows "joinWith [0x20] (runeFields isSpaceRune cur rs) = cur @ rs
    \<and> (cur @ rs \<noteq> [] \<longrightarrow> runeFields isSpaceRune cur rs \<noteq> [])"
  using assms
proof (induction rs arbitrary: cur)
  case Nil
  then show ?case by simp
next
  case (Cons r rs)
  show ?case
  proof (cases "r = 0x20")
    case True
    then have "cur \<noteq> []" "rs \<noteq> []" using Cons.prems(2,3) by auto
    moreover have "noDouble rs" "hd rs \<noteq> 0x20"
      using Cons.prems(1) \<open>rs \<noteq> []\<close> True by (cases rs; simp)+
    ultimately have "joinWith [0x20] (runeFields isSpaceRune [] rs) = rs"
      "runeFields isSpaceRune [] rs \<noteq> []"
      using Cons.IH [of "[]"] Cons.prems(3,4) by simp_all
    then show ?thesis
      using True \<open>cur \<noteq> []\<close> Cons.prems(4) [of r] by (simp add: joinWith_Cons)
  next
    case False
    moreover have "noDouble rs" using Cons.prems(1) by (cases rs) simp_all
    ultimately show ?thesis
      using Cons.IH [of "cur @ [r]"] Cons.prems(3,4) by simp
  qed
qed

lemma map_filter_clean:
  "list_all (\<lambda>r. scalarRune r \<and> \<not> isControlRune r \<and> (isSpaceRune r \<longrightarrow> r = 0x20)) rs \<Longrightarrow>
   List.map_filter sanitizeRune rs = rs"
  by (induction rs) (auto simp: List.map_filter_simps sanitizeRune_def)

text \<open>A clean name that does not end in a blank and fits is left alone.\<close>

lemma fullName_clean_id:
  assumes "cleanName rs" "rs \<noteq> [] \<Longrightarrow> last rs \<noteq> 0x20"
  shows "fullName (utf8 rs) = rs"
proof -
  have sp: "isSpaceRune r \<longleftrightarrow> r = 0x20" if "r \<in> set rs" for r
    using assms(1) that by (auto simp: cleanName_def list_all_iff isSpaceRune_def)
  have "joinWith [0x20] (runeFields isSpaceRune [] rs) = [] @ rs"
    using assms sp
    by (intro runeFields_clean_join [THEN conjunct1]) (simp_all add: cleanName_def)
  moreover have "List.map_filter sanitizeRune (runes (utf8 rs)) = rs"
    using assms(1) by (simp add: runes_utf8 cleanName_scalar map_filter_clean cleanName_def)
  ultimately show ?thesis
    by (simp add: fullName_def)
qed

lemma sanitizeName_id:
  assumes "cleanName rs" "rs \<noteq> [] \<Longrightarrow> last rs \<noteq> 0x20" "length (utf8 rs) \<le> maxNameLen"
  shows "sanitizeName (utf8 rs) = utf8 rs"
  using assms by (simp add: sanitizeName_full fullName_clean_id capName_short)

section \<open>What the server may rely on\<close>

text \<open>
  C35: Whatever bytes a peer sends as its name, the label the server keeps is at most 64 bytes of
  well-formed UTF-8 with no control character, no white space but single blanks, and no blank in front.
\<close>

theorem sanitize_name_clean:
  "length (sanitizeName name) \<le> maxNameLen \<and> cleanName (runes (sanitizeName name)) \<and>
   utf8 (runes (sanitizeName name)) = sanitizeName name"
  using runes_sanitizeName_clean [of name] by (simp add: sanitizeName_def capName_bound)

text \<open>
  Sanitizing keeps a name that is already clean, fits and does not end in a blank; so it is
  idempotent except where the cut left a blank at the end.
\<close>

lemma sanitize_name_stable:
  assumes "cleanName rs" "rs \<noteq> [] \<Longrightarrow> last rs \<noteq> 0x20" "length (utf8 rs) \<le> maxNameLen"
  shows "sanitizeName (utf8 rs) = utf8 rs \<and>
    sanitizeName (sanitizeName (utf8 rs)) = sanitizeName (utf8 rs)"
  using sanitizeName_id [OF assms] by simp

lemma sanitize_name_stable_witness:
  "sanitizeName (utf8 [72, 0x20, 0x20AC]) = utf8 [72, 0x20, 0x20AC]"
  using sanitize_name_stable [of "[72, 0x20, 0x20AC]"]
  by (simp add: cleanName_def scalarRune_def isControlRune_def isSpaceRune_def maxNameLen_def encodeRune_def)

end
