(* ===== verification/Go_Net.thy ===== *)
theory Go_Net
  imports Go_Strings
begin

text \<open>
  The parts of Go's \<open>net\<close> package the source calculates with: IP addresses and their text form,
  UDP addresses, and \<open>JoinHostPort\<close> and \<open>SplitHostPort\<close>. Name resolution and the network itself
  are not here; where the source resolves a name, the resolver is a parameter of the model.
\<close>

section \<open>IP addresses\<close>

text \<open>\<open>net.IP\<close> is a byte slice of length 4 or 16.\<close>

type_synonym go_ip = bytes

definition v4InV6Prefix :: bytes where
  "v4InV6Prefix = replicate 10 (CHR 0x00) @ [CHR 0xFF, CHR 0xFF]"

definition ipTo4 :: "go_ip \<Rightarrow> go_ip option" where
  "ipTo4 a =
     (if length a = 4 then Some a
      else if length a = 16 \<and> take 12 a = v4InV6Prefix then Some (drop 12 a)
      else None)"

definition ipEqual :: "go_ip \<Rightarrow> go_ip \<Rightarrow> bool" where
  "ipEqual a b \<longleftrightarrow>
     (if length a = length b then a = b
      else if length a = 4 \<and> length b = 16 then take 12 b = v4InV6Prefix \<and> a = drop 12 b
      else if length a = 16 \<and> length b = 4 then take 12 a = v4InV6Prefix \<and> b = drop 12 a
      else False)"

definition ipIsLoopback :: "go_ip \<Rightarrow> bool" where
  "ipIsLoopback a \<longleftrightarrow>
     (case ipTo4 a of
        Some q \<Rightarrow> hd q = CHR 0x7F
      | None \<Rightarrow> ipEqual a (replicate 15 (CHR 0x00) @ [CHR 0x01]))"

definition ipIsUnspecified :: "go_ip \<Rightarrow> bool" where
  "ipIsUnspecified a \<longleftrightarrow>
     ipEqual a (v4InV6Prefix @ replicate 4 (CHR 0x00)) \<or> ipEqual a (replicate 16 (CHR 0x00))"

definition ipIsLinkLocalUnicast :: "go_ip \<Rightarrow> bool" where
  "ipIsLinkLocalUnicast a \<longleftrightarrow>
     (case ipTo4 a of
        Some q \<Rightarrow> q ! 0 = CHR 0xA9 \<and> q ! 1 = CHR 0xFE
      | None \<Rightarrow> length a = 16 \<and> a ! 0 = CHR 0xFE \<and>
          0x80 \<le> (of_char (a ! 1) :: nat) \<and> (of_char (a ! 1) :: nat) < 0xC0)"

text \<open>
  Text form: dotted decimal for IPv4 (and IPv4 mapped into IPv6), else hexadecimal groups with the
  first longest run of at least two zero groups written as \<open>::\<close>.
\<close>

definition hexDigit :: "nat \<Rightarrow> char" where
  "hexDigit d = (if d < 10 then char_of (48 + d) else char_of (87 + d))"

fun natToHex :: "nat \<Rightarrow> string" where
  "natToHex n = (if n < 16 then [hexDigit n] else natToHex (n div 16) @ [hexDigit (n mod 16)])"

declare natToHex.simps [simp del]

fun groups16 :: "bytes \<Rightarrow> nat list" where
  "groups16 (a # b # rest) = (256 * of_char a + of_char b) # groups16 rest"
| "groups16 _ = []"

definition zeroRun :: "nat list \<Rightarrow> nat \<Rightarrow> nat" where
  "zeroRun gs i = length (takeWhile (\<lambda>g. g = 0) (drop i gs))"

text \<open>Start and end of the run that is compressed, or nothing.\<close>

definition longestRun :: "nat list \<Rightarrow> (nat \<times> nat) option" where
  "longestRun gs =
     foldl (\<lambda>best i. let l = zeroRun gs i; cur = (case best of None \<Rightarrow> 0 | Some (s, e) \<Rightarrow> e - s)
                     in if 2 \<le> l \<and> cur < l then Some (i, i + l) else best)
       None [0..<8]"

definition ip6String :: "go_ip \<Rightarrow> string" where
  "ip6String a =
     (let gs = groups16 a; hx = (\<lambda>l. joinWith '':'' (map natToHex l))
      in case longestRun gs of
           None \<Rightarrow> hx gs
         | Some (i, j) \<Rightarrow> hx (take i gs) @ ''::'' @ hx (drop j gs))"

definition ip4String :: "go_ip \<Rightarrow> string" where
  "ip4String a = joinWith ''.'' (map (\<lambda>c. natToDec (of_char c)) a)"

definition hexString :: "bytes \<Rightarrow> string" where
  "hexString bs = concat (map (\<lambda>c. [hexDigit (of_char c div 16), hexDigit (of_char c mod 16)]) bs)"

definition ipString :: "go_ip \<Rightarrow> string" where
  "ipString a =
     (if a = [] then ''<nil>''
      else if length a \<noteq> 4 \<and> length a \<noteq> 16 then ''?'' @ hexString a
      else case ipTo4 a of
             Some q \<Rightarrow> ip4String q
           | None \<Rightarrow> ip6String a)"

section \<open>Host and port\<close>

definition joinHostPort :: "string \<Rightarrow> string \<Rightarrow> string" where
  "joinHostPort host port =
     (if CHR '':'' \<in> set host then ''['' @ host @ '']:'' @ port else host @ '':'' @ port)"

definition splitHostPort :: "string \<Rightarrow> (string \<times> string) option" where
  "splitHostPort hp =
     (case lastIndexByte (CHR '':'') hp of
        None \<Rightarrow> None
      | Some i \<Rightarrow>
          (if hp ! 0 = CHR ''['' then
             (case indexByte (CHR '']'') hp of
                None \<Rightarrow> None
              | Some e \<Rightarrow>
                  if e + 1 = length hp \<or> e + 1 \<noteq> i then None
                  else if CHR ''['' \<in> set (drop 1 hp) \<or> CHR '']'' \<in> set (drop (e + 1) hp) then None
                  else Some (take (e - 1) (drop 1 hp), drop (i + 1) hp))
           else if CHR '':'' \<in> set (take i hp) then None
           else if CHR ''['' \<in> set hp \<or> CHR '']'' \<in> set hp then None
           else Some (take i hp, drop (i + 1) hp)))"

record udp_addr =
  ua_ip :: go_ip
  ua_port :: int
  ua_zone :: string

definition udpString :: "udp_addr \<Rightarrow> string" where
  "udpString a =
     (let h = (if ua_ip a = [] then [] else ipString (ua_ip a))
      in joinHostPort (if ua_zone a = [] then h else h @ ''%'' @ ua_zone a) (itoa (ua_port a)))"

lemmas gonet_defs [go_defs] =
  v4InV6Prefix_def ipTo4_def ipEqual_def ipIsLoopback_def ipIsUnspecified_def
  ipIsLinkLocalUnicast_def hexDigit_def zeroRun_def longestRun_def ip6String_def ip4String_def
  hexString_def ipString_def joinHostPort_def splitHostPort_def udpString_def

lemma ipEqual_refl [simp]: "ipEqual a a"
  by (simp add: ipEqual_def)

lemma ipEqual_sym: "ipEqual a b \<Longrightarrow> ipEqual b a"
  by (auto simp: ipEqual_def split: if_splits)

text \<open>Two addresses are equal exactly when their 16-byte forms are.\<close>

definition ipTo16 :: "go_ip \<Rightarrow> go_ip" where
  "ipTo16 a = (if length a = 4 then v4InV6Prefix @ a else a)"

lemma length_v4InV6Prefix [simp]: "length v4InV6Prefix = 12"
  by (simp add: v4InV6Prefix_def)

lemma ipEqual_To16:
  assumes "length a = 4 \<or> length a = 16" "length b = 4 \<or> length b = 16"
  shows "ipEqual a b \<longleftrightarrow> ipTo16 a = ipTo16 b"
  using assms by (auto simp: ipEqual_def ipTo16_def append_eq_conv_conj) (metis append_take_drop_id)

lemma splitHostPort_join:
  assumes "CHR '':'' \<notin> set port" "CHR ''['' \<notin> set host \<union> set port" "CHR '']'' \<notin> set host \<union> set port"
  shows "splitHostPort (joinHostPort host port) = Some (host, port)"
proof (cases "CHR '':'' \<in> set host")
  case True
  let ?hp = "CHR ''['' # host @ CHR '']'' # CHR '':'' # port"
  have "lastIndexByte (CHR '':'') ?hp = Some (length (CHR ''['' # host @ [CHR '']'']))"
    using lastIndexByte_append_last [OF assms(1), of "CHR ''['' # host @ [CHR '']'']"] by simp
  moreover have "indexByte (CHR '']'') (host @ CHR '']'' # xs) = Some (length host)" for xs
    using assms(3) by (induction host) auto
  ultimately show ?thesis
    using True assms by (simp add: joinHostPort_def splitHostPort_def)
next
  case False
  have "(host @ CHR '':'' # port) ! 0 \<noteq> CHR ''[''"
    using assms(2) by (cases host) auto
  with False assms show ?thesis
    by (simp add: joinHostPort_def splitHostPort_def)
qed

lemma natToDec_no: "\<not> isDigit c \<Longrightarrow> c \<notin> set (natToDec n)"
  using natToDec_set by blast

lemma itoa_no_colon [simp]: "CHR '':'' \<notin> set (itoa i)"
  by (simp add: itoa_def natToDec_no isDigit_def)

lemma itoa_no_brackets [simp]: "CHR ''['' \<notin> set (itoa i)" "CHR '']'' \<notin> set (itoa i)"
  by (simp_all add: itoa_def natToDec_no isDigit_def)

end
