(* ===== verification/Server_State.thy ===== *)
theory Server_State
  imports Go_Net
begin

text \<open>
  The state of the rendezvous server (\<open>Server\<close> in \<open>internal/signal/server.go\<close>) and the messages of
  its protocol (\<open>internal/signal/proto.go\<close>).

  The server reaches sessions and peer connections through pointers that outlive the maps: a
  handler keeps its \<open>sess\<close> after the session has left \<open>s.sessions\<close>. Sessions and connections
  therefore live in a store, addressed by natural numbers, and the maps hold addresses. A relay
  route is only ever reached through \<open>s.relays\<close>, so that map holds the routes themselves.
\<close>

section \<open>Messages\<close>

type_synonym role = string

definition roleHost :: role where
  "roleHost = ''host''"

definition roleClient :: role where
  "roleClient = ''client''"

record message =
  m_type :: string
  m_role :: role
  m_code :: string
  m_name :: string
  m_publicAddr :: string
  m_localAddrs :: "string list"
  m_peerAddr :: string
  m_peerLocalAddrs :: "string list"
  m_peerRole :: role
  m_certFingerprint :: string
  m_relayToken :: string
  m_relayAddr :: string
  m_fallback :: bool
  m_error :: string

definition typeHello :: string where "typeHello = ''hello''"
definition typeReflected :: string where "typeReflected = ''reflected''"
definition typePaired :: string where "typePaired = ''paired''"
definition typeReady :: string where "typeReady = ''ready''"
definition typeGo :: string where "typeGo = ''go''"
definition typeError :: string where "typeError = ''error''"

text \<open>A Go composite literal sets the named fields and leaves the others at their zero value.\<close>

definition msg0 :: "string \<Rightarrow> message" where
  "msg0 t = \<lparr> m_type = t, m_role = [], m_code = [], m_name = [], m_publicAddr = [],
     m_localAddrs = [], m_peerAddr = [], m_peerLocalAddrs = [], m_peerRole = [],
     m_certFingerprint = [], m_relayToken = [], m_relayAddr = [], m_fallback = False,
     m_error = [] \<rparr>"

lemmas proto_defs [go_defs] =
  roleHost_def roleClient_def typeHello_def typeReflected_def typePaired_def typeReady_def
  typeGo_def typeError_def msg0_def

lemma roles_neq [simp]: "roleHost \<noteq> roleClient" "roleClient \<noteq> roleHost"
  by (simp_all add: proto_defs)

lemma roles_ne_Nil [simp]: "roleHost \<noteq> []" "roleClient \<noteq> []"
  by (simp_all add: proto_defs)

section \<open>Relay routes, peers, sessions\<close>

record relay_route =
  rr_peer :: string
  rr_code :: string
  rr_role :: role
  rr_addr :: "udp_addr option"
  rr_first :: time
  rr_seen :: time
  rr_packets :: u64
  rr_bytes :: u64

text \<open>
  One peer's connection. \<open>pc_ready\<close> is whether the channel \<open>ready\<close> has been closed. The last
  three fields are the locals of the \<open>handleWS\<close> call that serves the connection: \<open>hello.Code\<close>, the
  session pointer \<open>sess\<close>, and whether the call has returned.
\<close>

record peer_conn =
  pc_role :: role
  pc_name :: string
  pc_token :: string
  pc_public :: string
  pc_local :: "string list"
  pc_fp :: string
  pc_remote :: string
  pc_joined :: time
  pc_ready :: bool
  pc_code :: string
  pc_sess :: nat
  pc_done :: bool

record session =
  ss_code :: string
  ss_peers :: "(role, nat) gomap"
  ss_paired :: bool
  ss_created :: time
  ss_pairedAt :: "time option"

section \<open>Configuration, statistics, administrator sessions\<close>

record admin_config =
  ac_disabled :: bool
  ac_username :: string
  ac_passwordHash :: string
  ac_sessionTTL :: duration
  ac_trustForwardedHeaders :: bool

text \<open>
  \<open>SaveAdmin\<close> is a callback that may be absent; it gets the user name and the hash and answers with
  an error text or nothing.
\<close>

record server_config =
  cf_httpAddr :: string
  cf_udpAddr :: string
  cf_name :: string
  cf_publicUDP :: string
  cf_publicURL :: string
  cf_version :: string
  cf_admin :: admin_config
  cf_saveAdmin :: "(string \<Rightarrow> string \<Rightarrow> string option) option"

record server_stats =
  st_peersJoined :: u64
  st_pairs :: u64
  st_reflections :: u64
  st_relayedPkts :: u64
  st_relayedBytes :: u64
  st_droppedPkts :: u64
  st_udpPackets :: u64
  st_udpInvalid :: u64
  st_lastUDPUnix :: int
  st_lastReflectUnix :: int

record admin_session =
  as_username :: string
  as_expires :: time
  as_mustChangePassword :: bool

record admin_auth =
  aa_sessions :: "(string, admin_session) gomap"
  aa_ttl :: duration

text \<open>
  The server itself, with the store (\<open>sv_sheap\<close>, \<open>sv_conns\<close>) and the WebSockets: what has been
  written to each, in order, and whether the server has closed it. \<open>sv_next\<close> is the next free
  session address; a connection's address is chosen by the listener.
\<close>

record server =
  sv_cfg :: server_config
  sv_sessions :: "(string, nat) gomap"
  sv_relays :: "(string, relay_route) gomap"
  sv_started :: time
  sv_stats :: server_stats
  sv_admin :: admin_auth
  sv_sheap :: "nat \<Rightarrow> session option"
  sv_conns :: "nat \<Rightarrow> peer_conn option"
  sv_out :: "nat \<Rightarrow> message list"
  sv_closed :: "nat \<Rightarrow> bool"
  sv_next :: nat

definition stats0 :: server_stats where
  "stats0 = \<lparr> st_peersJoined = 0, st_pairs = 0, st_reflections = 0, st_relayedPkts = 0,
     st_relayedBytes = 0, st_droppedPkts = 0, st_udpPackets = 0, st_udpInvalid = 0,
     st_lastUDPUnix = 0, st_lastReflectUnix = 0 \<rparr>"

text \<open>\<open>time.Now().Unix()\<close> and \<open>stampOf\<close>.\<close>

definition unixOf :: "time \<Rightarrow> int" where
  "unixOf t = t div second"

definition stampOf :: "int \<Rightarrow> time option" where
  "stampOf n = (if n \<noteq> 0 then Some (n * second) else None)"

definition newAdminAuth :: "duration \<Rightarrow> admin_auth" where
  "newAdminAuth ttl = \<lparr> aa_sessions = [], aa_ttl = (if ttl \<le> 0 then 12 * hour else ttl) \<rparr>"

definition newServer :: "time \<Rightarrow> server_config \<Rightarrow> server" where
  "newServer now cfg =
     \<lparr> sv_cfg = cfg, sv_sessions = [], sv_relays = [], sv_started = now, sv_stats = stats0,
       sv_admin = newAdminAuth (ac_sessionTTL (cf_admin cfg)),
       sv_sheap = (\<lambda>_. None), sv_conns = (\<lambda>_. None), sv_out = (\<lambda>_. []), sv_closed = (\<lambda>_. False),
       sv_next = 0 \<rparr>"

lemmas state_defs [go_defs] = stats0_def unixOf_def stampOf_def newAdminAuth_def newServer_def

text \<open>\<open>p.send\<close> / \<open>c.WriteJSON\<close>: nothing more goes out on a connection the server has closed.\<close>

definition wsSend :: "nat \<Rightarrow> message \<Rightarrow> server \<Rightarrow> server" where
  "wsSend c m s = (if sv_closed s c then s else s\<lparr>sv_out := (sv_out s)(c := sv_out s c @ [m])\<rparr>)"

definition wsClose :: "nat \<Rightarrow> server \<Rightarrow> server" where
  "wsClose c s = s\<lparr>sv_closed := (sv_closed s)(c := True)\<rparr>"

declare wsSend_def [go_defs] wsClose_def [go_defs]

text \<open>A write to a WebSocket changes nothing else of the server.\<close>

lemma wsSend_frame [simp]:
  "sv_cfg (wsSend c m s) = sv_cfg s" "sv_sessions (wsSend c m s) = sv_sessions s"
  "sv_relays (wsSend c m s) = sv_relays s" "sv_stats (wsSend c m s) = sv_stats s"
  "sv_admin (wsSend c m s) = sv_admin s" "sv_sheap (wsSend c m s) = sv_sheap s"
  "sv_conns (wsSend c m s) = sv_conns s" "sv_closed (wsSend c m s) = sv_closed s"
  "sv_next (wsSend c m s) = sv_next s" "sv_started (wsSend c m s) = sv_started s"
  by (simp_all add: wsSend_def)

lemma wsClose_frame [simp]:
  "sv_cfg (wsClose c s) = sv_cfg s" "sv_sessions (wsClose c s) = sv_sessions s"
  "sv_relays (wsClose c s) = sv_relays s" "sv_stats (wsClose c s) = sv_stats s"
  "sv_admin (wsClose c s) = sv_admin s" "sv_sheap (wsClose c s) = sv_sheap s"
  "sv_conns (wsClose c s) = sv_conns s" "sv_out (wsClose c s) = sv_out s"
  "sv_next (wsClose c s) = sv_next s" "sv_started (wsClose c s) = sv_started s"
  by (simp_all add: wsClose_def)

lemma sv_out_wsSend:
  "sv_out (wsSend c m s) c' = (if c' = c \<and> \<not> sv_closed s c then sv_out s c @ [m] else sv_out s c')"
  by (simp add: wsSend_def)

lemma sv_closed_wsClose [simp]: "sv_closed (wsClose c s) c' \<longleftrightarrow> c' = c \<or> sv_closed s c'"
  by (simp add: wsClose_def)

end
