(* ===== verification/Relay.thy ===== *)
theory Relay
  imports Server_State
begin

text \<open>
  The UDP side of the server (\<open>internal/signal/server.go\<close>): the wire format, one iteration of
  \<open>serveUDP\<close> per datagram, \<open>pairLocked\<close> and the idle sweep \<open>gcRelay\<close>. A datagram the server sends
  is a pair of its destination and its bytes.
\<close>

definition wireMagic :: bytes where
  "wireMagic = ''RT01''"

definition magicAddr :: bytes where
  "magicAddr = ''RTAD''"

definition tokenLen :: nat where
  "tokenLen = 16"

definition hdrLen :: nat where
  "hdrLen = 4 + tokenLen"

definition relayTTL :: duration where
  "relayTTL = 3 * minute"

lemmas wire_defs [go_defs] =
  wireMagic_def magicAddr_def tokenLen_def hdrLen_def relayTTL_def

type_synonym datagram = "udp_addr \<times> bytes"

section \<open>Routes\<close>

text \<open>\<open>&relayRoute{first: now}\<close>; the zero \<open>time.Time\<close> is the year 1.\<close>

definition zeroTime :: time where
  "zeroTime = - 62135596800 * second"

definition newRoute :: "time \<Rightarrow> relay_route" where
  "newRoute now = \<lparr> rr_peer = [], rr_code = [], rr_role = [], rr_addr = None, rr_first = now,
     rr_seen = zeroTime, rr_packets = 0, rr_bytes = 0 \<rparr>"

definition pairLocked :: "time \<Rightarrow> string \<Rightarrow> string \<Rightarrow> string \<Rightarrow> role \<Rightarrow> server \<Rightarrow> server" where
  "pairLocked now token peer code role s =
     (let route = (case mget (sv_relays s) token of
                     None \<Rightarrow> (newRoute now)\<lparr>rr_seen := now\<rparr>
                   | Some r \<Rightarrow> r)
      in s\<lparr>sv_relays := mput token (route\<lparr>rr_peer := peer, rr_code := code, rr_role := role\<rparr>) (sv_relays s)\<rparr>)"

text \<open>
  The part of \<open>serveUDP\<close> under the lock: find or make the route, note where the datagram came
  from, count a payload, and read the address of the peer the route points at.
\<close>

definition routeUpdate :: "time \<Rightarrow> udp_addr \<Rightarrow> bytes \<Rightarrow> relay_route option \<Rightarrow> relay_route" where
  "routeUpdate now addr payload r =
     (let route = (case r of None \<Rightarrow> newRoute now | Some r \<Rightarrow> r);
          route = route\<lparr>rr_addr := Some addr, rr_seen := now\<rparr>
      in if payload \<noteq> [] then
           route\<lparr>rr_packets := rr_packets route + 1,
                 rr_bytes := rr_bytes route + of_nat (length payload)\<rparr>
         else route)"

definition peerAddrOf :: "(string, relay_route) gomap \<Rightarrow> relay_route \<Rightarrow> udp_addr option" where
  "peerAddrOf relays route =
     (case mget relays (rr_peer route) of None \<Rightarrow> None | Some p \<Rightarrow> rr_addr p)"

text \<open>One iteration of \<open>serveUDP\<close>: the datagram \<open>d\<close> has been read from \<open>addr\<close>.\<close>

definition serveUDP :: "time \<Rightarrow> udp_addr \<Rightarrow> bytes \<Rightarrow> server \<Rightarrow> server \<times> datagram list" where
  "serveUDP now addr d s =
     (let buf = take (64 * 1024) d;
          st = sv_stats s;
          st = st\<lparr>st_udpPackets := st_udpPackets st + 1, st_lastUDPUnix := unixOf now\<rparr>
      in if length buf < hdrLen \<or> take 4 buf \<noteq> wireMagic then
           (s\<lparr>sv_stats := st\<lparr>st_udpInvalid := st_udpInvalid st + 1\<rparr>\<rparr>, [])
         else
           let token = take tokenLen (drop 4 buf);
               payload = drop hdrLen buf;
               route = routeUpdate now addr payload (mget (sv_relays s) token);
               relays = mput token route (sv_relays s);
               s = s\<lparr>sv_relays := relays\<rparr>
           in if payload = [] then
                (s\<lparr>sv_stats := st\<lparr>st_reflections := st_reflections st + 1,
                                 st_lastReflectUnix := unixOf now\<rparr>\<rparr>,
                 [(addr, magicAddr @ udpString addr)])
              else
                (case peerAddrOf relays route of
                   None \<Rightarrow> (s\<lparr>sv_stats := st\<lparr>st_droppedPkts := st_droppedPkts st + 1\<rparr>\<rparr>, [])
                 | Some pa \<Rightarrow>
                     (s\<lparr>sv_stats := st\<lparr>st_relayedPkts := st_relayedPkts st + 1,
                                      st_relayedBytes := st_relayedBytes st + of_nat (length payload)\<rparr>\<rparr>,
                      [(pa, wireMagic @ token @ payload)])))"

text \<open>One tick of \<open>gcRelay\<close>.\<close>

definition gcRelay :: "time \<Rightarrow> server \<Rightarrow> server" where
  "gcRelay now s =
     s\<lparr>sv_relays := msweep (\<lambda>tok route. relayTTL < now - rr_seen route) (sv_relays s)\<rparr>"

lemmas relay_defs [go_defs] =
  zeroTime_def newRoute_def pairLocked_def routeUpdate_def peerAddrOf_def serveUDP_def gcRelay_def

section \<open>What a datagram does\<close>

text \<open>A framed datagram, as both \<open>nat.Reflect\<close> and \<open>RelayConn.WriteTo\<close> build it.\<close>

definition frame :: "bytes \<Rightarrow> bytes \<Rightarrow> bytes" where
  "frame token payload = wireMagic @ token @ payload"

declare frame_def [go_defs]

lemma frame_parts:
  assumes "length token = tokenLen"
  shows "take 4 (frame token payload) = wireMagic"
    and "take tokenLen (drop 4 (frame token payload)) = token"
    and "drop hdrLen (frame token payload) = payload"
    and "\<not> length (frame token payload) < hdrLen"
  using assms by (simp_all add: frame_def wire_defs)

lemma frame_take:
  "length token = tokenLen \<Longrightarrow> hdrLen + length payload \<le> 64 * 1024 \<Longrightarrow>
   take (64 * 1024) (frame token payload) = frame token payload"
  by (simp add: frame_def wire_defs)

definition udpSeen :: "time \<Rightarrow> server \<Rightarrow> server_stats" where
  "udpSeen now s = (sv_stats s)\<lparr>st_udpPackets := st_udpPackets (sv_stats s) + 1, st_lastUDPUnix := unixOf now\<rparr>"

lemma serveUDP_invalid:
  assumes "length d < hdrLen \<or> take 4 d \<noteq> wireMagic"
  shows "serveUDP now addr d s =
    (s\<lparr>sv_stats := (udpSeen now s)\<lparr>st_udpInvalid := st_udpInvalid (sv_stats s) + 1\<rparr>\<rparr>, [])"
  using assms by (auto simp: serveUDP_def udpSeen_def hdrLen_def tokenLen_def min_def Let_def)

lemma serveUDP_reflect:
  assumes "length token = tokenLen"
  shows "serveUDP now addr (frame token []) s =
    (s\<lparr>sv_relays := mput token (routeUpdate now addr [] (mget (sv_relays s) token)) (sv_relays s),
       sv_stats := (udpSeen now s)\<lparr>st_reflections := st_reflections (sv_stats s) + 1,
                                   st_lastReflectUnix := unixOf now\<rparr>\<rparr>,
     [(addr, magicAddr @ udpString addr)])"
  using assms frame_parts [OF assms, of "[]"] frame_take [OF assms, of "[]"]
  by (simp add: serveUDP_def udpSeen_def Let_def) (simp add: wire_defs)

lemma serveUDP_data:
  assumes "length token = tokenLen" "payload \<noteq> []" "hdrLen + length payload \<le> 64 * 1024"
    and "route = routeUpdate now addr payload (mget (sv_relays s) token)"
    and "relays = mput token route (sv_relays s)"
  shows "serveUDP now addr (frame token payload) s =
    (case peerAddrOf relays route of
       None \<Rightarrow> (s\<lparr>sv_relays := relays,
                  sv_stats := (udpSeen now s)\<lparr>st_droppedPkts := st_droppedPkts (sv_stats s) + 1\<rparr>\<rparr>, [])
     | Some pa \<Rightarrow>
         (s\<lparr>sv_relays := relays,
            sv_stats := (udpSeen now s)\<lparr>st_relayedPkts := st_relayedPkts (sv_stats s) + 1,
              st_relayedBytes := st_relayedBytes (sv_stats s) + of_nat (length payload)\<rparr>\<rparr>,
          [(pa, frame token payload)]))"
  using assms frame_parts [OF assms(1), of payload] frame_take [OF assms(1,3)]
  by (simp add: serveUDP_def udpSeen_def Let_def frame_def split: option.split)

lemma routeUpdate_peer [simp]:
  "rr_peer (routeUpdate now addr payload r) = (case r of None \<Rightarrow> [] | Some q \<Rightarrow> rr_peer q)"
  "rr_code (routeUpdate now addr payload r) = (case r of None \<Rightarrow> [] | Some q \<Rightarrow> rr_code q)"
  "rr_role (routeUpdate now addr payload r) = (case r of None \<Rightarrow> [] | Some q \<Rightarrow> rr_role q)"
  "rr_addr (routeUpdate now addr payload r) = Some addr"
  "rr_seen (routeUpdate now addr payload r) = now"
  "rr_first (routeUpdate now addr payload r) = (case r of None \<Rightarrow> now | Some q \<Rightarrow> rr_first q)"
  by (simp_all add: routeUpdate_def newRoute_def Let_def split: option.split)

end
