(* ===== verification/Rendezvous.thy ===== *)
theory Rendezvous
  imports Relay Peer_Name
begin

text \<open>
  Signaling (\<open>handleWS\<close>, \<open>tryPair\<close> and \<open>publicUDP\<close> of \<open>internal/signal/server.go\<close>): a peer says
  hello and is registered on its code, reports itself ready, and is paired with the other side once
  both are. One call of \<open>handleWS\<close> is three kinds of step: the handshake, one message of the read
  loop, and the deferred clean-up when the read fails.
\<close>

definition errorMsg :: "string \<Rightarrow> message" where
  "errorMsg e = (msg0 typeError)\<lparr>m_error := e\<rparr>"

text \<open>\<open>reqHost\<close> is the \<open>Host\<close> of the request that opened the WebSocket.\<close>

definition publicUDP :: "server_config \<Rightarrow> string \<Rightarrow> string" where
  "publicUDP cfg reqHost =
     (if cf_publicUDP cfg \<noteq> [] then cf_publicUDP cfg
      else
        let host = (case splitHostPort reqHost of Some (h, _) \<Rightarrow> h | None \<Rightarrow> reqHost);
            port = (case splitHostPort (cf_udpAddr cfg) of Some (_, p) \<Rightarrow> p | None \<Rightarrow> [])
        in joinHostPort host port)"

section \<open>Pairing\<close>

definition pairedToHost :: "peer_conn \<Rightarrow> peer_conn \<Rightarrow> message" where
  "pairedToHost host client =
     (msg0 typePaired)\<lparr>m_peerAddr := pc_public client, m_peerLocalAddrs := pc_local client,
       m_peerRole := roleClient, m_relayToken := pc_token host\<rparr>"

definition pairedToClient :: "peer_conn \<Rightarrow> peer_conn \<Rightarrow> message" where
  "pairedToClient host client =
     (msg0 typePaired)\<lparr>m_peerAddr := pc_public host, m_peerLocalAddrs := pc_local host,
       m_peerRole := roleHost, m_certFingerprint := pc_fp host, m_relayToken := pc_token client\<rparr>"

definition bumpPairs :: "server \<Rightarrow> server" where
  "bumpPairs s = s\<lparr>sv_stats := (sv_stats s)\<lparr>st_pairs := st_pairs (sv_stats s) + 1\<rparr>\<rparr>"

text \<open>What \<open>tryPair\<close> does once its guards have passed: \<open>sess\<close> is the session at \<open>sid\<close>.\<close>

definition pairPeers ::
  "time \<Rightarrow> nat \<Rightarrow> session \<Rightarrow> nat \<Rightarrow> peer_conn \<Rightarrow> nat \<Rightarrow> peer_conn \<Rightarrow> server \<Rightarrow> server" where
  "pairPeers now sid sess h host c client s =
     (let s = s\<lparr>sv_sheap := (sv_sheap s)(sid \<mapsto> sess\<lparr>ss_paired := True, ss_pairedAt := Some now\<rparr>)\<rparr>;
          s = pairLocked now (pc_token host) (pc_token client) (ss_code sess) roleHost s;
          s = pairLocked now (pc_token client) (pc_token host) (ss_code sess) roleClient s;
          s = bumpPairs s;
          s = wsSend h (pairedToHost host client) s;
          s = wsSend c (pairedToClient host client) s;
          s = wsSend h (msg0 typeGo) s
      in wsSend c (msg0 typeGo) s)"

definition tryPair :: "time \<Rightarrow> nat \<Rightarrow> server \<Rightarrow> server" where
  "tryPair now sid s =
     (case sv_sheap s sid of
        None \<Rightarrow> s
      | Some sess \<Rightarrow>
          (case (mget (ss_peers sess) roleHost, mget (ss_peers sess) roleClient) of
             (Some h, Some c) \<Rightarrow>
               (case (sv_conns s h, sv_conns s c) of
                  (Some host, Some client) \<Rightarrow>
                    if ss_paired sess then s
                    else if \<not> pc_ready host \<or> \<not> pc_ready client then s
                    else pairPeers now sid sess h host c client s
                | _ \<Rightarrow> s)
           | _ \<Rightarrow> s))"

lemma tryPair_disj:
  "tryPair now sid s = s \<or>
   (\<exists>sess h c host client.
      sv_sheap s sid = Some sess \<and> \<not> ss_paired sess \<and>
      mget (ss_peers sess) roleHost = Some h \<and> mget (ss_peers sess) roleClient = Some c \<and>
      sv_conns s h = Some host \<and> sv_conns s c = Some client \<and> pc_ready host \<and> pc_ready client \<and>
      tryPair now sid s = pairPeers now sid sess h host c client s)"
  by (simp add: tryPair_def split: option.split)

lemma tryPair_cases [case_names unchanged paired]:
  obtains (unchanged) "tryPair now sid s = s"
  | (paired) sess h c host client where
      "sv_sheap s sid = Some sess" "\<not> ss_paired sess"
      "mget (ss_peers sess) roleHost = Some h" "mget (ss_peers sess) roleClient = Some c"
      "sv_conns s h = Some host" "sv_conns s c = Some client" "pc_ready host" "pc_ready client"
      "tryPair now sid s = pairPeers now sid sess h host c client s"
  using tryPair_disj [of now sid s] by blast

section \<open>A peer's connection\<close>

text \<open>
  The session a hello is registered on: the one under its code, or a new one at the next address.
\<close>

definition sessionFor :: "time \<Rightarrow> string \<Rightarrow> server \<Rightarrow> nat \<times> server" where
  "sessionFor now code s =
     (case mget (sv_sessions s) code of
        Some sid \<Rightarrow> (sid, s)
      | None \<Rightarrow>
          (sv_next s,
           s\<lparr>sv_sheap := (sv_sheap s)(sv_next s \<mapsto>
               \<lparr> ss_code = code, ss_peers = [], ss_paired = False, ss_created = now, ss_pairedAt = None \<rparr>),
             sv_sessions := mput code (sv_next s) (sv_sessions s),
             sv_next := Suc (sv_next s)\<rparr>))"

definition newPeer :: "time \<Rightarrow> string \<Rightarrow> string \<Rightarrow> message \<Rightarrow> nat \<Rightarrow> peer_conn" where
  "newPeer now tok remote hello sid =
     \<lparr> pc_role = m_role hello, pc_name = sanitizeName (m_name hello), pc_token = tok,
       pc_public = [], pc_local = [], pc_fp = [], pc_remote = remote, pc_joined = now,
       pc_ready = False, pc_code = m_code hello, pc_sess = sid, pc_done = False \<rparr>"

definition reflectedMsg :: "string \<Rightarrow> string \<Rightarrow> message" where
  "reflectedMsg tok addr = (msg0 typeReflected)\<lparr>m_relayToken := tok, m_relayAddr := addr\<rparr>"

text \<open>
  \<open>handleWS\<close> up to its read loop. \<open>hello\<close> is what the first read gave, nothing if it failed;
  \<open>tok\<close> is what \<open>randToken\<close> returned.
\<close>

definition handleHello ::
  "time \<Rightarrow> nat \<Rightarrow> string \<Rightarrow> string \<Rightarrow> string \<Rightarrow> message option \<Rightarrow> server \<Rightarrow> server" where
  "handleHello now c tok remote reqHost hello s =
     (case hello of
        None \<Rightarrow> wsClose c (wsSend c (errorMsg ''expected hello'') s)
      | Some m \<Rightarrow>
          if m_type m \<noteq> typeHello then wsClose c (wsSend c (errorMsg ''expected hello'') s)
          else if m_code m = [] \<or> (m_role m \<noteq> roleHost \<and> m_role m \<noteq> roleClient) then
            wsClose c (wsSend c (errorMsg ''missing code or role'') s)
          else
            (case sessionFor now (m_code m) s of
               (sid, s) \<Rightarrow>
                 (case sv_sheap s sid of
                    None \<Rightarrow> s
                  | Some sess \<Rightarrow>
                      if mget (ss_peers sess) (m_role m) \<noteq> None then
                        wsClose c (wsSend c
                          (errorMsg (''a '' @ m_role m @ '' is already connected for this code'')) s)
                      else
                        wsSend c (reflectedMsg tok (publicUDP (sv_cfg s) reqHost))
                          (s\<lparr>sv_sheap := (sv_sheap s)(sid \<mapsto> sess\<lparr>ss_peers := mput (m_role m) c (ss_peers sess)\<rparr>),
                             sv_conns := (sv_conns s)(c \<mapsto> newPeer now tok remote m sid),
                             sv_stats := (sv_stats s)\<lparr>st_peersJoined := st_peersJoined (sv_stats s) + 1\<rparr>\<rparr>))))"

text \<open>One message of the read loop. Only \<open>ready\<close> does anything; repeating it is allowed.\<close>

definition handleMessage :: "time \<Rightarrow> nat \<Rightarrow> message \<Rightarrow> server \<Rightarrow> server" where
  "handleMessage now c m s =
     (case sv_conns s c of
        None \<Rightarrow> s
      | Some pc \<Rightarrow>
          if m_type m = typeReady then
            tryPair now (pc_sess pc)
              (s\<lparr>sv_conns := (sv_conns s)(c \<mapsto> pc\<lparr>pc_public := m_publicAddr m, pc_local := m_localAddrs m,
                                              pc_fp := m_certFingerprint m, pc_ready := True\<rparr>)\<rparr>)
          else s)"

text \<open>
  The deferred clean-up: the peer leaves its session, and an empty session's code is removed from
  the map, whichever session that entry holds by then.
\<close>

definition handleLeave :: "nat \<Rightarrow> server \<Rightarrow> server" where
  "handleLeave c s =
     (case sv_conns s c of
        None \<Rightarrow> s
      | Some pc \<Rightarrow>
          let s1 = s\<lparr>sv_conns := (sv_conns s)(c \<mapsto> pc\<lparr>pc_done := True\<rparr>)\<rparr>
          in wsClose c
              (case sv_sheap s (pc_sess pc) of
                 None \<Rightarrow> s1
               | Some sess \<Rightarrow>
                   if mget (ss_peers sess) (pc_role pc) = Some c then
                     let peers = mdel (pc_role pc) (ss_peers sess);
                         s2 = s1\<lparr>sv_sheap := (sv_sheap s1)(pc_sess pc \<mapsto> sess\<lparr>ss_peers := peers\<rparr>)\<rparr>
                     in if peers = [] then s2\<lparr>sv_sessions := mdel (pc_code pc) (sv_sessions s2)\<rparr> else s2
                   else s1))"

lemmas rendezvous_defs [go_defs] =
  errorMsg_def publicUDP_def pairedToHost_def pairedToClient_def bumpPairs_def pairPeers_def tryPair_def
  sessionFor_def newPeer_def reflectedMsg_def handleHello_def handleMessage_def handleLeave_def

section \<open>Frames\<close>

lemma pairLocked_frame [simp]:
  "sv_cfg (pairLocked now t p code r s) = sv_cfg s" "sv_sessions (pairLocked now t p code r s) = sv_sessions s"
  "sv_stats (pairLocked now t p code r s) = sv_stats s" "sv_admin (pairLocked now t p code r s) = sv_admin s"
  "sv_sheap (pairLocked now t p code r s) = sv_sheap s" "sv_conns (pairLocked now t p code r s) = sv_conns s"
  "sv_out (pairLocked now t p code r s) = sv_out s" "sv_closed (pairLocked now t p code r s) = sv_closed s"
  "sv_next (pairLocked now t p code r s) = sv_next s" "sv_started (pairLocked now t p code r s) = sv_started s"
  by (simp_all add: pairLocked_def Let_def)

lemma bumpPairs_frame [simp]:
  "sv_cfg (bumpPairs s) = sv_cfg s" "sv_sessions (bumpPairs s) = sv_sessions s"
  "sv_relays (bumpPairs s) = sv_relays s" "sv_admin (bumpPairs s) = sv_admin s"
  "sv_sheap (bumpPairs s) = sv_sheap s" "sv_conns (bumpPairs s) = sv_conns s"
  "sv_out (bumpPairs s) = sv_out s" "sv_closed (bumpPairs s) = sv_closed s"
  "sv_next (bumpPairs s) = sv_next s" "sv_started (bumpPairs s) = sv_started s"
  by (simp_all add: bumpPairs_def)

lemma mget_pairLocked:
  "mget (sv_relays (pairLocked now t p code r s)) t' =
     (if t' = t then
        Some ((case mget (sv_relays s) t of None \<Rightarrow> (newRoute now)\<lparr>rr_seen := now\<rparr> | Some q \<Rightarrow> q)
               \<lparr>rr_peer := p, rr_code := code, rr_role := r\<rparr>)
      else mget (sv_relays s) t')"
  by (auto simp: pairLocked_def Let_def)

lemma mwf_pairLocked [simp]: "mwf (sv_relays s) \<Longrightarrow> mwf (sv_relays (pairLocked now t p code r s))"
  by (simp add: pairLocked_def Let_def)


lemma pairPeers_frame [simp]:
  "sv_cfg (pairPeers now sid sess h host c client s) = sv_cfg s"
  "sv_sessions (pairPeers now sid sess h host c client s) = sv_sessions s"
  "sv_admin (pairPeers now sid sess h host c client s) = sv_admin s"
  "sv_conns (pairPeers now sid sess h host c client s) = sv_conns s"
  "sv_closed (pairPeers now sid sess h host c client s) = sv_closed s"
  "sv_next (pairPeers now sid sess h host c client s) = sv_next s"
  "sv_started (pairPeers now sid sess h host c client s) = sv_started s"
  "sv_sheap (pairPeers now sid sess h host c client s) =
     (sv_sheap s)(sid \<mapsto> sess\<lparr>ss_paired := True, ss_pairedAt := Some now\<rparr>)"
  by (simp_all add: pairPeers_def Let_def)

definition linkRoute :: "time \<Rightarrow> string \<Rightarrow> string \<Rightarrow> role \<Rightarrow> relay_route option \<Rightarrow> relay_route" where
  "linkRoute now p code r q =
     (case q of None \<Rightarrow> (newRoute now)\<lparr>rr_seen := now\<rparr> | Some q \<Rightarrow> q)
       \<lparr>rr_peer := p, rr_code := code, rr_role := r\<rparr>"

lemma linkRoute_sel [simp]:
  "rr_peer (linkRoute now p code r q) = p" "rr_code (linkRoute now p code r q) = code"
  "rr_role (linkRoute now p code r q) = r"
  by (simp_all add: linkRoute_def)

lemma mget_pairPeers:
  assumes "pc_token host \<noteq> pc_token client"
  shows "mget (sv_relays (pairPeers now sid sess h host c client s)) t =
     (if t = pc_token host then
        Some (linkRoute now (pc_token client) (ss_code sess) roleHost (mget (sv_relays s) t))
      else if t = pc_token client then
        Some (linkRoute now (pc_token host) (ss_code sess) roleClient (mget (sv_relays s) t))
      else mget (sv_relays s) t)"
  using assms by (simp add: pairPeers_def Let_def mget_pairLocked linkRoute_def)

lemma mwf_pairPeers [simp]:
  "mwf (sv_relays s) \<Longrightarrow> mwf (sv_relays (pairPeers now sid sess h host c client s))"
  by (simp add: pairPeers_def Let_def)

text \<open>What the two peers are sent, when neither connection has been closed.\<close>

lemma sv_out_pairPeers:
  assumes "h \<noteq> c"
  shows "sv_out (pairPeers now sid sess h host c client s) i =
     (if i = h \<and> \<not> sv_closed s h then sv_out s h @ [pairedToHost host client, msg0 typeGo]
      else if i = c \<and> \<not> sv_closed s c then sv_out s c @ [pairedToClient host client, msg0 typeGo]
      else sv_out s i)"
  using assms by (simp add: pairPeers_def Let_def sv_out_wsSend)

end
