(* ===== verification/Server_Control.thy ===== *)
theory Server_Control
  imports Rendezvous
begin

text \<open>
  What the administrator can do to the rendezvous state: the state changes inside
  \<open>handleDeleteSession\<close>, \<open>handleDeleteRelay\<close> and \<open>handlePruneRelays\<close> of
  \<open>internal/signal/api.go\<close>, which Admin_Api puts behind authorization.
\<close>

text \<open>\<open>delete(s.relays, p.token)\<close> for the peer at address \<open>c\<close>.\<close>

definition dropTokenOf :: "nat \<Rightarrow> server \<Rightarrow> server" where
  "dropTokenOf c s =
     (case sv_conns s c of
        None \<Rightarrow> s
      | Some pc \<Rightarrow> s\<lparr>sv_relays := mdel (pc_token pc) (sv_relays s)\<rparr>)"

definition closePeer :: "nat \<Rightarrow> server \<Rightarrow> server" where
  "closePeer c s = wsClose c (wsSend c (errorMsg ''session closed by the server'') s)"

definition sessionPeers :: "session \<Rightarrow> nat list" where
  "sessionPeers sess = map snd (mentries (ss_peers sess))"

definition closeSession :: "string \<Rightarrow> server \<Rightarrow> server" where
  "closeSession code s =
     (case mget (sv_sessions s) code of
        None \<Rightarrow> s
      | Some sid \<Rightarrow>
          (case sv_sheap s sid of
             None \<Rightarrow> s
           | Some sess \<Rightarrow>
               let closing = sessionPeers sess;
                   s = fold dropTokenOf closing s;
                   s = s\<lparr>sv_sessions := mdel code (sv_sessions s)\<rparr>
               in fold closePeer closing s))"

definition dropRelay :: "string \<Rightarrow> server \<Rightarrow> server" where
  "dropRelay token s =
     (case mget (sv_relays s) token of
        None \<Rightarrow> s
      | Some route \<Rightarrow>
          let relays = mdel token (sv_relays s)
          in s\<lparr>sv_relays := (if rr_peer route \<noteq> [] then mdel (rr_peer route) relays else relays)\<rparr>)"

definition pruneRelays :: "time \<Rightarrow> duration \<Rightarrow> server \<Rightarrow> server \<times> string list" where
  "pruneRelays now idle s =
     (s\<lparr>sv_relays := msweep (\<lambda>tok route. idle < now - rr_seen route) (sv_relays s)\<rparr>,
      sort (map fst (filter (\<lambda>(tok, route). idle < now - rr_seen route) (mentries (sv_relays s)))))"

lemmas control_defs [go_defs] =
  dropTokenOf_def closePeer_def sessionPeers_def closeSession_def dropRelay_def pruneRelays_def

lemma dropTokenOf_frame [simp]:
  "sv_cfg (dropTokenOf c s) = sv_cfg s" "sv_sessions (dropTokenOf c s) = sv_sessions s"
  "sv_stats (dropTokenOf c s) = sv_stats s" "sv_admin (dropTokenOf c s) = sv_admin s"
  "sv_sheap (dropTokenOf c s) = sv_sheap s" "sv_conns (dropTokenOf c s) = sv_conns s"
  "sv_out (dropTokenOf c s) = sv_out s" "sv_closed (dropTokenOf c s) = sv_closed s"
  "sv_next (dropTokenOf c s) = sv_next s" "sv_started (dropTokenOf c s) = sv_started s"
  by (simp_all add: dropTokenOf_def split: option.split)

lemma closePeer_frame [simp]:
  "sv_cfg (closePeer c s) = sv_cfg s" "sv_sessions (closePeer c s) = sv_sessions s"
  "sv_relays (closePeer c s) = sv_relays s" "sv_stats (closePeer c s) = sv_stats s"
  "sv_admin (closePeer c s) = sv_admin s" "sv_sheap (closePeer c s) = sv_sheap s"
  "sv_conns (closePeer c s) = sv_conns s" "sv_next (closePeer c s) = sv_next s"
  "sv_started (closePeer c s) = sv_started s"
  "sv_closed (closePeer c s) i \<longleftrightarrow> i = c \<or> sv_closed s i"
  by (simp_all add: closePeer_def)

lemma fold_dropTokenOf_frame [simp]:
  "sv_cfg (fold dropTokenOf cs s) = sv_cfg s" "sv_sessions (fold dropTokenOf cs s) = sv_sessions s"
  "sv_stats (fold dropTokenOf cs s) = sv_stats s" "sv_admin (fold dropTokenOf cs s) = sv_admin s"
  "sv_sheap (fold dropTokenOf cs s) = sv_sheap s" "sv_conns (fold dropTokenOf cs s) = sv_conns s"
  "sv_out (fold dropTokenOf cs s) = sv_out s" "sv_closed (fold dropTokenOf cs s) = sv_closed s"
  "sv_next (fold dropTokenOf cs s) = sv_next s" "sv_started (fold dropTokenOf cs s) = sv_started s"
  by (induction cs arbitrary: s) simp_all

lemma fold_closePeer_frame [simp]:
  "sv_cfg (fold closePeer cs s) = sv_cfg s" "sv_sessions (fold closePeer cs s) = sv_sessions s"
  "sv_relays (fold closePeer cs s) = sv_relays s" "sv_stats (fold closePeer cs s) = sv_stats s"
  "sv_admin (fold closePeer cs s) = sv_admin s" "sv_sheap (fold closePeer cs s) = sv_sheap s"
  "sv_conns (fold closePeer cs s) = sv_conns s" "sv_next (fold closePeer cs s) = sv_next s"
  "sv_started (fold closePeer cs s) = sv_started s"
  by (induction cs arbitrary: s) simp_all

lemma sv_closed_fold_closePeer: "sv_closed (fold closePeer cs s) i \<longleftrightarrow> i \<in> set cs \<or> sv_closed s i"
  by (induction cs arbitrary: s) auto

lemma sv_out_fold_closePeer:
  "sv_out (fold closePeer cs s) i =
     (if i \<in> set cs \<and> \<not> sv_closed s i
      then sv_out s i @ [errorMsg ''session closed by the server''] else sv_out s i)"
  by (induction cs arbitrary: s) (auto simp: closePeer_def sv_out_wsSend)

lemma mwf_fold_dropTokenOf [simp]: "mwf (sv_relays s) \<Longrightarrow> mwf (sv_relays (fold dropTokenOf cs s))"
  by (induction cs arbitrary: s) (simp_all add: dropTokenOf_def split: option.split)

lemma mget_fold_dropTokenOf:
  "mget (sv_relays (fold dropTokenOf cs s)) t =
     (if \<exists>c \<in> set cs. \<exists>pc. sv_conns s c = Some pc \<and> pc_token pc = t then None
      else mget (sv_relays s) t)"
proof (induction cs arbitrary: s)
  case (Cons c cs)
  show ?case
    by (simp add: Cons) (auto simp: dropTokenOf_def split: option.splits)
qed simp

lemma closeSession_frame [simp]:
  "sv_cfg (closeSession code s) = sv_cfg s" "sv_stats (closeSession code s) = sv_stats s"
  "sv_admin (closeSession code s) = sv_admin s" "sv_sheap (closeSession code s) = sv_sheap s"
  "sv_conns (closeSession code s) = sv_conns s" "sv_next (closeSession code s) = sv_next s"
  "sv_started (closeSession code s) = sv_started s"
  by (simp_all add: closeSession_def Let_def split: option.split)

lemma mget_pruneRelays:
  "mwf (sv_relays s) \<Longrightarrow>
   mget (sv_relays (fst (pruneRelays now idle s))) t =
     (case mget (sv_relays s) t of
        None \<Rightarrow> None | Some r \<Rightarrow> if idle < now - rr_seen r then None else Some r)"
  by (simp add: pruneRelays_def mget_msweep)

lemma set_pruneRelays:
  "mwf (sv_relays s) \<Longrightarrow>
   t \<in> set (snd (pruneRelays now idle s)) \<longleftrightarrow>
     (\<exists>r. mget (sv_relays s) t = Some r \<and> idle < now - rr_seen r)"
  by (force simp: pruneRelays_def gm.entries_get image_iff)

end
