(* ===== verification/Server_System.thy ===== *)
theory Server_System
  imports Server_Control
begin

text \<open>
  The rendezvous server as a transition system. Each step is one critical section of the source
  with the writes that follow it; the label holds what the environment chose: the clock, the bytes
  read, the token \<open>randToken\<close> drew. Tokens are eight random bytes; that two draws differ is the
  guard \<open>freshToken\<close>.
\<close>

datatype srv_event =
    EvHello time nat string string string "message option"
  | EvMessage time nat message
  | EvLeave nat
  | EvDatagram time udp_addr bytes
  | EvGC time
  | EvCloseSession string
  | EvDropRelay string
  | EvPrune time duration

definition freshToken :: "string \<Rightarrow> server \<Rightarrow> bool" where
  "freshToken tok s \<longleftrightarrow>
     length tok = tokenLen \<and> (\<forall>c pc. sv_conns s c = Some pc \<longrightarrow> pc_token pc \<noteq> tok)"

inductive srv_step :: "server \<Rightarrow> srv_event \<Rightarrow> server \<Rightarrow> bool" where
  step_hello:
    "sv_conns s c = None \<Longrightarrow> \<not> sv_closed s c \<Longrightarrow> sv_out s c = [] \<Longrightarrow> freshToken tok s \<Longrightarrow>
     srv_step s (EvHello now c tok remote rh hello) (handleHello now c tok remote rh hello s)"
| step_message:
    "sv_conns s c = Some pc \<Longrightarrow> \<not> pc_done pc \<Longrightarrow>
     srv_step s (EvMessage now c m) (handleMessage now c m s)"
| step_leave:
    "sv_conns s c = Some pc \<Longrightarrow> \<not> pc_done pc \<Longrightarrow> srv_step s (EvLeave c) (handleLeave c s)"
| step_datagram: "srv_step s (EvDatagram now addr d) (fst (serveUDP now addr d s))"
| step_gc: "srv_step s (EvGC now) (gcRelay now s)"
| step_close: "srv_step s (EvCloseSession code) (closeSession code s)"
| step_drop: "srv_step s (EvDropRelay tok) (dropRelay tok s)"
| step_prune: "srv_step s (EvPrune now idle) (fst (pruneRelays now idle s))"

inductive_cases srv_step_cases [consumes 1]: "srv_step s ev t"

definition srv_init :: "server \<Rightarrow> bool" where
  "srv_init s \<longleftrightarrow> (\<exists>now cfg. s = newServer now cfg)"

section \<open>The invariant\<close>

text \<open>Every code in the map leads to a session of that code.\<close>

definition inv_sess :: "server \<Rightarrow> bool" where
  "inv_sess s \<longleftrightarrow> mwf (sv_sessions s) \<and>
     (\<forall>code sid. mget (sv_sessions s) code = Some sid \<longrightarrow>
        (\<exists>ss. sv_sheap s sid = Some ss \<and> ss_code ss = code))"

text \<open>Every peer listed in a session is a connection of that role whose handler holds that session.\<close>

definition inv_heap :: "server \<Rightarrow> bool" where
  "inv_heap s \<longleftrightarrow>
     (\<forall>sid ss. sv_sheap s sid = Some ss \<longrightarrow>
        sid < sv_next s \<and> mwf (ss_peers ss) \<and>
        (\<forall>r c. mget (ss_peers ss) r = Some c \<longrightarrow>
           (\<exists>pc. sv_conns s c = Some pc \<and> pc_role pc = r \<and> pc_sess pc = sid)))"

text \<open>Connections hold one of the two roles, a token of their own, and an existing session.\<close>

definition inv_conn :: "server \<Rightarrow> bool" where
  "inv_conn s \<longleftrightarrow>
     (\<forall>c pc. sv_conns s c = Some pc \<longrightarrow>
        length (pc_token pc) = tokenLen \<and> pc_role pc \<in> {roleHost, roleClient} \<and>
        (\<exists>ss. sv_sheap s (pc_sess pc) = Some ss \<and> ss_code ss = pc_code pc))"

definition inv_token :: "server \<Rightarrow> bool" where
  "inv_token s \<longleftrightarrow>
     (\<forall>c c' pc pc'. sv_conns s c = Some pc \<longrightarrow> sv_conns s c' = Some pc' \<longrightarrow>
        pc_token pc = pc_token pc' \<longrightarrow> c = c')"

text \<open>
  Two tokens are linked when they were issued to the two sides of one session that has been paired.
\<close>

definition linked :: "server \<Rightarrow> string \<Rightarrow> string \<Rightarrow> bool" where
  "linked s t p \<longleftrightarrow>
     (\<exists>c pc c' pc' ss. sv_conns s c = Some pc \<and> sv_conns s c' = Some pc' \<and>
        pc_token pc = t \<and> pc_token pc' = p \<and> pc_sess pc' = pc_sess pc \<and>
        sv_sheap s (pc_sess pc) = Some ss \<and> ss_paired ss \<and>
        ((pc_role pc = roleHost \<and> pc_role pc' = roleClient) \<or>
         (pc_role pc = roleClient \<and> pc_role pc' = roleHost)))"

definition inv_route :: "server \<Rightarrow> bool" where
  "inv_route s \<longleftrightarrow> mwf (sv_relays s) \<and>
     (\<forall>t r. mget (sv_relays s) t = Some r \<longrightarrow>
        length t = tokenLen \<and> (rr_peer r \<noteq> [] \<longrightarrow> linked s t (rr_peer r)))"

text \<open>Routes point at each other.\<close>

definition inv_mutual :: "server \<Rightarrow> bool" where
  "inv_mutual s \<longleftrightarrow>
     (\<forall>t r q. mget (sv_relays s) t = Some r \<longrightarrow> rr_peer r \<noteq> [] \<longrightarrow>
        mget (sv_relays s) (rr_peer r) = Some q \<longrightarrow> rr_peer q \<noteq> [] \<longrightarrow> rr_peer q = t)"

definition srv_inv :: "server \<Rightarrow> bool" where
  "srv_inv s \<longleftrightarrow>
     inv_sess s \<and> inv_heap s \<and> inv_conn s \<and> inv_token s \<and> inv_route s \<and> inv_mutual s"

lemmas inv_defs =
  inv_sess_def inv_heap_def inv_conn_def inv_token_def inv_route_def inv_mutual_def

lemma srv_inv_init: "srv_init s \<Longrightarrow> srv_inv s"
  by (auto simp: srv_init_def newServer_def srv_inv_def inv_defs)

subsection \<open>What never changes about a connection or a paired session\<close>

definition grows :: "server \<Rightarrow> server \<Rightarrow> bool" where
  "grows s s' \<longleftrightarrow>
     (\<forall>c pc. sv_conns s c = Some pc \<longrightarrow>
        (\<exists>pc'. sv_conns s' c = Some pc' \<and> pc_token pc' = pc_token pc \<and> pc_role pc' = pc_role pc \<and>
           pc_sess pc' = pc_sess pc \<and> pc_code pc' = pc_code pc)) \<and>
     (\<forall>sid ss. sv_sheap s sid = Some ss \<longrightarrow>
        (\<exists>ss'. sv_sheap s' sid = Some ss' \<and> ss_code ss' = ss_code ss \<and> (ss_paired ss \<longrightarrow> ss_paired ss')))"

lemma grows_refl: "sv_conns s' = sv_conns s \<Longrightarrow> sv_sheap s' = sv_sheap s \<Longrightarrow> grows s s'"
  by (simp add: grows_def)

lemma linked_grows:
  assumes "grows s s'" "linked s t p"
  shows "linked s' t p"
proof -
  from assms(2) obtain c pc c' pc' ss where l: "sv_conns s c = Some pc" "sv_conns s c' = Some pc'"
    "pc_token pc = t" "pc_token pc' = p" "pc_sess pc' = pc_sess pc"
    "sv_sheap s (pc_sess pc) = Some ss" "ss_paired ss"
    "(pc_role pc = roleHost \<and> pc_role pc' = roleClient) \<or> (pc_role pc = roleClient \<and> pc_role pc' = roleHost)"
    unfolding linked_def by blast
  obtain qc where "sv_conns s' c = Some qc" "pc_token qc = t" "pc_role qc = pc_role pc"
    "pc_sess qc = pc_sess pc"
    using assms(1) l(1,3) unfolding grows_def by blast
  moreover obtain qc' where "sv_conns s' c' = Some qc'" "pc_token qc' = p" "pc_role qc' = pc_role pc'"
    "pc_sess qc' = pc_sess pc'"
    using assms(1) l(2,4) unfolding grows_def by blast
  moreover obtain ss' where "sv_sheap s' (pc_sess pc) = Some ss'" "ss_paired ss'"
    using assms(1) l(6,7) unfolding grows_def by blast
  ultimately show ?thesis
    unfolding linked_def using l(5,8) by metis
qed

text \<open>Routes survive a step that only removes routes and otherwise grows.\<close>

lemma inv_routes_shrink:
  assumes "inv_route s" "inv_mutual s" "grows s s'" "mwf (sv_relays s')"
    and "\<And>t r. mget (sv_relays s') t = Some r \<Longrightarrow> mget (sv_relays s) t = Some r"
  shows "inv_route s' \<and> inv_mutual s'"
  using assms linked_grows [OF assms(3)] unfolding inv_route_def inv_mutual_def by metis

text \<open>The rest of the invariant depends on the sessions and connections only.\<close>

lemma inv_core_cong:
  assumes "sv_sessions s' = sv_sessions s" "sv_sheap s' = sv_sheap s" "sv_conns s' = sv_conns s"
    "sv_next s' = sv_next s"
  shows "inv_sess s' = inv_sess s" "inv_heap s' = inv_heap s" "inv_conn s' = inv_conn s"
    "inv_token s' = inv_token s"
  using assms by (simp_all add: inv_sess_def inv_heap_def inv_conn_def inv_token_def)

subsection \<open>The relay steps\<close>

lemma serveUDP_frame [simp]:
  "sv_cfg (fst (serveUDP now addr d s)) = sv_cfg s"
  "sv_sessions (fst (serveUDP now addr d s)) = sv_sessions s"
  "sv_admin (fst (serveUDP now addr d s)) = sv_admin s"
  "sv_sheap (fst (serveUDP now addr d s)) = sv_sheap s"
  "sv_conns (fst (serveUDP now addr d s)) = sv_conns s"
  "sv_out (fst (serveUDP now addr d s)) = sv_out s"
  "sv_closed (fst (serveUDP now addr d s)) = sv_closed s"
  "sv_next (fst (serveUDP now addr d s)) = sv_next s"
  "sv_started (fst (serveUDP now addr d s)) = sv_started s"
  by (simp_all add: serveUDP_def Let_def split: option.split)

lemma sv_relays_serveUDP:
  "sv_relays (fst (serveUDP now addr d s)) = sv_relays s \<or>
   (\<exists>token payload. length token = tokenLen \<and>
      sv_relays (fst (serveUDP now addr d s)) =
        mput token (routeUpdate now addr payload (mget (sv_relays s) token)) (sv_relays s))"
proof (cases "length (take (64 * 1024) d) < hdrLen \<or> take 4 (take (64 * 1024) d) \<noteq> wireMagic")
  case True
  then show ?thesis by (simp add: serveUDP_def Let_def)
next
  case False
  let ?buf = "take (64 * 1024) d"
  let ?tok = "take tokenLen (drop 4 ?buf)"
  have "length ?tok = tokenLen"
    using False unfolding hdrLen_def tokenLen_def by simp linarith
  moreover have "sv_relays (fst (serveUDP now addr d s)) =
      mput ?tok (routeUpdate now addr (drop hdrLen ?buf) (mget (sv_relays s) ?tok)) (sv_relays s)"
    using False by (simp add: serveUDP_def Let_def split: option.split)
  ultimately show ?thesis by blast
qed

lemma inv_routes_datagram:
  assumes "inv_route s" "inv_mutual s" "sv_conns s' = sv_conns s" "sv_sheap s' = sv_sheap s"
    and tok: "length token = tokenLen"
    and upd: "sv_relays s' = mput token (routeUpdate now addr payload (mget (sv_relays s) token)) (sv_relays s)"
  shows "inv_route s' \<and> inv_mutual s'"
proof -
  have l: "linked s' t p = linked s t p" for t p
    using assms(3,4) by (simp add: linked_def)
  have old: "\<exists>q. mget (sv_relays s) t = Some q \<and> rr_peer q = rr_peer r"
    if "mget (sv_relays s') t = Some r" "rr_peer r \<noteq> []" for t r
    using that by (cases "t = token"; cases "mget (sv_relays s) token") (auto simp: upd)
  have len: "length t = tokenLen" if "mget (sv_relays s') t = Some r" for t r
    using that tok assms(1) by (cases "t = token") (auto simp: upd inv_route_def)
  have lnk: "linked s t (rr_peer r)" if "mget (sv_relays s') t = Some r" "rr_peer r \<noteq> []" for t r
    using old [OF that] that(2) assms(1) unfolding inv_route_def by force
  have "mwf (sv_relays s')"
    using assms(1) by (simp add: upd inv_route_def)
  then have "inv_route s'"
    unfolding inv_route_def l using len lnk by blast
  moreover have "inv_mutual s'"
    unfolding inv_mutual_def
  proof (intro allI impI)
    fix t r q
    assume a: "mget (sv_relays s') t = Some r" "rr_peer r \<noteq> []"
      "mget (sv_relays s') (rr_peer r) = Some q" "rr_peer q \<noteq> []"
    obtain r' q' where "mget (sv_relays s) t = Some r'" "rr_peer r' = rr_peer r"
      "mget (sv_relays s) (rr_peer r) = Some q'" "rr_peer q' = rr_peer q"
      using old [OF a(1,2)] old [OF a(3,4)] by blast
    then show "rr_peer q = t"
      using assms(2) a(2,4) unfolding inv_mutual_def by metis
  qed
  ultimately show ?thesis ..
qed

lemma srv_inv_datagram:
  assumes "srv_inv s"
  shows "srv_inv (fst (serveUDP now addr d s))"
proof -
  let ?s' = "fst (serveUDP now addr d s)"
  have "inv_route ?s' \<and> inv_mutual ?s'"
    using sv_relays_serveUDP [of now addr d s]
  proof
    assume "sv_relays ?s' = sv_relays s"
    then show ?thesis
      using assms by (intro inv_routes_shrink) (auto simp: srv_inv_def inv_route_def grows_refl)
  next
    assume "\<exists>token payload. length token = tokenLen \<and> sv_relays ?s' =
        mput token (routeUpdate now addr payload (mget (sv_relays s) token)) (sv_relays s)"
    then show ?thesis
      using assms by (auto simp: srv_inv_def intro: inv_routes_datagram [THEN conjunct1]
          inv_routes_datagram [THEN conjunct2])
  qed
  then show ?thesis
    using assms by (simp add: srv_inv_def inv_core_cong [of ?s' s])
qed

lemma srv_inv_shrink:
  assumes "srv_inv s" "sv_conns s' = sv_conns s" "sv_sheap s' = sv_sheap s" "sv_next s' = sv_next s"
    and "inv_sess s'" "mwf (sv_relays s')"
    and "\<And>t r. mget (sv_relays s') t = Some r \<Longrightarrow> mget (sv_relays s) t = Some r"
  shows "srv_inv s'"
  using assms inv_routes_shrink [of s s'] grows_refl [of s' s]
  by (auto simp: srv_inv_def inv_heap_def inv_conn_def inv_token_def)

lemma srv_inv_gc: "srv_inv s \<Longrightarrow> srv_inv (gcRelay now s)"
  by (rule srv_inv_shrink [of s])
    (auto simp: srv_inv_def gcRelay_def inv_sess_def inv_route_def mget_msweep split: option.splits if_splits)

lemma srv_inv_prune: "srv_inv s \<Longrightarrow> srv_inv (fst (pruneRelays now idle s))"
  by (rule srv_inv_shrink [of s])
    (auto simp: srv_inv_def pruneRelays_def inv_sess_def inv_route_def mget_msweep split: option.splits if_splits)

lemma srv_inv_drop: "srv_inv s \<Longrightarrow> srv_inv (dropRelay tok s)"
  by (rule srv_inv_shrink [of s])
    (auto simp: srv_inv_def dropRelay_def Let_def inv_sess_def inv_route_def split: option.splits if_splits)

lemma srv_inv_close: "srv_inv s \<Longrightarrow> srv_inv (closeSession code s)"
  by (rule srv_inv_shrink [of s])
    (auto simp: srv_inv_def closeSession_def Let_def inv_sess_def inv_route_def mget_fold_dropTokenOf
      split: option.splits if_splits)

subsection \<open>The signaling steps\<close>

text \<open>A handler may change its connection's addresses, readiness and whether it has returned.\<close>

definition samePeer :: "peer_conn \<Rightarrow> peer_conn \<Rightarrow> bool" where
  "samePeer pc pc' \<longleftrightarrow> pc_token pc' = pc_token pc \<and> pc_role pc' = pc_role pc \<and>
     pc_sess pc' = pc_sess pc \<and> pc_code pc' = pc_code pc"

definition setConn :: "nat \<Rightarrow> peer_conn \<Rightarrow> server \<Rightarrow> server" where
  "setConn c pc s = s\<lparr>sv_conns := (sv_conns s)(c \<mapsto> pc)\<rparr>"

lemma setConn_frame [simp]:
  "sv_sessions (setConn c pc s) = sv_sessions s" "sv_relays (setConn c pc s) = sv_relays s"
  "sv_sheap (setConn c pc s) = sv_sheap s" "sv_next (setConn c pc s) = sv_next s"
  "sv_out (setConn c pc s) = sv_out s" "sv_closed (setConn c pc s) = sv_closed s"
  "sv_conns (setConn c pc s) = (sv_conns s)(c \<mapsto> pc)"
  by (simp_all add: setConn_def)

lemma grows_setConn: "sv_conns s c = Some pc \<Longrightarrow> samePeer pc pc' \<Longrightarrow> grows s (setConn c pc' s)"
  by (simp add: grows_def samePeer_def)

lemma srv_inv_setConn:
  assumes inv: "srv_inv s" and c: "sv_conns s c = Some pc" "samePeer pc pc'"
  shows "srv_inv (setConn c pc' s)"
proof -
  let ?s = "setConn c pc' s"
  have r: "inv_route ?s \<and> inv_mutual ?s"
    using inv by (intro inv_routes_shrink [of s]) (auto simp: srv_inv_def inv_route_def grows_setConn [OF c])
  have bwd: "\<exists>q. sv_conns s i = Some q \<and> samePeer q q'" if "sv_conns ?s i = Some q'" for i q'
    using that c by (auto simp: samePeer_def split: if_splits)
  have fwd: "\<exists>q'. sv_conns ?s i = Some q' \<and> samePeer q q'" if "sv_conns s i = Some q" for i q
    using that c by (auto simp: samePeer_def)
  have "inv_heap ?s"
    unfolding inv_heap_def
  proof (intro allI impI)
    fix sid ss
    assume "sv_sheap ?s sid = Some ss"
    then have h: "sid < sv_next s" "mwf (ss_peers ss)"
      "\<And>r i. mget (ss_peers ss) r = Some i \<Longrightarrow> \<exists>q. sv_conns s i = Some q \<and> pc_role q = r \<and> pc_sess q = sid"
      using inv by (auto simp: srv_inv_def inv_heap_def)
    have "\<exists>q. sv_conns ?s i = Some q \<and> pc_role q = r \<and> pc_sess q = sid"
      if "mget (ss_peers ss) r = Some i" for r i
      using h(3) [OF that] fwd [of i] by (auto simp: samePeer_def)
    then show "sid < sv_next ?s \<and> mwf (ss_peers ss) \<and> (\<forall>r i. mget (ss_peers ss) r = Some i \<longrightarrow>
        (\<exists>q. sv_conns ?s i = Some q \<and> pc_role q = r \<and> pc_sess q = sid))"
      using h(1,2) by simp
  qed
  moreover have "inv_conn ?s"
    unfolding inv_conn_def
  proof (intro allI impI)
    fix i q'
    assume "sv_conns ?s i = Some q'"
    then obtain q where "sv_conns s i = Some q" "samePeer q q'"
      using bwd by blast
    then show "length (pc_token q') = tokenLen \<and> pc_role q' \<in> {roleHost, roleClient} \<and>
        (\<exists>ss. sv_sheap ?s (pc_sess q') = Some ss \<and> ss_code ss = pc_code q')"
      using inv by (auto simp: srv_inv_def inv_conn_def samePeer_def)
  qed
  moreover have "inv_token ?s"
    unfolding inv_token_def
  proof (intro allI impI)
    fix i j q q'
    assume "sv_conns ?s i = Some q" "sv_conns ?s j = Some q'" and e: "pc_token q = pc_token q'"
    then obtain p p' where "sv_conns s i = Some p" "samePeer p q" "sv_conns s j = Some p'" "samePeer p' q'"
      using bwd by blast
    then show "i = j"
      using inv e unfolding srv_inv_def inv_token_def samePeer_def by metis
  qed
  ultimately show ?thesis
    using inv r by (simp add: srv_inv_def inv_sess_def)
qed

text \<open>Rewriting a session in place, its peers being connections that hold it.\<close>

lemma srv_inv_setSess:
  assumes inv: "srv_inv s" and ss: "sv_sheap s sid = Some ss" "ss_code ss' = ss_code ss"
    "ss_paired ss \<longrightarrow> ss_paired ss'"
    and peers: "mwf (ss_peers ss')"
      "\<And>r c. mget (ss_peers ss') r = Some c \<Longrightarrow>
         \<exists>pc. sv_conns s c = Some pc \<and> pc_role pc = r \<and> pc_sess pc = sid"
    and sessions: "mwf m" "\<And>code i. mget m code = Some i \<Longrightarrow> mget (sv_sessions s) code = Some i"
  shows "srv_inv (s\<lparr>sv_sheap := (sv_sheap s)(sid \<mapsto> ss'), sv_sessions := m\<rparr>)" (is "srv_inv ?s")
proof -
  have g: "grows s ?s"
    using ss by (simp add: grows_def)
  have "inv_route ?s \<and> inv_mutual ?s"
    using inv by (intro inv_routes_shrink [OF _ _ g]) (auto simp: srv_inv_def inv_route_def)
  moreover have "inv_sess ?s"
    using inv ss sessions unfolding srv_inv_def inv_sess_def by force
  moreover have "inv_heap ?s"
    using inv peers ss(1) unfolding srv_inv_def inv_heap_def by (simp split: if_split)
  moreover have "inv_conn ?s"
    using inv ss unfolding srv_inv_def inv_conn_def by force
  moreover have "inv_token ?s"
    using inv by (simp add: srv_inv_def inv_token_def)
  ultimately show ?thesis
    by (simp add: srv_inv_def)
qed

lemma srv_inv_wsClose [simp]: "srv_inv (wsClose c s) = srv_inv s"
  by (simp add: srv_inv_def inv_defs linked_def)

lemma srv_inv_wsSend [simp]: "srv_inv (wsSend c m s) = srv_inv s"
  by (simp add: srv_inv_def inv_defs linked_def)

lemma srv_inv_stats [simp]: "srv_inv (s\<lparr>sv_stats := st\<rparr>) = srv_inv s"
  by (simp add: srv_inv_def inv_defs linked_def)

lemma srv_inv_heapD:
  assumes "srv_inv s" "sv_sheap s sid = Some ss"
  shows "sid < sv_next s" "mwf (ss_peers ss)"
    "mget (ss_peers ss) r = Some c \<Longrightarrow> \<exists>pc. sv_conns s c = Some pc \<and> pc_role pc = r \<and> pc_sess pc = sid"
  using assms by (auto simp: srv_inv_def inv_heap_def)

lemma srv_inv_connD:
  assumes "srv_inv s" "sv_conns s c = Some pc"
  shows "length (pc_token pc) = tokenLen" "pc_role pc \<in> {roleHost, roleClient}"
    "\<exists>ss. sv_sheap s (pc_sess pc) = Some ss \<and> ss_code ss = pc_code pc"
  using assms by (auto simp: srv_inv_def inv_conn_def)

lemma srv_inv_leave:
  assumes inv: "srv_inv s"
  shows "srv_inv (handleLeave c s)"
proof (cases "sv_conns s c")
  case None
  then show ?thesis using inv by (simp add: handleLeave_def)
next
  case (Some pc)
  let ?s1 = "setConn c (pc\<lparr>pc_done := True\<rparr>) s"
  have i1: "srv_inv ?s1"
    by (rule srv_inv_setConn [OF inv Some]) (simp add: samePeer_def)
  obtain sess where sess: "sv_sheap s (pc_sess pc) = Some sess"
    using srv_inv_connD(3) [OF inv Some] by blast
  have sess1: "sv_sheap ?s1 (pc_sess pc) = Some sess"
    using sess by simp
  show ?thesis
  proof (cases "mget (ss_peers sess) (pc_role pc) = Some c")
    case False
    then show ?thesis using i1 Some sess by (simp add: handleLeave_def setConn_def Let_def)
  next
    case True
    let ?p = "mdel (pc_role pc) (ss_peers sess)"
    have "srv_inv (?s1\<lparr>sv_sheap := (sv_sheap ?s1)(pc_sess pc \<mapsto> sess\<lparr>ss_peers := ?p\<rparr>), sv_sessions := m\<rparr>)"
      if "m = sv_sessions s \<or> m = mdel (pc_code pc) (sv_sessions s)" for m
    proof (rule srv_inv_setSess [OF i1 sess1])
      show "mwf (ss_peers (sess\<lparr>ss_peers := ?p\<rparr>))"
        using srv_inv_heapD(2) [OF i1 sess1] by simp
      show "\<exists>q. sv_conns ?s1 i = Some q \<and> pc_role q = r \<and> pc_sess q = pc_sess pc"
        if "mget (ss_peers (sess\<lparr>ss_peers := ?p\<rparr>)) r = Some i" for r i
        using that srv_inv_heapD(3) [OF i1 sess1, of r i] by (simp split: if_splits)
      show "mwf m"
        using inv that by (auto simp: srv_inv_def inv_sess_def)
    qed (use that in \<open>auto split: if_splits\<close>)
    from this [of "sv_sessions s"] this [of "mdel (pc_code pc) (sv_sessions s)"] show ?thesis
      using Some sess True by (cases "?p = []") (simp_all add: handleLeave_def setConn_def Let_def)
  qed
qed

text \<open>A token of a session that is not paired is linked to nothing.\<close>

lemma not_linked_unpaired:
  assumes inv: "srv_inv s" and c: "sv_conns s c = Some pc" "sv_sheap s (pc_sess pc) = Some ss" "\<not> ss_paired ss"
  shows "\<not> linked s t (pc_token pc)"
proof
  assume "linked s t (pc_token pc)"
  then obtain d qc d' qc' ss' where l: "sv_conns s d = Some qc" "sv_conns s d' = Some qc'"
    "pc_token qc' = pc_token pc" "pc_sess qc' = pc_sess qc" "sv_sheap s (pc_sess qc) = Some ss'" "ss_paired ss'"
    unfolding linked_def by blast
  have "d' = c"
    using inv l(2,3) c(1) unfolding srv_inv_def inv_token_def by blast
  then show False
    using l c by simp
qed

lemma srv_inv_pairPeers:
  assumes inv: "srv_inv s" and ss: "sv_sheap s sid = Some sess" "\<not> ss_paired sess"
    and peers: "mget (ss_peers sess) roleHost = Some h" "mget (ss_peers sess) roleClient = Some c"
    and conns: "sv_conns s h = Some host" "sv_conns s c = Some client"
  shows "srv_inv (pairPeers now sid sess h host c client s)" (is "srv_inv ?s'")
proof -
  have ro: "pc_role host = roleHost" "pc_sess host = sid" "pc_role client = roleClient" "pc_sess client = sid"
    using srv_inv_heapD(3) [OF inv ss(1) peers(1)] srv_inv_heapD(3) [OF inv ss(1) peers(2)] conns by auto
  have tok: "pc_token host \<noteq> pc_token client"
    using inv conns ro unfolding srv_inv_def inv_token_def by fastforce
  have len: "length (pc_token host) = tokenLen" "length (pc_token client) = tokenLen"
    using srv_inv_connD(1) [OF inv] conns by auto
  let ?s2 = "s\<lparr>sv_sheap := (sv_sheap s)(sid \<mapsto> sess\<lparr>ss_paired := True, ss_pairedAt := Some now\<rparr>),
      sv_sessions := sv_sessions s\<rparr>"
  have "srv_inv ?s2"
    using srv_inv_heapD [OF inv ss(1)] inv
    by (intro srv_inv_setSess [OF inv ss(1)]) (auto simp: srv_inv_def inv_sess_def)
  then have core: "inv_sess ?s'" "inv_heap ?s'" "inv_conn ?s'" "inv_token ?s'"
    using inv_core_cong [of ?s' ?s2] by (auto simp: srv_inv_def)
  have l: "linked ?s' (pc_token host) (pc_token client)" "linked ?s' (pc_token client) (pc_token host)"
    unfolding linked_def using conns ro by fastforce+
  have g: "grows s ?s'"
    using ss by (simp add: grows_def)
  have notl: "\<not> linked s t (pc_token host)" "\<not> linked s t (pc_token client)" for t
    using not_linked_unpaired [OF inv conns(1)] not_linked_unpaired [OF inv conns(2)] ss ro by auto
  have old: "length t = tokenLen \<and> (rr_peer r \<noteq> [] \<longrightarrow> linked s t (rr_peer r))"
    if "mget (sv_relays s) t = Some r" for t r
    using inv that by (simp add: srv_inv_def inv_route_def)
  have "inv_route ?s'"
    unfolding inv_route_def
  proof (intro conjI allI impI)
    show "mwf (sv_relays ?s')"
      using inv by (simp add: srv_inv_def inv_route_def)
    fix t r
    assume "mget (sv_relays ?s') t = Some r"
    then show "length t = tokenLen" "rr_peer r \<noteq> [] \<Longrightarrow> linked ?s' t (rr_peer r)"
      using len l old linked_grows [OF g] by (auto simp: mget_pairPeers [OF tok] split: if_splits)
  qed
  moreover have "inv_mutual ?s'"
    unfolding inv_mutual_def
  proof (intro allI impI)
    fix t r q
    assume a: "mget (sv_relays ?s') t = Some r" "rr_peer r \<noteq> []"
      "mget (sv_relays ?s') (rr_peer r) = Some q" "rr_peer q \<noteq> []"
    consider "t = pc_token host" | "t = pc_token client"
      | "t \<noteq> pc_token host" "t \<noteq> pc_token client" "mget (sv_relays s) t = Some r"
      using a(1) by (auto simp: mget_pairPeers [OF tok] split: if_splits)
    then show "rr_peer q = t"
    proof cases
      case 3
      then have "rr_peer r \<noteq> pc_token host" "rr_peer r \<noteq> pc_token client"
        using old [OF 3(3)] a(2) notl by metis+
      then have "mget (sv_relays s) (rr_peer r) = Some q"
        using a(3) by (simp add: mget_pairPeers [OF tok])
      then show ?thesis
        using inv 3(3) a(2,4) unfolding srv_inv_def inv_mutual_def by blast
    qed (use a tok in \<open>auto simp: mget_pairPeers [OF tok] split: if_splits\<close>)
  qed
  ultimately show ?thesis
    using core by (simp add: srv_inv_def)
qed

lemma srv_inv_tryPair: "srv_inv s \<Longrightarrow> srv_inv (tryPair now sid s)"
  by (cases rule: tryPair_cases [of now sid s]) (simp_all add: srv_inv_pairPeers)

lemma srv_inv_message:
  assumes "srv_inv s"
  shows "srv_inv (handleMessage now c m s)"
proof (cases "sv_conns s c")
  case (Some pc)
  have "srv_inv (setConn c (pc\<lparr>pc_public := m_publicAddr m, pc_local := m_localAddrs m,
      pc_fp := m_certFingerprint m, pc_ready := True\<rparr>) s)"
    by (rule srv_inv_setConn [OF assms Some]) (simp add: samePeer_def)
  then show ?thesis
    using assms Some by (simp add: handleMessage_def setConn_def srv_inv_tryPair)
qed (use assms in \<open>simp add: handleMessage_def\<close>)

subsection \<open>The handshake\<close>

lemma sessionFor_frame:
  assumes "sessionFor now code s = (sid, s1)"
  shows "sv_conns s1 = sv_conns s" "sv_out s1 = sv_out s" "sv_closed s1 = sv_closed s"
    "sv_relays s1 = sv_relays s" "sv_cfg s1 = sv_cfg s" "sv_stats s1 = sv_stats s"
  using assms by (auto simp: sessionFor_def split: option.splits)

lemma next_free: "srv_inv s \<Longrightarrow> sv_sheap s (sv_next s) = None"
  using srv_inv_heapD(1) [of s "sv_next s"] by (cases "sv_sheap s (sv_next s)") auto

lemma srv_inv_sessionFor:
  assumes inv: "srv_inv s" and r: "sessionFor now code s = (sid, s1)"
  shows "srv_inv s1 \<and> mget (sv_sessions s1) code = Some sid \<and> grows s s1 \<and>
    (\<exists>sess. sv_sheap s1 sid = Some sess \<and> ss_code sess = code)"
proof (cases "mget (sv_sessions s) code")
  case (Some i)
  then show ?thesis
    using assms by (auto simp: sessionFor_def srv_inv_def inv_sess_def grows_refl)
next
  case None
  let ?ss = "\<lparr> ss_code = code, ss_peers = [], ss_paired = False, ss_created = now, ss_pairedAt = None \<rparr>"
  have s1: "s1 = s\<lparr>sv_sheap := (sv_sheap s)(sv_next s \<mapsto> ?ss),
      sv_sessions := mput code (sv_next s) (sv_sessions s), sv_next := Suc (sv_next s)\<rparr>"
    and sid: "sid = sv_next s"
    using r None by (auto simp: sessionFor_def)
  note free = next_free [OF inv]
  have old: "sv_sheap s i \<noteq> None \<Longrightarrow> i \<noteq> sv_next s" for i
    using free by auto
  have g: "grows s s1"
    using old by (auto simp: grows_def s1)
  have "inv_route s1 \<and> inv_mutual s1"
    using inv by (intro inv_routes_shrink [OF _ _ g]) (auto simp: srv_inv_def inv_route_def s1)
  moreover have "inv_sess s1"
    using inv old unfolding srv_inv_def inv_sess_def s1 by (auto split: if_splits) force
  moreover have "inv_heap s1"
    using inv unfolding srv_inv_def inv_heap_def s1 by (auto split: if_splits simp: less_Suc_eq)
  moreover have "inv_conn s1"
    using inv old unfolding srv_inv_def inv_conn_def s1 by force
  moreover have "inv_token s1"
    using inv by (simp add: srv_inv_def inv_token_def s1)
  ultimately show ?thesis
    using g by (simp add: srv_inv_def s1 sid)
qed

definition register :: "nat \<Rightarrow> peer_conn \<Rightarrow> session \<Rightarrow> server \<Rightarrow> server" where
  "register c pc sess s =
     s\<lparr>sv_sheap := (sv_sheap s)(pc_sess pc \<mapsto> sess\<lparr>ss_peers := mput (pc_role pc) c (ss_peers sess)\<rparr>),
       sv_conns := (sv_conns s)(c \<mapsto> pc)\<rparr>"

lemma srv_inv_register:
  assumes inv: "srv_inv s" and c: "sv_conns s c = None" and tok: "freshToken (pc_token pc) s"
    and pc: "pc_role pc \<in> {roleHost, roleClient}" "sv_sheap s (pc_sess pc) = Some sess" "ss_code sess = pc_code pc"
  shows "srv_inv (register c pc sess s)" (is "srv_inv ?s")
proof -
  have fresh: "sv_conns s i = Some q \<Longrightarrow> i \<noteq> c \<and> pc_token q \<noteq> pc_token pc" for i q
    using c tok by (auto simp: freshToken_def)
  have g: "grows s ?s"
    using pc(2) fresh by (auto simp: grows_def register_def)
  have conns: "sv_conns ?s i = (if i = c then Some pc else sv_conns s i)" for i
    by (simp add: register_def)
  have "inv_route ?s \<and> inv_mutual ?s"
    using inv by (intro inv_routes_shrink [OF _ _ g]) (auto simp: srv_inv_def inv_route_def register_def)
  moreover have "inv_sess ?s"
    using inv pc(2) unfolding srv_inv_def inv_sess_def register_def by force
  moreover have "inv_heap ?s"
    unfolding inv_heap_def
  proof (intro allI impI)
    fix sid ss
    assume a: "sv_sheap ?s sid = Some ss"
    have "\<exists>ss0. sv_sheap s sid = Some ss0 \<and>
      (\<forall>r i. mget (ss_peers ss) r = Some i \<longrightarrow>
         mget (ss_peers ss0) r = Some i \<or> (i = c \<and> r = pc_role pc \<and> sid = pc_sess pc)) \<and>
      (mwf (ss_peers ss0) \<longrightarrow> mwf (ss_peers ss))"
      using a pc(2) by (cases "sid = pc_sess pc") (auto simp: register_def split: if_splits)
    then obtain ss0 where ss0: "sv_sheap s sid = Some ss0"
      "\<And>r i. mget (ss_peers ss) r = Some i \<Longrightarrow>
         mget (ss_peers ss0) r = Some i \<or> (i = c \<and> r = pc_role pc \<and> sid = pc_sess pc)"
      "mwf (ss_peers ss0) \<Longrightarrow> mwf (ss_peers ss)"
      by blast
    note h = srv_inv_heapD [OF inv ss0(1)]
    have "\<exists>q. sv_conns ?s i = Some q \<and> pc_role q = r \<and> pc_sess q = sid" if "mget (ss_peers ss) r = Some i" for r i
      using ss0(2) [OF that] h(3) [of r i] fresh by (auto simp: conns)
    then show "sid < sv_next ?s \<and> mwf (ss_peers ss) \<and> (\<forall>r i. mget (ss_peers ss) r = Some i \<longrightarrow>
        (\<exists>q. sv_conns ?s i = Some q \<and> pc_role q = r \<and> pc_sess q = sid))"
      using h(1,2) ss0(3) by (simp add: register_def)
  qed
  moreover have "inv_conn ?s"
    unfolding inv_conn_def
  proof (intro allI impI)
    fix i q
    assume q: "sv_conns ?s i = Some q"
    have h: "\<exists>ss. sv_sheap ?s sid = Some ss \<and> ss_code ss = code"
      if "\<exists>ss. sv_sheap s sid = Some ss \<and> ss_code ss = code" for sid code
      using that pc(2) by (cases "sid = pc_sess pc") (simp_all add: register_def)
    show "length (pc_token q) = tokenLen \<and> pc_role q \<in> {roleHost, roleClient} \<and>
        (\<exists>ss. sv_sheap ?s (pc_sess q) = Some ss \<and> ss_code ss = pc_code q)"
    proof (cases "i = c")
      case True
      then have "q = pc"
        using q by (simp add: conns)
      then show ?thesis
        using tok pc h [of "pc_sess pc" "pc_code pc"] unfolding freshToken_def by blast
    next
      case False
      then have "sv_conns s i = Some q"
        using q by (simp add: conns)
      then show ?thesis
        using srv_inv_connD [OF inv, of i q] h by blast
    qed
  qed
  moreover have "inv_token ?s"
    using inv fresh unfolding srv_inv_def inv_token_def conns by (metis option.inject)
  ultimately show ?thesis
    by (simp add: srv_inv_def)
qed

lemma handleHello_cases [consumes 1, case_names rejected registered]:
  assumes inv: "srv_inv s"
  obtains (rejected) e where "handleHello now c tok remote rh hello s = wsClose c (wsSend c (errorMsg e) s)"
  | (registered) m sid sess s1 where "hello = Some m" "m_type m = typeHello" "m_code m \<noteq> []"
      "m_role m \<in> {roleHost, roleClient}"
      "sessionFor now (m_code m) s = (sid, s1)" "sv_sheap s1 sid = Some sess" "ss_code sess = m_code m"
      "mget (ss_peers sess) (m_role m) = None" "mget (sv_sessions s1) (m_code m) = Some sid"
      "handleHello now c tok remote rh hello s =
         wsSend c (reflectedMsg tok (publicUDP (sv_cfg s) rh))
           ((register c (newPeer now tok remote m sid) sess s1)
              \<lparr>sv_stats := (sv_stats s1)\<lparr>st_peersJoined := st_peersJoined (sv_stats s1) + 1\<rparr>\<rparr>)"
proof (cases hello)
  case None
  then show ?thesis
    using rejected [of "''expected hello''"] by (simp add: handleHello_def)
next
  case (Some m)
  obtain sid s1 where r: "sessionFor now (m_code m) s = (sid, s1)"
    by fastforce
  obtain sess where sess: "srv_inv s1" "grows s s1" "sv_sheap s1 sid = Some sess" "ss_code sess = m_code m"
    "mget (sv_sessions s1) (m_code m) = Some sid"
    using srv_inv_sessionFor [OF inv r] by blast
  note f = sessionFor_frame [OF r]
  consider "m_type m \<noteq> typeHello \<or> m_code m = [] \<or> m_role m \<notin> {roleHost, roleClient}"
    | "m_type m = typeHello" "m_code m \<noteq> []" "m_role m \<in> {roleHost, roleClient}" "mget (ss_peers sess) (m_role m) \<noteq> None"
    | "m_type m = typeHello" "m_code m \<noteq> []" "m_role m \<in> {roleHost, roleClient}" "mget (ss_peers sess) (m_role m) = None"
    by blast
  then show ?thesis
  proof cases
    case 1
    then have "\<exists>e. handleHello now c tok remote rh hello s = wsClose c (wsSend c (errorMsg e) s)"
      using Some by (auto simp: handleHello_def)
    then show ?thesis
      using rejected by blast
  next
    case 2
    have "s1 = s"
      using r sess(3) 2(4) by (auto simp: sessionFor_def split: option.splits)
    then have "\<exists>e. handleHello now c tok remote rh hello s = wsClose c (wsSend c (errorMsg e) s)"
      using 2 Some r sess by (auto simp: handleHello_def)
    then show ?thesis
      using rejected by blast
  next
    case 3
    then have "handleHello now c tok remote rh hello s =
         wsSend c (reflectedMsg tok (publicUDP (sv_cfg s) rh))
           ((register c (newPeer now tok remote m sid) sess s1)
              \<lparr>sv_stats := (sv_stats s1)\<lparr>st_peersJoined := st_peersJoined (sv_stats s1) + 1\<rparr>\<rparr>)"
      using Some r sess(3) f(5) by (simp add: handleHello_def register_def newPeer_def insert_iff disj_commute) auto
    then show ?thesis
      using registered [OF Some 3(1-3) r sess(3,4) 3(4) sess(5)] by blast
  qed
qed

lemma srv_inv_hello:
  assumes inv: "srv_inv s" and c: "sv_conns s c = None" and tok: "freshToken tok s"
  shows "srv_inv (handleHello now c tok remote rh hello s)"
  using inv
proof (cases rule: handleHello_cases [where now = now and c = c and tok = tok and remote = remote
      and rh = rh and hello = hello])
  case (registered m sid sess s1)
  have "srv_inv s1"
    using srv_inv_sessionFor [OF inv registered(5)] by blast
  moreover have "freshToken tok s1" "sv_conns s1 c = None"
    using c tok sessionFor_frame [OF registered(5)] by (simp_all add: freshToken_def)
  ultimately have "srv_inv (register c (newPeer now tok remote m sid) sess s1)"
    using registered by (intro srv_inv_register) (simp_all add: newPeer_def)
  then show ?thesis
    by (simp add: registered(10))
qed (simp add: inv)

interpretation srv: invariant_system srv_init srv_step srv_inv
proof
  fix s t :: server and ev :: srv_event
  show "srv_init s \<Longrightarrow> srv_inv s"
    by (rule srv_inv_init)
  assume "srv_inv s" "srv_step s ev t"
  then show "srv_inv t"
    by (auto elim!: srv_step_cases simp: srv_inv_hello srv_inv_message srv_inv_leave srv_inv_datagram
        srv_inv_gc srv_inv_close srv_inv_drop srv_inv_prune)
qed

end
