(* ===== verification/Server_Protocol.thy ===== *)
theory Server_Protocol
  imports Server_System
begin

text \<open>
  What the rendezvous server says on each connection and which connections it can still find: a
  second invariant of the transition system of Server_System, about the order of the messages of
  \<open>handleWS\<close> and \<open>tryPair\<close>, and a third about the map of codes.
\<close>

section \<open>The order of the messages on a connection\<close>

text \<open>A \<open>paired\<close> message meant for this peer: its own relay token, and the other side's role.\<close>

definition pairedFor :: "peer_conn \<Rightarrow> message \<Rightarrow> bool" where
  "pairedFor pc m \<longleftrightarrow> m_type m = typePaired \<and> m_relayToken m = pc_token pc \<and>
     m_peerRole m = (if pc_role pc = roleHost then roleClient else roleHost) \<and>
     (pc_role pc = roleHost \<longrightarrow> m_certFingerprint m = [])"

text \<open>
  First \<open>reflected\<close> with the token; then, if the session was paired with this peer in it,
  \<open>paired\<close> and \<open>go\<close>; then, if an administrator closed the session, one error.
\<close>

definition outOk :: "server \<Rightarrow> nat \<Rightarrow> peer_conn \<Rightarrow> bool" where
  "outOk s c pc \<longleftrightarrow>
     (\<exists>addr body end. addr \<noteq> [] \<and> sv_out s c = reflectedMsg (pc_token pc) addr # body @ end \<and>
        (body = [] \<or>
         ((\<exists>ss. sv_sheap s (pc_sess pc) = Some ss \<and> ss_paired ss) \<and>
          (\<exists>m. pairedFor pc m \<and> body = [m, msg0 typeGo]))) \<and>
        (end = [] \<or> (end = [errorMsg ''session closed by the server''] \<and> sv_closed s c)))"

definition inv_out :: "server \<Rightarrow> bool" where
  "inv_out s \<longleftrightarrow> (\<forall>c pc. sv_conns s c = Some pc \<longrightarrow> outOk s c pc)"

definition pairedMono :: "server \<Rightarrow> server \<Rightarrow> bool" where
  "pairedMono s s' \<longleftrightarrow> (\<forall>sid ss. sv_sheap s sid = Some ss \<longrightarrow> ss_paired ss \<longrightarrow>
     (\<exists>ss'. sv_sheap s' sid = Some ss' \<and> ss_paired ss'))"

lemma pairedMono_grows: "grows s s' \<Longrightarrow> pairedMono s s'"
  unfolding grows_def pairedMono_def by blast

lemma outOk_keep:
  assumes "outOk s c pc" "samePeer pc pc'" "sv_out s' c = sv_out s c"
    "sv_closed s c \<Longrightarrow> sv_closed s' c" "pairedMono s s'"
  shows "outOk s' c pc'"
proof -
  obtain addr body en where o: "addr \<noteq> []" "sv_out s c = reflectedMsg (pc_token pc) addr # body @ en"
    "body = [] \<or> ((\<exists>ss. sv_sheap s (pc_sess pc) = Some ss \<and> ss_paired ss) \<and>
          (\<exists>m. pairedFor pc m \<and> body = [m, msg0 typeGo]))"
    "en = [] \<or> (en = [errorMsg ''session closed by the server''] \<and> sv_closed s c)"
    using assms(1) unfolding outOk_def by blast
  have "(\<exists>ss. sv_sheap s (pc_sess pc) = Some ss \<and> ss_paired ss) \<Longrightarrow>
      (\<exists>ss. sv_sheap s' (pc_sess pc) = Some ss \<and> ss_paired ss)"
    using assms(5) unfolding pairedMono_def by blast
  moreover have "pairedFor pc m \<Longrightarrow> pairedFor pc' m" for m
    using assms(2) by (simp add: pairedFor_def samePeer_def)
  moreover have "pc_token pc' = pc_token pc" "pc_sess pc' = pc_sess pc"
    using assms(2) by (simp_all add: samePeer_def)
  ultimately show ?thesis
    unfolding outOk_def using o assms(3,4) by (intro exI [of _ addr] exI [of _ body] exI [of _ en]) auto
qed

lemma samePeer_refl [simp]: "samePeer pc pc"
  by (simp add: samePeer_def)

lemma inv_out_keep:
  assumes "inv_out s" "sv_out s' = sv_out s" "\<And>c. sv_closed s c \<Longrightarrow> sv_closed s' c" "pairedMono s s'"
    and "\<And>c pc'. sv_conns s' c = Some pc' \<Longrightarrow> \<exists>pc. sv_conns s c = Some pc \<and> samePeer pc pc'"
  shows "inv_out s'"
  unfolding inv_out_def
proof (intro allI impI)
  fix c pc'
  assume "sv_conns s' c = Some pc'"
  then obtain pc where "sv_conns s c = Some pc" "samePeer pc pc'"
    using assms(5) by blast
  then show "outOk s' c pc'"
    using outOk_keep [of s c pc pc' s'] assms(1,2,3,4) unfolding inv_out_def by metis
qed

lemma pairedMono_refl: "sv_sheap s' = sv_sheap s \<Longrightarrow> pairedMono s s'"
  by (simp add: pairedMono_def)

lemma gcRelay_frame [simp]:
  "sv_sessions (gcRelay now s) = sv_sessions s" "sv_sheap (gcRelay now s) = sv_sheap s"
  "sv_conns (gcRelay now s) = sv_conns s" "sv_out (gcRelay now s) = sv_out s"
  "sv_closed (gcRelay now s) = sv_closed s" "sv_next (gcRelay now s) = sv_next s"
  "sv_stats (gcRelay now s) = sv_stats s" "sv_admin (gcRelay now s) = sv_admin s"
  "sv_cfg (gcRelay now s) = sv_cfg s"
  by (simp_all add: gcRelay_def)

lemma dropRelay_frame [simp]:
  "sv_sessions (dropRelay tok s) = sv_sessions s" "sv_sheap (dropRelay tok s) = sv_sheap s"
  "sv_conns (dropRelay tok s) = sv_conns s" "sv_out (dropRelay tok s) = sv_out s"
  "sv_closed (dropRelay tok s) = sv_closed s" "sv_next (dropRelay tok s) = sv_next s"
  "sv_stats (dropRelay tok s) = sv_stats s" "sv_admin (dropRelay tok s) = sv_admin s"
  "sv_cfg (dropRelay tok s) = sv_cfg s"
  by (simp_all add: dropRelay_def Let_def split: option.split)

lemma pruneRelays_frame [simp]:
  "sv_sessions (fst (pruneRelays now idle s)) = sv_sessions s"
  "sv_sheap (fst (pruneRelays now idle s)) = sv_sheap s"
  "sv_conns (fst (pruneRelays now idle s)) = sv_conns s" "sv_out (fst (pruneRelays now idle s)) = sv_out s"
  "sv_closed (fst (pruneRelays now idle s)) = sv_closed s" "sv_next (fst (pruneRelays now idle s)) = sv_next s"
  "sv_stats (fst (pruneRelays now idle s)) = sv_stats s" "sv_admin (fst (pruneRelays now idle s)) = sv_admin s"
  "sv_cfg (fst (pruneRelays now idle s)) = sv_cfg s"
  by (simp_all add: pruneRelays_def)

lemma sv_conns_handleLeave:
  "sv_conns (handleLeave c s) i =
     (if i = c then map_option (pc_done_update (\<lambda>_. True)) (sv_conns s c) else sv_conns s i)"
  by (simp add: handleLeave_def Let_def split: option.split)

lemma handleLeave_out [simp]: "sv_out (handleLeave c s) = sv_out s"
  by (simp add: handleLeave_def Let_def split: option.split)

lemma sv_closed_handleLeave: "sv_closed s i \<Longrightarrow> sv_closed (handleLeave c s) i"
  by (simp add: handleLeave_def Let_def split: option.split)

lemma pairedMono_handleLeave: "pairedMono s (handleLeave c s)"
  by (auto simp: pairedMono_def handleLeave_def Let_def split: option.split)

lemma inv_out_leave: "inv_out s \<Longrightarrow> inv_out (handleLeave c s)"
  by (erule inv_out_keep)
    (auto simp: sv_closed_handleLeave pairedMono_handleLeave sv_conns_handleLeave samePeer_def split: if_splits)

lemma sv_out_closeSession:
  "sv_out (closeSession code s) i = sv_out s i \<or>
   (\<not> sv_closed s i \<and> sv_closed (closeSession code s) i \<and>
    sv_out (closeSession code s) i = sv_out s i @ [errorMsg ''session closed by the server''])"
  by (auto simp: closeSession_def Let_def sv_out_fold_closePeer sv_closed_fold_closePeer split: option.split)

lemma sv_closed_closeSession: "sv_closed s i \<Longrightarrow> sv_closed (closeSession code s) i"
  by (auto simp: closeSession_def Let_def sv_closed_fold_closePeer split: option.split)

lemma inv_out_close:
  assumes "inv_out s"
  shows "inv_out (closeSession code s)" (is "inv_out ?s")
  unfolding inv_out_def
proof (intro allI impI)
  fix c pc
  assume "sv_conns ?s c = Some pc"
  then have ok: "outOk s c pc"
    using assms by (simp add: inv_out_def)
  from sv_out_closeSession [of code s c] show "outOk ?s c pc"
  proof
    assume "sv_out ?s c = sv_out s c"
    then show ?thesis
      using outOk_keep [OF ok, of pc ?s] by (simp add: sv_closed_closeSession pairedMono_refl)
  next
    assume "\<not> sv_closed s c \<and> sv_closed ?s c \<and> sv_out ?s c = sv_out s c @ [errorMsg ''session closed by the server'']"
    moreover from this obtain addr body where "addr \<noteq> []" "sv_out s c = reflectedMsg (pc_token pc) addr # body"
      "body = [] \<or> ((\<exists>ss. sv_sheap s (pc_sess pc) = Some ss \<and> ss_paired ss) \<and>
          (\<exists>m. pairedFor pc m \<and> body = [m, msg0 typeGo]))"
      using ok unfolding outOk_def by force
    ultimately show ?thesis
      unfolding outOk_def
      by (intro exI [of _ addr] exI [of _ body] exI [of _ "[errorMsg ''session closed by the server'']"]) simp
  qed
qed

lemma pairedFor_sent:
  "pc_role host = roleHost \<Longrightarrow> pairedFor host (pairedToHost host client)"
  "pc_role client = roleClient \<Longrightarrow> pairedFor client (pairedToClient host client)"
  by (simp_all add: pairedFor_def pairedToHost_def pairedToClient_def msg0_def)

text \<open>A peer of a session that is not paired has been told nothing but its token.\<close>

lemma outOk_unpaired:
  assumes "outOk s c pc" "sv_sheap s (pc_sess pc) = Some ss" "\<not> ss_paired ss" "\<not> sv_closed s c"
  shows "\<exists>addr. addr \<noteq> [] \<and> sv_out s c = [reflectedMsg (pc_token pc) addr]"
  using assms unfolding outOk_def by auto

lemma outOk_paired:
  assumes "sv_out s c = [reflectedMsg (pc_token pc) addr, m, msg0 typeGo]" "pairedFor pc m" "addr \<noteq> []"
    "sv_sheap s (pc_sess pc) = Some ss" "ss_paired ss"
  shows "outOk s c pc"
  unfolding outOk_def using assms by (intro exI [of _ addr] exI [of _ "[m, msg0 typeGo]"] exI [of _ "[]"]) simp

lemma inv_out_pairPeers:
  assumes inv: "srv_inv s" and out: "inv_out s"
    and ss: "sv_sheap s sid = Some sess" "\<not> ss_paired sess"
    and peers: "mget (ss_peers sess) roleHost = Some h" "mget (ss_peers sess) roleClient = Some c"
    and conns: "sv_conns s h = Some host" "sv_conns s c = Some client"
  shows "inv_out (pairPeers now sid sess h host c client s)" (is "inv_out ?s'")
  unfolding inv_out_def
proof (intro allI impI)
  fix i pc
  assume "sv_conns ?s' i = Some pc"
  then have i: "sv_conns s i = Some pc"
    by simp
  have ro: "pc_role host = roleHost" "pc_sess host = sid" "pc_role client = roleClient" "pc_sess client = sid"
    using srv_inv_heapD(3) [OF inv ss(1) peers(1)] srv_inv_heapD(3) [OF inv ss(1) peers(2)] conns by auto
  have hc: "h \<noteq> c"
    using conns ro by auto
  have ok: "outOk s i pc"
    using out i by (simp add: inv_out_def)
  have mono: "pairedMono s ?s'"
    by (auto simp: pairedMono_def)
  show "outOk ?s' i pc"
  proof (cases "(i = h \<or> i = c) \<and> \<not> sv_closed s i")
    case False
    then have "sv_out ?s' i = sv_out s i"
      using hc by (auto simp: sv_out_pairPeers)
    then show ?thesis
      using outOk_keep [OF ok, of pc ?s'] mono by simp
  next
    case True
    obtain addr where addr: "addr \<noteq> []" "sv_out s i = [reflectedMsg (pc_token pc) addr]"
      using True i conns ro ss outOk_unpaired [OF ok] by auto
    have sess: "sv_sheap ?s' (pc_sess pc) = Some (sess\<lparr>ss_paired := True, ss_pairedAt := Some now\<rparr>)"
      using True i conns ro by auto
    have "\<exists>m. pairedFor pc m \<and> sv_out ?s' i = [reflectedMsg (pc_token pc) addr, m, msg0 typeGo]"
    proof (cases "i = h")
      case True
      then show ?thesis
        using \<open>_ \<and> \<not> sv_closed s i\<close> addr i conns ro(1) hc pairedFor_sent(1) [of host client]
        by (intro exI [of _ "pairedToHost host client"]) (auto simp: sv_out_pairPeers)
    next
      case False
      then show ?thesis
        using \<open>_ \<and> \<not> sv_closed s i\<close> addr(2) i conns ro(3) pairedFor_sent(2) [of client host]
        by (intro exI [of _ "pairedToClient host client"]) (auto simp: sv_out_pairPeers)
    qed
    then obtain m where "pairedFor pc m" "sv_out ?s' i = [reflectedMsg (pc_token pc) addr, m, msg0 typeGo]"
      by blast
    then show ?thesis
      using outOk_paired [OF _ _ addr(1) sess] by simp
  qed
qed

lemma inv_out_message:
  assumes inv: "srv_inv s" and out: "inv_out s"
  shows "inv_out (handleMessage now c m s)"
proof (cases "\<exists>pc. sv_conns s c = Some pc \<and> m_type m = typeReady")
  case False
  then show ?thesis
    using out by (auto simp: handleMessage_def split: option.split)
next
  case True
  then obtain pc where pc: "sv_conns s c = Some pc" "m_type m = typeReady"
    by blast
  let ?pc = "pc\<lparr>pc_public := m_publicAddr m, pc_local := m_localAddrs m,
      pc_fp := m_certFingerprint m, pc_ready := True\<rparr>"
  let ?s1 = "setConn c ?pc s"
  have same: "samePeer pc ?pc"
    by (simp add: samePeer_def)
  have i1: "srv_inv ?s1"
    by (rule srv_inv_setConn [OF inv pc(1) same])
  have o1: "inv_out ?s1"
    using pc(1) by (intro inv_out_keep [OF out]) (auto simp: samePeer_def pairedMono_refl split: if_splits)
  have "inv_out (tryPair now (pc_sess pc) ?s1)"
    using o1 inv_out_pairPeers [OF i1 o1]
    by (cases rule: tryPair_cases [of now "pc_sess pc" ?s1]) auto
  then show ?thesis
    using pc by (simp add: handleMessage_def setConn_def)
qed

lemma publicUDP_ne [simp]: "publicUDP cfg rh \<noteq> []"
  by (simp add: publicUDP_def joinHostPort_def Let_def)

lemma inv_out_hello:
  assumes inv: "srv_inv s" and out: "inv_out s"
    and c: "sv_conns s c = None" "\<not> sv_closed s c" "sv_out s c = []"
  shows "inv_out (handleHello now c tok remote rh hello s)" (is "inv_out ?s")
  using inv
proof (cases rule: handleHello_cases [where now = now and c = c and tok = tok and remote = remote
      and rh = rh and hello = hello])
  case (rejected e)
  show ?thesis
    unfolding inv_out_def
  proof (intro allI impI)
    fix i pc
    assume "sv_conns ?s i = Some pc"
    then have i: "sv_conns s i = Some pc" "i \<noteq> c"
      using rejected c by auto
    then have "outOk s i pc"
      using out by (simp add: inv_out_def)
    then show "outOk ?s i pc"
      by (rule outOk_keep)
        (use i rejected in \<open>auto simp: sv_out_wsSend pairedMono_def\<close>)
  qed
next
  case (registered m sid sess s1)
  note f = sessionFor_frame [OF registered(5)]
  have g: "grows s s1"
    using srv_inv_sessionFor [OF inv registered(5)] by blast
  have "pairedMono s1 ?s"
    using registered(6) unfolding registered(10) by (auto simp: pairedMono_def register_def newPeer_def)
  then have mono: "pairedMono s ?s"
    using pairedMono_grows [OF g] unfolding pairedMono_def by blast
  have conns: "sv_conns ?s = (sv_conns s)(c \<mapsto> newPeer now tok remote m sid)"
    by (simp add: registered(10) register_def f)
  have outs: "sv_out ?s i = (if i = c then [reflectedMsg tok (publicUDP (sv_cfg s) rh)] else sv_out s i)"
    and closed: "sv_closed ?s = sv_closed s" for i
    using c by (simp_all add: registered(10) register_def f sv_out_wsSend)
  show ?thesis
    unfolding inv_out_def
  proof (intro allI impI)
    fix i pc
    assume i: "sv_conns ?s i = Some pc"
    show "outOk ?s i pc"
    proof (cases "i = c")
      case True
      then have "pc_token pc = tok"
        using i by (auto simp: conns newPeer_def)
      then show ?thesis
        using True publicUDP_ne by (auto simp: outOk_def outs intro!: exI [of _ "publicUDP (sv_cfg s) rh"])
    next
      case False
      then have "outOk s i pc"
        using i out by (simp add: conns inv_out_def)
      then show ?thesis
        by (rule outOk_keep) (use False mono in \<open>simp_all add: outs closed\<close>)
    qed
  qed
qed

definition srv_inv_out :: "server \<Rightarrow> bool" where
  "srv_inv_out s \<longleftrightarrow> srv_inv s \<and> inv_out s"

interpretation srv_out: invariant_system srv_init srv_step srv_inv_out
proof
  fix s t :: server and ev :: srv_event
  show "srv_init s \<Longrightarrow> srv_inv_out s"
    by (auto simp: srv_inv_out_def srv_inv_init srv_init_def inv_out_def newServer_def)
  assume a: "srv_inv_out s" "srv_step s ev t"
  then have inv: "srv_inv s" "inv_out s"
    by (simp_all add: srv_inv_out_def)
  have keep: "inv_out s'" if "sv_out s' = sv_out s" "sv_closed s' = sv_closed s" "sv_sheap s' = sv_sheap s"
    "sv_conns s' = sv_conns s" for s'
    using that by (intro inv_out_keep [OF inv(2)]) (auto simp: pairedMono_refl)
  from a(2) have "inv_out t"
    by (cases rule: srv_step_cases)
      (simp_all add: inv inv_out_hello inv_out_message inv_out_leave inv_out_close keep)
  then show "srv_inv_out t"
    using srv.inv_step [OF inv(1) a(2)] by (simp add: srv_inv_out_def)
qed

end
