(* ===== verification/Server_Codes.thy ===== *)
theory Server_Codes
  imports Server_Protocol
begin

text \<open>
  The map of codes. As long as no administrator closes a session, a connection that is being
  served is found under its code, in its role, and no code leads to an empty session: the third
  invariant, of the transition system without \<open>EvCloseSession\<close>.
\<close>

definition isClose :: "srv_event \<Rightarrow> bool" where
  "isClose ev \<longleftrightarrow> (\<exists>code. ev = EvCloseSession code)"

definition srv_step_nc :: "server \<Rightarrow> srv_event \<Rightarrow> server \<Rightarrow> bool" where
  "srv_step_nc s ev t \<longleftrightarrow> srv_step s ev t \<and> \<not> isClose ev"

definition found :: "server \<Rightarrow> nat \<Rightarrow> peer_conn \<Rightarrow> bool" where
  "found s c pc \<longleftrightarrow> mget (sv_sessions s) (pc_code pc) = Some (pc_sess pc) \<and>
     (\<exists>ss. sv_sheap s (pc_sess pc) = Some ss \<and> mget (ss_peers ss) (pc_role pc) = Some c)"

definition inv_found :: "server \<Rightarrow> bool" where
  "inv_found s \<longleftrightarrow> (\<forall>c pc. sv_conns s c = Some pc \<longrightarrow> \<not> pc_done pc \<longrightarrow> found s c pc)"

definition inv_busy :: "server \<Rightarrow> bool" where
  "inv_busy s \<longleftrightarrow>
     (\<forall>code sid ss. mget (sv_sessions s) code = Some sid \<longrightarrow> sv_sheap s sid = Some ss \<longrightarrow> ss_peers ss \<noteq> [])"

definition srv_inv_codes :: "server \<Rightarrow> bool" where
  "srv_inv_codes s \<longleftrightarrow> srv_inv s \<and> inv_found s \<and> inv_busy s"

lemma inv_found_busy_cong:
  assumes "sv_sessions s' = sv_sessions s" "sv_sheap s' = sv_sheap s" "sv_conns s' = sv_conns s"
  shows "inv_found s' = inv_found s" "inv_busy s' = inv_busy s"
  using assms by (simp_all add: inv_found_def found_def inv_busy_def)

text \<open>The same with sessions whose peers did not change.\<close>

lemma inv_codes_same_peers:
  assumes "inv_found s" "inv_busy s" "sv_sessions s' = sv_sessions s"
    and "\<And>sid ss. sv_sheap s sid = Some ss \<Longrightarrow> \<exists>ss'. sv_sheap s' sid = Some ss' \<and> ss_peers ss' = ss_peers ss"
    and "\<And>sid ss'. sv_sheap s' sid = Some ss' \<Longrightarrow> \<exists>ss. sv_sheap s sid = Some ss \<and> ss_peers ss' = ss_peers ss"
    and "\<And>c pc'. sv_conns s' c = Some pc' \<Longrightarrow> \<not> pc_done pc' \<Longrightarrow>
           \<exists>pc. sv_conns s c = Some pc \<and> samePeer pc pc' \<and> \<not> pc_done pc"
  shows "inv_found s' \<and> inv_busy s'"
proof
  show "inv_found s'"
    unfolding inv_found_def
  proof (intro allI impI)
    fix c pc'
    assume "sv_conns s' c = Some pc'" "\<not> pc_done pc'"
    then obtain pc where "sv_conns s c = Some pc" "samePeer pc pc'" "\<not> pc_done pc"
      using assms(6) by blast
    then have "found s c pc" "pc_code pc' = pc_code pc" "pc_sess pc' = pc_sess pc" "pc_role pc' = pc_role pc"
      using assms(1) by (auto simp: inv_found_def samePeer_def)
    then show "found s' c pc'"
      unfolding found_def using assms(3,4) by metis
  qed
  show "inv_busy s'"
    unfolding inv_busy_def using assms(2,3,5) unfolding inv_busy_def by metis
qed

lemma inv_codes_leave:
  assumes inv: "srv_inv s" and f: "inv_found s" and b: "inv_busy s"
    and c: "sv_conns s c = Some pc" "\<not> pc_done pc"
  shows "inv_found (handleLeave c s) \<and> inv_busy (handleLeave c s)" (is "inv_found ?s \<and> inv_busy ?s")
proof -
  obtain ss where ss: "sv_sheap s (pc_sess pc) = Some ss" "mget (ss_peers ss) (pc_role pc) = Some c"
    and code: "mget (sv_sessions s) (pc_code pc) = Some (pc_sess pc)"
    using f c by (auto simp: inv_found_def found_def)
  let ?p = "mdel (pc_role pc) (ss_peers ss)"
  have heap: "sv_sheap ?s = (sv_sheap s)(pc_sess pc \<mapsto> ss\<lparr>ss_peers := ?p\<rparr>)"
    using c ss by (simp add: handleLeave_def Let_def)
  have sessions: "sv_sessions ?s = (if ?p = [] then mdel (pc_code pc) (sv_sessions s) else sv_sessions s)"
    using c ss by (simp add: handleLeave_def Let_def)
  have other: "mget (ss_peers ss) (pc_role q) = Some i \<Longrightarrow> i \<noteq> c \<Longrightarrow> mget ?p (pc_role q) = Some i" for i q
    using ss by auto
  have "inv_found ?s"
    unfolding inv_found_def
  proof (intro allI impI)
    fix i q
    assume "sv_conns ?s i = Some q" "\<not> pc_done q"
    then have i: "i \<noteq> c" "sv_conns s i = Some q"
      by (auto simp: sv_conns_handleLeave c split: if_splits)
    then have fi: "found s i q"
      using f \<open>\<not> pc_done q\<close> by (simp add: inv_found_def)
    show "found ?s i q"
    proof (cases "pc_code q = pc_code pc")
      case True
      then have "pc_sess q = pc_sess pc"
        using fi code by (simp add: found_def)
      then have "mget ?p (pc_role q) = Some i"
        using other [of q i] i fi ss by (auto simp: found_def)
      moreover have "?p \<noteq> []"
      proof
        assume "?p = []"
        then show False
          using \<open>mget ?p (pc_role q) = Some i\<close> by simp
      qed
      ultimately show ?thesis
        using True \<open>pc_sess q = pc_sess pc\<close> code by (simp add: found_def heap sessions)
    next
      case False
      have "pc_sess q \<noteq> pc_sess pc"
        using srv_inv_connD(3) [OF inv i(2)] srv_inv_connD(3) [OF inv c(1)] False by auto
      then show ?thesis
        using fi False by (simp add: found_def heap sessions)
    qed
  qed
  moreover have "inv_busy ?s"
    unfolding inv_busy_def
  proof (intro allI impI)
    fix code' sid ss'
    assume a: "mget (sv_sessions ?s) code' = Some sid" "sv_sheap ?s sid = Some ss'"
    have old: "mget (sv_sessions s) code' = Some sid"
      using a(1) by (auto simp: sessions split: if_splits)
    show "ss_peers ss' \<noteq> []"
    proof (cases "sid = pc_sess pc")
      case True
      have "code' = pc_code pc"
        using inv old code True unfolding srv_inv_def inv_sess_def by (metis option.inject)
      then have "?p \<noteq> []"
        using a(1) by (auto simp: sessions)
      then show ?thesis
        using a(2) True by (auto simp: heap)
    next
      case False
      then show ?thesis
        using a(2) b old by (auto simp: heap inv_busy_def)
    qed
  qed
  ultimately show ?thesis ..
qed

lemma inv_codes_tryPair:
  assumes "inv_found s" "inv_busy s"
  shows "inv_found (tryPair now sid s) \<and> inv_busy (tryPair now sid s)"
proof (cases rule: tryPair_cases [of now sid s])
  case unchanged
  then show ?thesis using assms by simp
next
  case (paired sess h c host client)
  show ?thesis
    unfolding paired(9) using paired(1) by (intro inv_codes_same_peers [OF assms]) (auto split: if_splits)
qed

lemma inv_codes_message:
  assumes "inv_found s" "inv_busy s" and c: "sv_conns s c = Some pc" "\<not> pc_done pc"
  shows "inv_found (handleMessage now c m s) \<and> inv_busy (handleMessage now c m s)"
proof -
  let ?s1 = "setConn c (pc\<lparr>pc_public := m_publicAddr m, pc_local := m_localAddrs m,
      pc_fp := m_certFingerprint m, pc_ready := True\<rparr>) s"
  have "inv_found ?s1 \<and> inv_busy ?s1"
    using c by (intro inv_codes_same_peers [OF assms(1,2)]) (auto simp: samePeer_def split: if_splits)
  then show ?thesis
    using assms inv_codes_tryPair [of ?s1] by (simp add: handleMessage_def setConn_def)
qed

lemma sessionFor_new:
  assumes "sessionFor now code s = (sid, s1)" "srv_inv s"
  shows "\<And>code'. code' \<noteq> code \<Longrightarrow> mget (sv_sessions s1) code' = mget (sv_sessions s) code'"
    and "\<And>i. i \<noteq> sid \<Longrightarrow> sv_sheap s1 i = sv_sheap s i"
    and "mget (sv_sessions s) code = None \<or> (mget (sv_sessions s) code = Some sid \<and> s1 = s)"
  using assms by (auto simp: sessionFor_def split: option.splits)

lemma inv_codes_register:
  assumes inv: "srv_inv s" and f: "inv_found s" and b: "inv_busy s" and c: "sv_conns s c = None"
    and r: "sessionFor now code s = (sid, s1)" "sv_sheap s1 sid = Some sess" "mget (ss_peers sess) (pc_role pc) = None"
    and pc: "pc_code pc = code" "pc_sess pc = sid"
  shows "inv_found (register c pc sess s1) \<and> inv_busy (register c pc sess s1)" (is "inv_found ?s \<and> inv_busy ?s")
proof -
  have s1: "srv_inv s1" "mget (sv_sessions s1) code = Some sid"
    using srv_inv_sessionFor [OF inv r(1)] by auto
  note fr = sessionFor_frame [OF r(1)] and new = sessionFor_new [OF r(1) inv]
  have ne: "mput k v m \<noteq> []" for k v and m :: "(role, nat) gomap"
    by (metis gm.get_put mget_empty option.distinct(1))
  have "inv_found ?s"
    unfolding inv_found_def
  proof (intro allI impI)
    fix i q
    assume q: "sv_conns ?s i = Some q" "\<not> pc_done q"
    show "found ?s i q"
    proof (cases "i = c")
      case True
      then have "q = pc"
        using q by (simp add: register_def)
      then show ?thesis
        using True s1 pc by (simp add: found_def register_def)
    next
      case False
      then have i: "sv_conns s i = Some q"
        using q(1) fr by (simp add: register_def)
      then have fi: "found s i q"
        using f q(2) by (simp add: inv_found_def)
      show ?thesis
      proof (cases "pc_code q = code")
        case True
        then have "s1 = s" "pc_sess q = sid"
          using fi new(3) by (auto simp: found_def)
        moreover have "pc_role q \<noteq> pc_role pc"
          using fi r(2,3) calculation by (auto simp: found_def)
        ultimately show ?thesis
          using fi r(2) pc by (simp add: found_def register_def)
      next
        case False
        then have "pc_sess q \<noteq> sid"
          using inv s1 fi new(1) unfolding found_def srv_inv_def inv_sess_def by (metis option.inject)
        then show ?thesis
          using fi False new(1,2) pc by (simp add: found_def register_def)
      qed
    qed
  qed
  moreover have "inv_busy ?s"
    unfolding inv_busy_def
  proof (intro allI impI)
    fix code' i ss
    assume a: "mget (sv_sessions ?s) code' = Some i" "sv_sheap ?s i = Some ss"
    show "ss_peers ss \<noteq> []"
    proof (cases "i = sid")
      case True
      then have "ss = sess\<lparr>ss_peers := mput (pc_role pc) c (ss_peers sess)\<rparr>"
        using a(2) pc by (simp add: register_def)
      then show ?thesis
        by (simp add: ne)
    next
      case False
      have "code' \<noteq> code"
        using a(1) s1(2) False by (auto simp: register_def)
      then show ?thesis
        using a b False new(1,2) pc by (auto simp: register_def inv_busy_def)
    qed
  qed
  ultimately show ?thesis ..
qed

lemma inv_codes_hello:
  assumes inv: "srv_inv s" and f: "inv_found s" and b: "inv_busy s"
    and c: "sv_conns s c = None"
  shows "inv_found (handleHello now c tok remote rh hello s) \<and>
    inv_busy (handleHello now c tok remote rh hello s)"
  using inv
proof (cases rule: handleHello_cases [where now = now and c = c and tok = tok and remote = remote
      and rh = rh and hello = hello])
  case (rejected e)
  then show ?thesis
    using f b inv_found_busy_cong [of "wsClose c (wsSend c (errorMsg e) s)" s] by simp
next
  case (registered m sid sess s1)
  let ?s2 = "register c (newPeer now tok remote m sid) sess s1"
  let ?s3 = "handleHello now c tok remote rh hello s"
  have "inv_found ?s2 \<and> inv_busy ?s2"
    using registered(8) by (intro inv_codes_register [OF inv f b c registered(5,6)]) (simp_all add: newPeer_def)
  moreover have "sv_sessions ?s3 = sv_sessions ?s2" "sv_sheap ?s3 = sv_sheap ?s2" "sv_conns ?s3 = sv_conns ?s2"
    by (simp_all add: registered(10))
  ultimately show ?thesis
    using inv_found_busy_cong by blast
qed

interpretation srv_codes: invariant_system srv_init srv_step_nc srv_inv_codes
proof
  fix s t :: server and ev :: srv_event
  show "srv_init s \<Longrightarrow> srv_inv_codes s"
    by (auto simp: srv_inv_codes_def srv_inv_init srv_init_def inv_found_def inv_busy_def newServer_def)
  assume a: "srv_inv_codes s" "srv_step_nc s ev t"
  then have inv: "srv_inv s" "inv_found s" "inv_busy s" and st: "srv_step s ev t" "\<not> isClose ev"
    by (simp_all add: srv_inv_codes_def srv_step_nc_def)
  have keep: "inv_found s' \<and> inv_busy s'" if "sv_sessions s' = sv_sessions s" "sv_sheap s' = sv_sheap s"
    "sv_conns s' = sv_conns s" for s'
    using inv_found_busy_cong [OF that] inv by simp
  from st(1) have "inv_found t \<and> inv_busy t"
  proof (cases rule: srv_step.cases)
    case (step_close code)
    then show ?thesis using st(2) by (simp add: isClose_def)
  qed (simp_all add: keep inv_codes_hello [OF inv] inv_codes_message [OF inv(2,3)] inv_codes_leave [OF inv])
  then show "srv_inv_codes t"
    using srv.inv_step [OF inv(1) st(1)] by (simp add: srv_inv_codes_def)
qed

end
