(* ===== verification/Server_Props.thy ===== *)
theory Server_Props
  imports Server_Codes
begin

text \<open>
  The rendezvous server's properties, over every state its steps can reach, and a concrete run of
  the server that the examples below evaluate: a host and a client register on one code, report
  ready, are paired, and exchange datagrams.
\<close>

section \<open>A run\<close>

definition runCfg :: server_config where
  "runCfg = \<lparr> cf_httpAddr = '':8000'', cf_udpAddr = '':8000'', cf_name = [], cf_publicUDP = ''sig:8000'',
     cf_publicURL = [], cf_version = [],
     cf_admin = \<lparr> ac_disabled = False, ac_username = [], ac_passwordHash = [], ac_sessionTTL = 0,
       ac_trustForwardedHeaders = False \<rparr>, cf_saveAdmin = None \<rparr>"

definition helloFrom :: "role \<Rightarrow> message" where
  "helloFrom r = (msg0 typeHello)\<lparr>m_role := r, m_code := ''k''\<rparr>"

definition readyFrom :: "string \<Rightarrow> string \<Rightarrow> message" where
  "readyFrom addr fp = (msg0 typeReady)\<lparr>m_publicAddr := addr, m_certFingerprint := fp\<rparr>"

definition runTok :: "char \<Rightarrow> string" where
  "runTok c = replicate tokenLen c"

definition runAddr :: "nat \<Rightarrow> udp_addr" where
  "runAddr n = \<lparr> ua_ip = [char_of (192::nat), char_of (0::nat), char_of (2::nat), char_of n],
     ua_port = 4000, ua_zone = [] \<rparr>"

definition run0 :: server where
  "run0 = newServer 0 runCfg"
definition run1 :: server where
  "run1 = handleHello 1 0 (runTok (CHR ''a'')) [] [] (Some (helloFrom roleHost)) run0"
definition run2 :: server where
  "run2 = handleHello 2 1 (runTok (CHR ''b'')) [] [] (Some (helloFrom roleClient)) run1"
definition run3 :: server where
  "run3 = handleMessage 3 0 (readyFrom ''192.0.2.1:4000'' ''fp'') run2"
definition run4 :: server where
  "run4 = handleMessage 4 1 (readyFrom ''192.0.2.2:4000'' []) run3"
definition run5 :: server where
  "run5 = fst (serveUDP 5 (runAddr 1) (frame (runTok (CHR ''a'')) []) run4)"

lemmas run_defs =
  runCfg_def helloFrom_def readyFrom_def runTok_def runAddr_def
  run0_def run1_def run2_def run3_def run4_def run5_def

lemma reach_run1: "reach srv_init srv_step run1"
proof -
  have "reach srv_init srv_step run0"
    by (rule reach_init) (auto simp: srv_init_def run0_def)
  moreover have "srv_step run0 (EvHello 1 0 (runTok (CHR ''a'')) [] [] (Some (helloFrom roleHost))) run1"
    unfolding run1_def by (rule step_hello) (simp_all add: freshToken_def run_defs go_defs)
  ultimately show ?thesis
    by (rule reach_step)
qed

lemma reach_run2: "reach srv_init srv_step run2"
proof -
  have "srv_step run1 (EvHello 2 1 (runTok (CHR ''b'')) [] [] (Some (helloFrom roleClient))) run2"
    unfolding run2_def by (rule step_hello) (auto simp: freshToken_def run_defs go_defs)
  with reach_run1 show ?thesis
    by (rule reach_step)
qed

lemma reach_run3: "reach srv_init srv_step run3"
proof -
  have "srv_step run2 (EvMessage 3 0 (readyFrom ''192.0.2.1:4000'' ''fp'')) run3"
    unfolding run3_def by (rule step_message) (auto simp: run_defs go_defs)
  with reach_run2 show ?thesis
    by (rule reach_step)
qed

lemma reach_run4: "reach srv_init srv_step run4"
proof -
  have "srv_step run3 (EvMessage 4 1 (readyFrom ''192.0.2.2:4000'' [])) run4"
    unfolding run4_def by (rule step_message) (auto simp: run_defs go_defs)
  with reach_run3 show ?thesis
    by (rule reach_step)
qed

lemma reach_run5: "reach srv_init srv_step run5"
proof -
  have "srv_step run4 (EvDatagram 5 (runAddr 1) (frame (runTok (CHR ''a'')) [])) run5"
    unfolding run5_def by (rule step_datagram)
  with reach_run4 show ?thesis
    by (rule reach_step)
qed

section \<open>The shape of the state\<close>

lemma at_most_two_peers:
  assumes inv: "srv_inv s" and h: "sv_sheap s sid = Some ss"
  shows "length (ss_peers ss) \<le> 2"
proof -
  have "set (map fst (ss_peers ss)) \<subseteq> {roleHost, roleClient}"
  proof
    fix r
    assume "r \<in> set (map fst (ss_peers ss))"
    then obtain c where "mget (ss_peers ss) r = Some c"
      by (auto simp: mget_def dest: weak_map_of_SomeI)
    then show "r \<in> {roleHost, roleClient}"
      using srv_inv_heapD(3) [OF inv h] srv_inv_connD(2) [OF inv] by blast
  qed
  then have "card (set (map fst (ss_peers ss))) \<le> card {roleHost, roleClient}"
    by (intro card_mono) simp_all
  moreover have "card (set (map fst (ss_peers ss))) = length (ss_peers ss)"
    using distinct_card [of "map fst (ss_peers ss)"] srv_inv_heapD(2) [OF inv h] by (simp add: mwf_def)
  ultimately show ?thesis
    by simp
qed

text \<open>
  C32: The server's maps and pointers fit together. In every reachable state a code leads to an existing
  session of that code; a session lists at most two peers, each a connection of the role it is listed
  under whose handler holds that session; a connection has one of the two roles, a token of sixteen bytes
  no other connection has, and a session of the code it joined with; and a route is kept under sixteen
  bytes.
\<close>

theorem server_well_formed:
  assumes "reach srv_init srv_step s"
  shows "(\<forall>code sid. mget (sv_sessions s) code = Some sid \<longrightarrow>
            (\<exists>ss. sv_sheap s sid = Some ss \<and> ss_code ss = code)) \<and>
    (\<forall>sid ss. sv_sheap s sid = Some ss \<longrightarrow> length (ss_peers ss) \<le> 2 \<and>
       (\<forall>r c. mget (ss_peers ss) r = Some c \<longrightarrow>
          (\<exists>pc. sv_conns s c = Some pc \<and> pc_role pc = r \<and> pc_sess pc = sid))) \<and>
    (\<forall>c pc. sv_conns s c = Some pc \<longrightarrow>
       length (pc_token pc) = 16 \<and> pc_role pc \<in> {roleHost, roleClient} \<and>
       (\<exists>ss. sv_sheap s (pc_sess pc) = Some ss \<and> ss_code ss = pc_code pc) \<and>
       (\<forall>c' pc'. sv_conns s c' = Some pc' \<longrightarrow> pc_token pc' = pc_token pc \<longrightarrow> c' = c)) \<and>
    (\<forall>t r. mget (sv_relays s) t = Some r \<longrightarrow> length t = 16)"
proof -
  have inv: "srv_inv s"
    by (rule srv.reach_inv [OF assms])
  have "\<forall>code sid. mget (sv_sessions s) code = Some sid \<longrightarrow> (\<exists>ss. sv_sheap s sid = Some ss \<and> ss_code ss = code)"
    using inv by (simp add: srv_inv_def inv_sess_def)
  moreover have "\<forall>sid ss. sv_sheap s sid = Some ss \<longrightarrow> length (ss_peers ss) \<le> 2 \<and>
      (\<forall>r c. mget (ss_peers ss) r = Some c \<longrightarrow> (\<exists>pc. sv_conns s c = Some pc \<and> pc_role pc = r \<and> pc_sess pc = sid))"
    using at_most_two_peers [OF inv] srv_inv_heapD(3) [OF inv] by blast
  moreover have "c' = c" if "sv_conns s c = Some pc" "sv_conns s c' = Some pc'" "pc_token pc' = pc_token pc" for c c' pc pc'
    using inv that unfolding srv_inv_def inv_token_def by blast
  moreover have "length (pc_token pc) = 16 \<and> pc_role pc \<in> {roleHost, roleClient} \<and>
      (\<exists>ss. sv_sheap s (pc_sess pc) = Some ss \<and> ss_code ss = pc_code pc)" if "sv_conns s c = Some pc" for c pc
    using srv_inv_connD [OF inv that] by (simp add: tokenLen_def)
  moreover have "\<forall>t r. mget (sv_relays s) t = Some r \<longrightarrow> length t = 16"
    using inv by (auto simp: srv_inv_def inv_route_def tokenLen_def)
  ultimately show ?thesis
    by blast
qed

theorem server_well_formed_witness:
  "mget (sv_sessions run2) ''k'' = Some 0 \<and> (\<exists>ss. sv_sheap run2 0 = Some ss \<and> ss_code ss = ''k'')"
proof -
  have "mget (sv_sessions run2) ''k'' = Some 0"
    by (simp add: run_defs go_defs)
  moreover note server_well_formed [OF reach_run2]
  ultimately show ?thesis
    by blast
qed

section \<open>The relay\<close>

lemma linked_neq:
  assumes "srv_inv s" "linked s t p"
  shows "t \<noteq> p"
  using assms unfolding linked_def srv_inv_def inv_token_def by (metis option.inject roles_neq(1))

lemma linked_length:
  assumes "srv_inv s" "linked s t p"
  shows "length t = tokenLen" "length p = tokenLen"
  using assms srv_inv_connD(1) [OF assms(1)] unfolding linked_def by metis+

lemma serveUDP_out:
  assumes inv: "srv_inv s" and o: "(dst, out) \<in> set (snd (serveUDP now addr d s))"
  shows "(dst = addr \<and> out = magicAddr @ udpString addr) \<or>
    (\<exists>token payload peer route. out = frame token payload \<and> payload \<noteq> [] \<and> out = take (64 * 1024) d \<and>
       linked s token peer \<and> mget (sv_relays s) peer = Some route \<and> rr_addr route = Some dst)"
proof -
  let ?buf = "take (64 * 1024) d"
  let ?tok = "take tokenLen (drop 4 ?buf)"
  let ?pl = "drop hdrLen ?buf"
  let ?r = "routeUpdate now addr ?pl (mget (sv_relays s) ?tok)"
  have ok: "\<not> length ?buf < hdrLen" "take 4 ?buf = wireMagic"
    using o by (auto simp: serveUDP_def Let_def split: if_splits)
  have len: "length ?tok = tokenLen"
    using ok unfolding hdrLen_def tokenLen_def by simp
  show ?thesis
  proof (cases "?pl = []")
    case True
    then show ?thesis using o ok by (simp add: serveUDP_def Let_def)
  next
    case False
    obtain pa where pa: "peerAddrOf (mput ?tok ?r (sv_relays s)) ?r = Some pa" "dst = pa"
      "out = wireMagic @ ?tok @ ?pl"
      using o ok False by (auto simp: serveUDP_def Let_def split: option.splits)
    then obtain p where p: "mget (mput ?tok ?r (sv_relays s)) (rr_peer ?r) = Some p" "rr_addr p = Some dst"
      by (auto simp: peerAddrOf_def split: option.splits)
    have ne: "rr_peer ?r \<noteq> []"
    proof
      assume "rr_peer ?r = []"
      then have "mget (sv_relays s) [] = Some p \<or> ?tok = []"
        using p(1) by (simp split: if_splits)
      then show False
        using inv len unfolding srv_inv_def inv_route_def tokenLen_def by force
    qed
    then obtain r0 where r0: "mget (sv_relays s) ?tok = Some r0" "rr_peer r0 = rr_peer ?r"
      by (cases "mget (sv_relays s) ?tok") simp_all
    then have l: "linked s ?tok (rr_peer ?r)"
      using inv ne unfolding srv_inv_def inv_route_def by metis
    then have "?tok \<noteq> rr_peer ?r"
      by (rule linked_neq [OF inv])
    then have "mget (sv_relays s) (rr_peer ?r) = Some p"
      using p(1) by simp
    moreover have "wireMagic @ ?tok @ ?pl = ?buf"
      using ok(2) append_take_drop_id [of 4 ?buf] append_take_drop_id [of tokenLen "drop 4 ?buf"]
      by (simp add: hdrLen_def add.commute del: append_take_drop_id)
    ultimately show ?thesis
      using pa p False l unfolding frame_def by metis
  qed
qed

text \<open>
  C1: Relay isolation. Whatever datagram reaches a server in a reachable state, each datagram it
  sends back is either the reflection of the sender's own address, to the sender, or the very
  datagram received (within the 64 KiB read buffer), forwarded to the last known address of a token
  that was issued to the other side of the same paired session. No token can make the server send
  anywhere else.
\<close>

theorem relay_isolation:
  assumes "reach srv_init srv_step s" "(dst, out) \<in> set (snd (serveUDP now addr d s))"
  shows "(dst = addr \<and> out = magicAddr @ udpString addr) \<or>
    (\<exists>token payload peer route. out = frame token payload \<and> payload \<noteq> [] \<and> out = take (64 * 1024) d \<and>
       linked s token peer \<and> mget (sv_relays s) peer = Some route \<and> rr_addr route = Some dst)"
  by (rule serveUDP_out [OF srv.reach_inv [OF assms(1)] assms(2)])

lemma run4_relays:
  "mget (sv_relays run4) (runTok (CHR ''a'')) =
     Some (linkRoute 4 (runTok (CHR ''b'')) ''k'' roleHost None)"
  "mget (sv_relays run4) (runTok (CHR ''b'')) =
     Some (linkRoute 4 (runTok (CHR ''a'')) ''k'' roleClient None)"
  by (simp_all add: run_defs go_defs linkRoute_def)

lemma runTok_simps [simp]: "length (runTok c) = tokenLen" "runTok c = runTok c' \<longleftrightarrow> c = c'"
  by (simp_all add: runTok_def tokenLen_def)

lemma run5_forwards:
  "snd (serveUDP 6 (runAddr 2) (frame (runTok (CHR ''b'')) ''hi'') run5) =
     [(runAddr 1, frame (runTok (CHR ''b'')) ''hi'')]"
proof -
  have r: "sv_relays run5 = mput (runTok (CHR ''a'')) (routeUpdate 5 (runAddr 1) []
      (Some (linkRoute 4 (runTok (CHR ''b'')) ''k'' roleHost None))) (sv_relays run4)"
    by (simp add: run5_def serveUDP_reflect run4_relays)
  have "peerAddrOf (mput (runTok (CHR ''b'')) (routeUpdate 6 (runAddr 2) ''hi''
      (mget (sv_relays run5) (runTok (CHR ''b'')))) (sv_relays run5))
      (routeUpdate 6 (runAddr 2) ''hi'' (mget (sv_relays run5) (runTok (CHR ''b'')))) = Some (runAddr 1)"
    by (simp add: peerAddrOf_def r run4_relays)
  then show ?thesis
    by (simp add: serveUDP_data hdrLen_def tokenLen_def)
qed

theorem relay_isolation_witness:
  "\<exists>token payload peer route. frame (runTok (CHR ''b'')) ''hi'' = frame token payload \<and> payload \<noteq> [] \<and>
     linked run5 token peer \<and> mget (sv_relays run5) peer = Some route \<and> rr_addr route = Some (runAddr 1)"
proof -
  have "(runAddr 1, frame (runTok (CHR ''b'')) ''hi'') \<in>
      set (snd (serveUDP 6 (runAddr 2) (frame (runTok (CHR ''b'')) ''hi'') run5))"
    by (simp add: run5_forwards)
  moreover have "runAddr 1 \<noteq> runAddr 2"
    by (simp add: runAddr_def)
  ultimately show ?thesis
    using relay_isolation [OF reach_run5, of "runAddr 1" "frame (runTok (CHR ''b'')) ''hi''"] by blast
qed

text \<open>
  C11: Two routes of a reachable server never disagree: if the route of one token points at a second
  one, and the second's route points anywhere, it points back. Both are sixteen bytes and were issued
  to the two sides of one paired session.
\<close>

theorem routes_mutual:
  assumes "reach srv_init srv_step s" "mget (sv_relays s) t = Some r" "rr_peer r \<noteq> []"
  shows "linked s t (rr_peer r) \<and> length t = tokenLen \<and> t \<noteq> rr_peer r \<and>
    (case mget (sv_relays s) (rr_peer r) of None \<Rightarrow> True | Some q \<Rightarrow> rr_peer q = [] \<or> rr_peer q = t)"
proof -
  have inv: "srv_inv s"
    by (rule srv.reach_inv [OF assms(1)])
  then have "linked s t (rr_peer r)" "length t = tokenLen"
    using assms(2,3) by (auto simp: srv_inv_def inv_route_def)
  moreover have "t \<noteq> rr_peer r"
    by (rule linked_neq [OF inv calculation(1)])
  moreover have "rr_peer q = [] \<or> rr_peer q = t" if "mget (sv_relays s) (rr_peer r) = Some q" for q
    using inv assms(2,3) that unfolding srv_inv_def inv_mutual_def by blast
  ultimately show ?thesis
    by (simp split: option.split)
qed

theorem routes_mutual_witness:
  "linked run4 (runTok (CHR ''a'')) (runTok (CHR ''b''))"
proof -
  have "\<exists>r. mget (sv_relays run4) (runTok (CHR ''a'')) = Some r \<and> rr_peer r = runTok (CHR ''b'')"
    by (simp add: run_defs go_defs)
  then obtain r where "mget (sv_relays run4) (runTok (CHR ''a'')) = Some r" "rr_peer r = runTok (CHR ''b'')"
    by blast
  with routes_mutual [OF reach_run4 this(1)] show ?thesis
    by (simp add: runTok_def tokenLen_def)
qed

definition udpBalanced :: "server_stats \<Rightarrow> bool" where
  "udpBalanced st \<longleftrightarrow>
     st_udpPackets st = st_udpInvalid st + st_reflections st + st_relayedPkts st + st_droppedPkts st"

definition srv_balanced :: "server \<Rightarrow> bool" where
  "srv_balanced s \<longleftrightarrow> udpBalanced (sv_stats s)"

lemma balanced_serveUDP:
  "udpBalanced (sv_stats s) \<Longrightarrow> udpBalanced (sv_stats (fst (serveUDP now addr d s)))"
  by (simp add: serveUDP_def Let_def udpBalanced_def split: option.split)

lemma balanced_tryPair: "udpBalanced (sv_stats s) \<Longrightarrow> udpBalanced (sv_stats (tryPair now sid s))"
  by (cases rule: tryPair_cases [of now sid s]) (simp_all add: pairPeers_def Let_def bumpPairs_def udpBalanced_def)

lemma balanced_hello:
  "udpBalanced (sv_stats s) \<Longrightarrow> udpBalanced (sv_stats (handleHello now c tok remote rh hello s))"
  by (simp add: handleHello_def sessionFor_def udpBalanced_def split: option.split)

interpretation srv_balance: invariant_system srv_init srv_step srv_balanced
proof
  fix s t :: server and ev :: srv_event
  show "srv_init s \<Longrightarrow> srv_balanced s"
    by (auto simp: srv_init_def newServer_def srv_balanced_def udpBalanced_def stats0_def)
  assume a: "srv_balanced s" "srv_step s ev t"
  from a(2,1) show "srv_balanced t"
    unfolding srv_balanced_def
  proof (cases rule: srv_step.cases)
    case (step_message c pc now m)
    then show "udpBalanced (sv_stats t)"
      using a(1) by (simp add: handleMessage_def srv_balanced_def balanced_tryPair)
  next
    case (step_leave c pc)
    then show "udpBalanced (sv_stats t)"
      using a(1) by (simp add: handleLeave_def Let_def srv_balanced_def split: option.split)
  qed (simp_all add: balanced_hello balanced_serveUDP)
qed

text \<open>
  The UDP counters of the status page add up in every reachable state: each datagram read is
  counted exactly once more, as invalid, reflected, relayed or dropped (64-bit counters that wrap).
\<close>

lemma udp_counters_balance:
  assumes "reach srv_init srv_step s"
  shows "st_udpPackets (sv_stats s) =
    st_udpInvalid (sv_stats s) + st_reflections (sv_stats s) + st_relayedPkts (sv_stats s) +
    st_droppedPkts (sv_stats s)"
  using srv_balance.reach_inv [OF assms] by (simp add: srv_balanced_def udpBalanced_def)

lemma udp_counters_balance_witness:
  "st_udpPackets (sv_stats run5) = 1 \<and>
   st_udpInvalid (sv_stats run5) + st_reflections (sv_stats run5) + st_relayedPkts (sv_stats run5) +
     st_droppedPkts (sv_stats run5) = 1"
proof -
  have "st_udpPackets (sv_stats run5) = 1"
    by (simp add: run5_def serveUDP_reflect udpSeen_def) (simp add: run_defs go_defs)
  then show ?thesis
    using udp_counters_balance [OF reach_run5] by simp
qed

section \<open>Signaling\<close>



text \<open>
  C30: As long as no administrator closes a session, every connection being served is found under the
  code it named, in its role, in the session its handler holds, and every code in the map leads to a
  session with at least one peer: sessions neither get lost nor leak.
\<close>

theorem served_peers_found:
  assumes "reach srv_init srv_step_nc s"
  shows "(\<forall>c pc. sv_conns s c = Some pc \<and> \<not> pc_done pc \<longrightarrow>
      mget (sv_sessions s) (pc_code pc) = Some (pc_sess pc) \<and>
      (\<exists>ss. sv_sheap s (pc_sess pc) = Some ss \<and> ss_code ss = pc_code pc \<and>
         mget (ss_peers ss) (pc_role pc) = Some c)) \<and>
    (\<forall>code sid. mget (sv_sessions s) code = Some sid \<longrightarrow>
      (\<exists>ss. sv_sheap s sid = Some ss \<and> ss_code ss = code \<and> ss_peers ss \<noteq> []))"
proof -
  have inv: "srv_inv s" "inv_found s" "inv_busy s"
    using srv_codes.reach_inv [OF assms] by (simp_all add: srv_inv_codes_def)
  have "mget (sv_sessions s) (pc_code pc) = Some (pc_sess pc) \<and>
      (\<exists>ss. sv_sheap s (pc_sess pc) = Some ss \<and> ss_code ss = pc_code pc \<and> mget (ss_peers ss) (pc_role pc) = Some c)"
    if "sv_conns s c = Some pc" "\<not> pc_done pc" for c pc
    using inv(2) that srv_inv_connD(3) [OF inv(1) that(1)] by (fastforce simp: inv_found_def found_def)
  moreover have "\<exists>ss. sv_sheap s sid = Some ss \<and> ss_code ss = code \<and> ss_peers ss \<noteq> []"
    if m: "mget (sv_sessions s) code = Some sid" for code sid
  proof -
    obtain ss where "sv_sheap s sid = Some ss" "ss_code ss = code"
      using inv(1) m by (auto simp: srv_inv_def inv_sess_def)
    then show ?thesis
      using inv(3) m unfolding inv_busy_def by blast
  qed
  ultimately show ?thesis
    by blast
qed

lemma reach_nc_run1: "reach srv_init srv_step_nc run1"
proof -
  have "reach srv_init srv_step_nc run0"
    by (rule reach_init) (auto simp: srv_init_def run0_def)
  moreover have "srv_step_nc run0 (EvHello 1 0 (runTok (CHR ''a'')) [] [] (Some (helloFrom roleHost))) run1"
    unfolding srv_step_nc_def run1_def isClose_def
    by (intro conjI step_hello) (simp_all add: freshToken_def run_defs go_defs)
  ultimately show ?thesis
    by (rule reach_step)
qed

theorem served_peers_found_witness:
  "\<exists>sid ss. mget (sv_sessions run1) ''k'' = Some sid \<and> sv_sheap run1 sid = Some ss \<and> ss_peers ss \<noteq> []"
proof -
  have "mget (sv_sessions run1) ''k'' = Some 0"
    by (simp add: run_defs go_defs)
  then show ?thesis
    using served_peers_found [OF reach_nc_run1] by blast
qed

definition withReady :: "message \<Rightarrow> peer_conn \<Rightarrow> peer_conn" where
  "withReady m pc = pc\<lparr>pc_public := m_publicAddr m, pc_local := m_localAddrs m,
     pc_fp := m_certFingerprint m, pc_ready := True\<rparr>"

lemma handleMessage_ready:
  "sv_conns s c = Some pc \<Longrightarrow> m_type m = typeReady \<Longrightarrow>
   handleMessage now c m s = tryPair now (pc_sess pc) (setConn c (withReady m pc) s)"
  by (simp add: handleMessage_def setConn_def withReady_def)

lemma tryPair_pairs:
  assumes "sv_sheap s sid = Some sess" "\<not> ss_paired sess"
    "mget (ss_peers sess) roleHost = Some h" "mget (ss_peers sess) roleClient = Some c"
    "sv_conns s h = Some host" "sv_conns s c = Some client" "pc_ready host" "pc_ready client"
  shows "tryPair now sid s = pairPeers now sid sess h host c client s"
  using assms by (simp add: tryPair_def)

text \<open>
  C16: Pairing. In a reachable state with an unpaired session whose host and client are both
  connected, one of them ready, the \<open>ready\<close> of the other pairs the session: each side is sent the
  other's public and local addresses and its own relay token, only the client is sent the host's
  certificate fingerprint, both are then told \<open>go\<close>, the two tokens are routed to each other, and no
  other connection hears anything.
\<close>

theorem ready_pairs_session:
  assumes "reach srv_init srv_step s"
    and sess: "sv_sheap s sid = Some sess" "\<not> ss_paired sess"
    and peers: "mget (ss_peers sess) roleHost = Some h" "mget (ss_peers sess) roleClient = Some c"
    and conns: "sv_conns s h = Some host" "sv_conns s c = Some client"
    and opn: "\<not> sv_closed s h" "\<not> sv_closed s c"
    and m: "m_type m = typeReady"
    and last: "(i = h \<and> pc_ready client \<and> host' = withReady m host \<and> client' = client) \<or>
      (i = c \<and> pc_ready host \<and> host' = host \<and> client' = withReady m client)"
    and s': "s' = handleMessage now i m s"
  shows "sv_sheap s' sid = Some (sess\<lparr>ss_paired := True, ss_pairedAt := Some now\<rparr>) \<and>
    sv_out s' h = sv_out s h @
      [(msg0 typePaired)\<lparr>m_peerAddr := pc_public client', m_peerLocalAddrs := pc_local client',
         m_peerRole := roleClient, m_relayToken := pc_token host\<rparr>, msg0 typeGo] \<and>
    sv_out s' c = sv_out s c @
      [(msg0 typePaired)\<lparr>m_peerAddr := pc_public host', m_peerLocalAddrs := pc_local host',
         m_peerRole := roleHost, m_certFingerprint := pc_fp host', m_relayToken := pc_token client\<rparr>,
       msg0 typeGo] \<and>
    (\<forall>j. j = h \<or> j = c \<or> sv_out s' j = sv_out s j) \<and>
    map_option rr_peer (mget (sv_relays s') (pc_token host)) = Some (pc_token client) \<and>
    map_option rr_peer (mget (sv_relays s') (pc_token client)) = Some (pc_token host)"
proof -
  have inv: "srv_inv s"
    by (rule srv.reach_inv [OF assms(1)])
  have ro: "pc_role host = roleHost" "pc_sess host = sid" "pc_role client = roleClient" "pc_sess client = sid"
    using srv_inv_heapD(3) [OF inv sess(1) peers(1)] srv_inv_heapD(3) [OF inv sess(1) peers(2)] conns by auto
  then have hc: "h \<noteq> c"
    using conns by auto
  then have tok: "pc_token host \<noteq> pc_token client"
    using inv conns unfolding srv_inv_def inv_token_def by blast
  have rd: "pc_ready (withReady m q)" "pc_token (withReady m q) = pc_token q" for q
    by (simp_all add: withReady_def)
  let ?s1 = "setConn i (if i = h then host' else client') s"
  have "s' = tryPair now sid ?s1"
    using last hc s' handleMessage_ready [OF conns(1) m] handleMessage_ready [OF conns(2) m] ro by auto
  also have "\<dots> = pairPeers now sid sess h host' c client' ?s1"
    using last hc conns sess peers by (intro tryPair_pairs) (auto simp: rd)
  finally have s'_eq: "s' = pairPeers now sid sess h host' c client' ?s1" .
  have toks: "pc_token host' = pc_token host" "pc_token client' = pc_token client"
    using last by (auto simp: rd)
  then have tok': "pc_token host' \<noteq> pc_token client'"
    using tok by simp
  show ?thesis
    using hc opn tok toks unfolding s'_eq
    by (simp add: sv_out_pairPeers [OF hc] mget_pairPeers [OF tok'] pairedToHost_def pairedToClient_def)
qed

theorem ready_pairs_session_witness:
  "\<exists>host client. sv_conns run3 0 = Some host \<and> sv_conns run3 1 = Some client \<and>
     map_option rr_peer (mget (sv_relays run4) (pc_token host)) = Some (pc_token client)"
proof -
  have "\<exists>sess host client. sv_sheap run3 0 = Some sess \<and> \<not> ss_paired sess \<and>
      mget (ss_peers sess) roleHost = Some 0 \<and> mget (ss_peers sess) roleClient = Some 1 \<and>
      sv_conns run3 0 = Some host \<and> sv_conns run3 1 = Some client \<and>
      \<not> sv_closed run3 0 \<and> \<not> sv_closed run3 1 \<and> pc_ready host"
    by (simp add: run_defs go_defs)
  then obtain sess host client where a: "sv_sheap run3 0 = Some sess" "\<not> ss_paired sess"
      "mget (ss_peers sess) roleHost = Some 0" "mget (ss_peers sess) roleClient = Some 1"
      "sv_conns run3 0 = Some host" "sv_conns run3 1 = Some client"
      "\<not> sv_closed run3 0" "\<not> sv_closed run3 1" "pc_ready host"
    by blast
  have "m_type (readyFrom ''192.0.2.2:4000'' []) = typeReady"
    by (simp add: readyFrom_def proto_defs)
  from ready_pairs_session [OF reach_run3 a(1-8) this, of 1 host "withReady (readyFrom ''192.0.2.2:4000'' []) client"]
  show ?thesis
    using a(5,6,9) by (auto simp: run4_def)
qed

text \<open>
  C33: The first three ways a hello is refused: no readable message or another type, a missing code or
  an unknown role, and a role that is already taken on that code. Each sends one error on that
  connection, closes it, and changes nothing else: no session, connection, route, counter or other
  connection.
\<close>

theorem hello_refused:
  assumes opn: "\<not> sv_closed s c"
    and e: "case hello of None \<Rightarrow> e = ''expected hello''
         | Some m \<Rightarrow>
             if m_type m \<noteq> typeHello then e = ''expected hello''
             else if m_code m = [] \<or> m_role m \<notin> {roleHost, roleClient} then e = ''missing code or role''
             else e = ''a '' @ m_role m @ '' is already connected for this code'' \<and>
               (\<exists>sid sess. mget (sv_sessions s) (m_code m) = Some sid \<and> sv_sheap s sid = Some sess \<and>
                  mget (ss_peers sess) (m_role m) \<noteq> None)"
  shows "handleHello now c tok remote rh hello s =
    s\<lparr>sv_out := (sv_out s)(c := sv_out s c @ [(msg0 typeError)\<lparr>m_error := e\<rparr>]),
      sv_closed := (sv_closed s)(c := True)\<rparr>"
proof -
  have "handleHello now c tok remote rh hello s = wsClose c (wsSend c (errorMsg e) s)"
  proof (cases hello)
    case (Some m)
    show ?thesis
    proof (cases "m_type m \<noteq> typeHello \<or> m_code m = [] \<or> m_role m \<notin> {roleHost, roleClient}")
      case True
      then show ?thesis
        using e Some by (cases "m_type m = typeHello") (auto simp: handleHello_def)
    next
      case False
      then obtain sid sess where "mget (sv_sessions s) (m_code m) = Some sid" "sv_sheap s sid = Some sess"
        "mget (ss_peers sess) (m_role m) \<noteq> None" "e = ''a '' @ m_role m @ '' is already connected for this code''"
        using e Some by auto
      then show ?thesis
        using False Some by (auto simp: handleHello_def sessionFor_def)
    qed
  qed (use e in \<open>simp add: handleHello_def\<close>)
  then show ?thesis
    using opn by (simp add: wsClose_def wsSend_def errorMsg_def)
qed

theorem hello_refused_witness:
  "sv_out (handleHello 5 7 (runTok (CHR ''c'')) [] [] (Some (helloFrom roleHost)) run2) 7 =
     [errorMsg ''a host is already connected for this code'']"
proof -
  have "handleHello 5 7 (runTok (CHR ''c'')) [] [] (Some (helloFrom roleHost)) run2 =
    run2\<lparr>sv_out := (sv_out run2)(7 := sv_out run2 7 @
        [(msg0 typeError)\<lparr>m_error := ''a host is already connected for this code''\<rparr>]),
      sv_closed := (sv_closed run2)(7 := True)\<rparr>"
    by (rule hello_refused) (simp_all add: run_defs go_defs)
  moreover have "sv_out run2 7 = []"
    by (simp add: run_defs go_defs)
  ultimately show ?thesis
    by (simp add: errorMsg_def)
qed

section \<open>Closing a session\<close>

text \<open>Closing a session: what \<open>handleDeleteSession\<close> does to the state.\<close>

lemma closeSession_eq:
  assumes "mget (sv_sessions s) code = Some sid" "sv_sheap s sid = Some sess"
  shows "closeSession code s =
    fold closePeer (sessionPeers sess)
      (fold dropTokenOf (sessionPeers sess) s\<lparr>sv_sessions := mdel code (sv_sessions s)\<rparr>)"
  using assms by (simp add: closeSession_def Let_def)

lemma sessionPeers_iff:
  "mwf (ss_peers sess) \<Longrightarrow> c \<in> set (sessionPeers sess) \<longleftrightarrow> (\<exists>r. mget (ss_peers sess) r = Some c)"
  by (force simp: sessionPeers_def gm.entries_get [symmetric])

text \<open>
  An administrator's close, in a reachable state: the code is forgotten and no other code is; each
  of its peers is disconnected, after one error message if it was still connected, and its relay
  token is forgotten; every other route, and every other connection, is left as it was.
\<close>

lemma close_session_effect:
  assumes "reach srv_init srv_step s"
    and "mget (sv_sessions s) code = Some sid" "sv_sheap s sid = Some sess"
    and "s' = closeSession code s"
  shows "(\<forall>k. mget (sv_sessions s') k = (if k = code then None else mget (sv_sessions s) k)) \<and>
    (\<forall>c. if \<exists>r. mget (ss_peers sess) r = Some c
         then sv_closed s' c \<and>
           sv_out s' c = (if sv_closed s c then sv_out s c
                          else sv_out s c @ [(msg0 typeError)\<lparr>m_error := ''session closed by the server''\<rparr>])
         else sv_closed s' c = sv_closed s c \<and> sv_out s' c = sv_out s c) \<and>
    (\<forall>t. mget (sv_relays s') t =
       (if \<exists>r c pc. mget (ss_peers sess) r = Some c \<and> sv_conns s c = Some pc \<and> pc_token pc = t
        then None else mget (sv_relays s) t))"
proof -
  have "mwf (ss_peers sess)"
    using srv_inv_heapD(2) [OF srv.reach_inv [OF assms(1)] assms(3)] .
  note peers = sessionPeers_iff [OF this]
  have "mget (sv_sessions s') k = (if k = code then None else mget (sv_sessions s) k)" for k
    by (simp add: assms(4) closeSession_eq [OF assms(2,3)])
  moreover have "if \<exists>r. mget (ss_peers sess) r = Some c
         then sv_closed s' c \<and>
           sv_out s' c = (if sv_closed s c then sv_out s c
                          else sv_out s c @ [(msg0 typeError)\<lparr>m_error := ''session closed by the server''\<rparr>])
         else sv_closed s' c = sv_closed s c \<and> sv_out s' c = sv_out s c" for c
    by (simp add: assms(4) closeSession_eq [OF assms(2,3)] sv_closed_fold_closePeer sv_out_fold_closePeer
        errorMsg_def flip: peers)
  moreover have "mget (sv_relays s') t =
       (if \<exists>r c pc. mget (ss_peers sess) r = Some c \<and> sv_conns s c = Some pc \<and> pc_token pc = t
        then None else mget (sv_relays s) t)" for t
  proof -
    have "(\<exists>c \<in> set (sessionPeers sess). \<exists>pc. sv_conns s c = Some pc \<and> pc_token pc = t) \<longleftrightarrow>
        (\<exists>r c pc. mget (ss_peers sess) r = Some c \<and> sv_conns s c = Some pc \<and> pc_token pc = t)"
      using peers by blast
    then show ?thesis
      by (simp add: assms(4) closeSession_eq [OF assms(2,3)] mget_fold_dropTokenOf)
  qed
  ultimately show ?thesis
    by blast
qed

lemma close_session_effect_witness:
  "mget (sv_relays (closeSession ''k'' run4)) (runTok (CHR ''a'')) = None"
proof -
  have "\<exists>sess pc. mget (sv_sessions run4) ''k'' = Some 0 \<and> sv_sheap run4 0 = Some sess \<and>
      mget (ss_peers sess) roleHost = Some 0 \<and> sv_conns run4 0 = Some pc \<and> pc_token pc = runTok (CHR ''a'')"
    by (simp add: run_defs go_defs)
  then obtain sess pc where a: "mget (sv_sessions run4) ''k'' = Some 0" "sv_sheap run4 0 = Some sess"
      "mget (ss_peers sess) roleHost = Some 0" "sv_conns run4 0 = Some pc" "pc_token pc = runTok (CHR ''a'')"
    by blast
  show ?thesis
    using close_session_effect [OF reach_run4 a(1,2) refl] a(3-5) by auto
qed

lemma dropRelay_relays:
  assumes "mget (sv_relays s) tok = Some r"
  shows "mget (sv_relays (dropRelay tok s)) t =
    (if t = tok \<or> (rr_peer r \<noteq> [] \<and> t = rr_peer r) then None else mget (sv_relays s) t)"
  using assms by (simp add: dropRelay_def Let_def)

text \<open>
  Dropping a route cuts both sides off, in a reachable state: the token and the token it pointed at
  lose their routes, all others keep theirs, and from then on a payload under the dropped token is
  answered by nothing, however the sender's address is known.
\<close>

lemma drop_relay_cuts_both:
  assumes "reach srv_init srv_step s" "mget (sv_relays s) tok = Some r" "rr_peer r \<noteq> []"
    and "s' = dropRelay tok s"
    and "payload \<noteq> []" "hdrLen + length payload \<le> 64 * 1024" "t \<in> {tok, rr_peer r}"
  shows "(\<forall>u. mget (sv_relays s') u = (if u = tok \<or> u = rr_peer r then None else mget (sv_relays s) u)) \<and>
    snd (serveUDP now addr (frame t payload) s') = []"
proof -
  have rel: "mget (sv_relays s') u = (if u = tok \<or> u = rr_peer r then None else mget (sv_relays s) u)" for u
    using assms(3) by (simp add: assms(4) dropRelay_relays [OF assms(2)])
  have inv: "srv_inv s"
    by (rule srv.reach_inv [OF assms(1)])
  have "linked s tok (rr_peer r)"
    using inv assms(2,3) by (simp add: srv_inv_def inv_route_def)
  then have len: "length t = tokenLen"
    using assms(7) linked_length [OF inv] by blast
  have "mget (sv_relays s) [] = None"
    using inv unfolding srv_inv_def inv_route_def tokenLen_def
    by (metis list.size(3) not_None_eq zero_neq_numeral)
  then have "mget (sv_relays s') [] = None"
    using rel by simp
  moreover have "mget (sv_relays s') t = None"
    using rel assms(7) by auto
  ultimately have "snd (serveUDP now addr (frame t payload) s') = []"
    using len assms(5,6) by (auto simp: serveUDP_data peerAddrOf_def tokenLen_def)
  with rel show ?thesis
    by blast
qed

lemma drop_relay_cuts_both_witness:
  "snd (serveUDP 9 (runAddr 2) (frame (runTok (CHR ''b'')) ''hi'') (dropRelay (runTok (CHR ''a'')) run4)) = []"
  using drop_relay_cuts_both [OF reach_run4 run4_relays(1) _ refl, of "''hi''" "runTok (CHR ''b'')" 9 "runAddr 2"]
  by (simp add: wire_defs runTok_def)

section \<open>What goes wrong\<close>

text \<open>The run after the host is closed by an administrator and another host takes the code.\<close>

definition lost1 :: server where
  "lost1 = closeSession ''k'' run1"
definition lost2 :: server where
  "lost2 = handleHello 2 1 (runTok (CHR ''b'')) [] [] (Some (helloFrom roleHost)) lost1"
definition lost3 :: server where
  "lost3 = handleLeave 0 lost2"

text \<open>
  A peer can be lost. When an administrator closes a session and a new host takes its code before
  the old connection's handler has run its clean-up, that clean-up deletes the new session from the
  map (it deletes the code, whichever session is under it): a reachable state has a host that is
  connected, being served and registered in its session, while its code leads nowhere.
\<close>

lemma cleanup_can_lose_new_session:
  "\<exists>s c pc ss. reach srv_init srv_step s \<and> sv_conns s c = Some pc \<and> \<not> pc_done pc \<and> \<not> sv_closed s c \<and>
     sv_sheap s (pc_sess pc) = Some ss \<and> mget (ss_peers ss) (pc_role pc) = Some c \<and>
     mget (sv_sessions s) (pc_code pc) = None"
proof -
  have "srv_step run1 (EvCloseSession ''k'') lost1"
    unfolding lost1_def by (rule step_close)
  with reach_run1 have r1: "reach srv_init srv_step lost1"
    by (rule reach_step)
  have "srv_step lost1 (EvHello 2 1 (runTok (CHR ''b'')) [] [] (Some (helloFrom roleHost))) lost2"
    unfolding lost2_def by (rule step_hello) (auto simp: freshToken_def lost1_def run_defs go_defs)
  with r1 have r2: "reach srv_init srv_step lost2"
    by (rule reach_step)
  have "srv_step lost2 (EvLeave 0) lost3"
    unfolding lost3_def by (rule step_leave) (auto simp: lost2_def lost1_def run_defs go_defs)
  with r2 have "reach srv_init srv_step lost3"
    by (rule reach_step)
  moreover have "\<exists>pc ss. sv_conns lost3 1 = Some pc \<and> \<not> pc_done pc \<and> \<not> sv_closed lost3 1 \<and>
      sv_sheap lost3 (pc_sess pc) = Some ss \<and> mget (ss_peers ss) (pc_role pc) = Some 1 \<and>
      mget (sv_sessions lost3) (pc_code pc) = None"
    by (simp add: lost3_def lost2_def lost1_def run_defs go_defs)
  ultimately show ?thesis
    by blast
qed

text \<open>The run after the paired client left and another took its place, and is ready too.\<close>

definition stuck1 :: server where
  "stuck1 = handleLeave 1 run4"
definition stuck2 :: server where
  "stuck2 = handleHello 6 2 (runTok (CHR ''c'')) [] [] (Some (helloFrom roleClient)) stuck1"
definition stuck3 :: server where
  "stuck3 = handleMessage 7 2 (readyFrom ''192.0.2.3:4000'' []) stuck2"

text \<open>
  A replaced peer is never paired. When the client of a paired session leaves and another one joins
  on the same code while the host stays, the session still counts as paired: both are registered,
  connected and ready, yet the new client has heard nothing but \<open>reflected\<close>, and no further
  \<open>ready\<close> or call of \<open>tryPair\<close> changes that.
\<close>

lemma replaced_peer_not_paired:
  "\<exists>s h c host client sess. reach srv_init srv_step s \<and>
     sv_conns s h = Some host \<and> sv_conns s c = Some client \<and> pc_ready host \<and> pc_ready client \<and>
     \<not> pc_done host \<and> \<not> pc_done client \<and> pc_sess host = pc_sess client \<and>
     sv_sheap s (pc_sess client) = Some sess \<and>
     mget (ss_peers sess) roleHost = Some h \<and> mget (ss_peers sess) roleClient = Some c \<and>
     (\<exists>addr. sv_out s c = [reflectedMsg (pc_token client) addr]) \<and>
     (\<forall>now. tryPair now (pc_sess client) s = s)"
proof -
  have "srv_step run4 (EvLeave 1) stuck1"
    unfolding stuck1_def by (rule step_leave) (auto simp: run_defs go_defs)
  with reach_run4 have r1: "reach srv_init srv_step stuck1"
    by (rule reach_step)
  have "srv_step stuck1 (EvHello 6 2 (runTok (CHR ''c'')) [] [] (Some (helloFrom roleClient))) stuck2"
    unfolding stuck2_def by (rule step_hello) (auto simp: freshToken_def stuck1_def run_defs go_defs)
  with r1 have r2: "reach srv_init srv_step stuck2"
    by (rule reach_step)
  have "srv_step stuck2 (EvMessage 7 2 (readyFrom ''192.0.2.3:4000'' [])) stuck3"
    unfolding stuck3_def by (rule step_message) (auto simp: stuck2_def stuck1_def run_defs go_defs)
  with r2 have "reach srv_init srv_step stuck3"
    by (rule reach_step)
  moreover have "\<exists>host client sess. sv_conns stuck3 0 = Some host \<and> sv_conns stuck3 2 = Some client \<and>
     pc_ready host \<and> pc_ready client \<and> \<not> pc_done host \<and> \<not> pc_done client \<and> pc_sess host = pc_sess client \<and>
     sv_sheap stuck3 (pc_sess client) = Some sess \<and> ss_paired sess \<and>
     mget (ss_peers sess) roleHost = Some 0 \<and> mget (ss_peers sess) roleClient = Some 2 \<and>
     (\<exists>addr. sv_out stuck3 2 = [reflectedMsg (pc_token client) addr])"
    by (simp add: stuck3_def stuck2_def stuck1_def run_defs go_defs)
  moreover have "ss_paired sess \<Longrightarrow> sv_sheap s sid = Some sess \<Longrightarrow> tryPair now sid s = s" for sess s sid now
    by (auto simp: tryPair_def split: option.split)
  ultimately show ?thesis
    by blast
qed

end
