(* ===== verification/Go_Hex.thy ===== *)
theory Go_Hex
  imports Prelude
begin

text \<open>\<open>encoding/hex\<close>: the lower-case encoding of bytes, which determines them.\<close>

definition hexDigitLower :: "nat \<Rightarrow> char" where
  "hexDigitLower n = char_of (if n < 10 then 48 + n else 87 + n)"

definition hexEncode :: "bytes \<Rightarrow> string" where
  "hexEncode b = concat (map (\<lambda>c. [hexDigitLower (of_char c div 16), hexDigitLower (of_char c mod 16)]) b)"

lemmas hex_defs [go_defs] = hexDigitLower_def hexEncode_def

lemma hexDigitLower_inject:
  assumes "m < 16" "n < 16" "hexDigitLower m = hexDigitLower n"
  shows "m = n"
proof -
  have "(if m < 10 then 48 + m else 87 + m) = (of_char (hexDigitLower m) :: nat)"
    using assms(1) by (simp add: hexDigitLower_def)
  moreover have "(if n < 10 then 48 + n else 87 + n) = (of_char (hexDigitLower n) :: nat)"
    using assms(2) by (simp add: hexDigitLower_def)
  ultimately show ?thesis
    using assms by (auto split: if_splits)
qed

lemma hexEncode_inject [simp]: "hexEncode a = hexEncode b \<longleftrightarrow> a = b"
proof
  show "hexEncode a = hexEncode b \<Longrightarrow> a = b"
  proof (induction a arbitrary: b)
    case Nil
    then show ?case
      by (cases b) (simp_all add: hexEncode_def)
  next
    case (Cons x xs)
    then obtain y ys where b: "b = y # ys"
      by (cases b) (simp_all add: hexEncode_def)
    have lt: "of_char z div 16 < (16::nat)" for z :: char
      by (simp add: less_mult_imp_div_less)
    have "hexDigitLower (of_char x div 16) = hexDigitLower (of_char y div 16)"
      "hexDigitLower (of_char x mod 16) = hexDigitLower (of_char y mod 16)"
      and tl: "hexEncode xs = hexEncode ys"
      using Cons.prems by (simp_all add: b hexEncode_def)
    then have "(of_char x :: nat) div 16 = of_char y div 16" "(of_char x :: nat) mod 16 = of_char y mod 16"
      using lt by (auto intro: hexDigitLower_inject)
    then have "(of_char x :: nat) = of_char y"
      by (metis div_mod_decomp)
    then show ?case
      using Cons.IH [OF tl] b by simp
  qed
qed simp

end
