(* ===== verification/Server_Log.thy ===== *)
theory Server_Log
  imports Go_Hex Server_System
begin

text \<open>
  What is logged: the lines of \<open>internal/xlog\<close>, and the records of the signaling server about its peers
  (\<open>internal/signal/server.go\<close>), with what a peer can put into them.
\<close>

section \<open>The logger\<close>

text \<open>What goes to standard error; \<open>ts\<close> is the time as text. \<open>Fatalf\<close> also ends the program with status 1.\<close>

definition newlineChar :: char where
  "newlineChar = CHR 0x0A"

definition logLine :: "string \<Rightarrow> string \<Rightarrow> string \<Rightarrow> string" where
  "logLine ts tag msg = ts @ '' '' @ tag @ '' '' @ msg @ [newlineChar]"

definition debugf :: "bool \<Rightarrow> string \<Rightarrow> string \<Rightarrow> string" where
  "debugf verbose ts msg = (if verbose then logLine ts ''DBG'' msg else [])"

definition infof :: "string \<Rightarrow> string \<Rightarrow> string" where
  "infof ts msg = logLine ts ''INF'' msg"

definition errorf :: "string \<Rightarrow> string \<Rightarrow> string" where
  "errorf ts msg = logLine ts ''ERR'' msg"

definition fatalf :: "string \<Rightarrow> string \<Rightarrow> string \<times> int" where
  "fatalf ts msg = (logLine ts ''FATAL'' msg, 1)"

section \<open>Records about peers\<close>

text \<open>\<open>quote\<close> is \<open>strconv.Quote\<close>, which \<open>%q\<close> formats with.\<close>

definition logName :: "(string \<Rightarrow> string) \<Rightarrow> string \<Rightarrow> string" where
  "logName quote name = (if name = [] then [] else '' name='' @ quote name)"

definition joinedMsg :: "(string \<Rightarrow> string) \<Rightarrow> peer_conn \<Rightarrow> string" where
  "joinedMsg quote pc =
     ''peer joined code='' @ pc_code pc @ '' role='' @ pc_role pc @ logName quote (pc_name pc) @ '' token='' @ pc_token pc"

definition leftMsg :: "(string \<Rightarrow> string) \<Rightarrow> peer_conn \<Rightarrow> string" where
  "leftMsg quote pc =
     ''peer left code='' @ pc_code pc @ '' role='' @ pc_role pc @ logName quote (pc_name pc)"

definition pairedMsg :: "session \<Rightarrow> peer_conn \<Rightarrow> peer_conn \<Rightarrow> string" where
  "pairedMsg sess host client =
     ''paired code='' @ ss_code sess @ '' host='' @ pc_public host @ '' client='' @ pc_public client"

text \<open>What a handshake, a message and the end of a connection log: a peer that joined, a pair, a peer that left.\<close>

definition helloLog ::
  "(string \<Rightarrow> string) \<Rightarrow> time \<Rightarrow> nat \<Rightarrow> string \<Rightarrow> string \<Rightarrow> string \<Rightarrow> message option \<Rightarrow> server \<Rightarrow> string list" where
  "helloLog quote now c tok remote reqHost hello s =
     (case (sv_conns s c, sv_conns (handleHello now c tok remote reqHost hello s) c) of
        (None, Some pc) \<Rightarrow> [joinedMsg quote pc]
      | _ \<Rightarrow> [])"

definition leaveLog :: "(string \<Rightarrow> string) \<Rightarrow> nat \<Rightarrow> server \<Rightarrow> string list" where
  "leaveLog quote c s = (case sv_conns s c of None \<Rightarrow> [] | Some pc \<Rightarrow> [leftMsg quote pc])"

definition messageLog :: "time \<Rightarrow> nat \<Rightarrow> message \<Rightarrow> server \<Rightarrow> string list" where
  "messageLog now c m s =
     (let s' = handleMessage now c m s
      in (case sv_conns s c of
            None \<Rightarrow> []
          | Some pc \<Rightarrow>
              (case (sv_sheap s (pc_sess pc), sv_sheap s' (pc_sess pc)) of
                 (Some old, Some sess) \<Rightarrow>
                   if ss_paired sess \<and> \<not> ss_paired old then
                     (case (mget (ss_peers sess) roleHost, mget (ss_peers sess) roleClient) of
                        (Some h, Some k) \<Rightarrow>
                          (case (sv_conns s' h, sv_conns s' k) of
                             (Some host, Some client) \<Rightarrow> [pairedMsg sess host client]
                           | _ \<Rightarrow> [])
                      | _ \<Rightarrow> [])
                   else []
               | _ \<Rightarrow> [])))"

lemmas log_defs [go_defs] =
  newlineChar_def logLine_def debugf_def infof_def errorf_def fatalf_def logName_def joinedMsg_def leftMsg_def
  pairedMsg_def helloLog_def leaveLog_def messageLog_def

section \<open>What a peer can put into a record\<close>

text \<open>The documented contract of \<open>strconv.Quote\<close>: control characters are escaped.\<close>

definition quoteLaw :: "(string \<Rightarrow> string) \<Rightarrow> bool" where
  "quoteLaw quote \<longleftrightarrow> (\<forall>t. newlineChar \<notin> set (quote t))"

definition breaks :: "string \<Rightarrow> nat" where
  "breaks t = count_list t newlineChar"

lemma breaks_simps [simp]: "breaks [] = 0" "breaks (c # t) = (if c = newlineChar then Suc (breaks t) else breaks t)"
  "breaks (t @ u) = breaks t + breaks u"
  by (auto simp: breaks_def)

lemma breaks_0: "breaks t = 0 \<longleftrightarrow> newlineChar \<notin> set t"
  by (simp add: breaks_def count_list_0_iff)

text \<open>A record is written exactly when the peer is counted as joined, and it is about that peer.\<close>

lemma helloLog_cases:
  assumes "sv_conns s c = None"
  shows "(helloLog quote now c tok remote reqHost hello s = [] \<and>
      st_peersJoined (sv_stats (handleHello now c tok remote reqHost hello s)) = st_peersJoined (sv_stats s)) \<or>
    (\<exists>m sid. hello = Some m \<and> m_role m \<in> {roleHost, roleClient} \<and>
      helloLog quote now c tok remote reqHost hello s = [joinedMsg quote (newPeer now tok remote m sid)] \<and>
      st_peersJoined (sv_stats (handleHello now c tok remote reqHost hello s)) = st_peersJoined (sv_stats s) + 1)"
proof (cases hello)
  case None
  then show ?thesis
    using assms by (simp add: helloLog_def handleHello_def)
next
  case (Some m)
  obtain sid s1 where s1: "sessionFor now (m_code m) s = (sid, s1)"
    by fastforce
  then have "sv_conns s1 = sv_conns s" "sv_stats s1 = sv_stats s"
    by (auto simp: sessionFor_def split: option.splits)
  then show ?thesis
    using assms s1 by (auto simp: Some helloLog_def handleHello_def split: option.split)
qed

text \<open>
  Whatever name a peer gives, the record of its joining breaks into as many lines as its code does: the
  name never adds one.
\<close>

lemma name_stays_on_line:
  assumes "quoteLaw quote" "newlineChar \<notin> set ts" "newlineChar \<notin> set tok" "sv_conns s c = None"
    and "helloLog quote now c tok remote reqHost (Some m) s = [record]"
  shows "breaks (infof ts record) = 1 + breaks (m_code m)"
proof -
  obtain sid where r: "record = joinedMsg quote (newPeer now tok remote m sid)" "m_role m \<in> {roleHost, roleClient}"
    using helloLog_cases [OF assms(4), of quote now tok remote reqHost "Some m"] assms(5) by auto
  have "breaks (logName quote (pc_name (newPeer now tok remote m sid))) = 0" "breaks ts = 0" "breaks tok = 0"
    using assms(1-3) by (simp_all add: logName_def quoteLaw_def breaks_0 newlineChar_def)
  moreover have "breaks (m_role m) = 0"
    using r(2) by (auto simp: roleHost_def roleClient_def newlineChar_def)
  ultimately show ?thesis
    by (simp add: r(1) infof_def logLine_def joinedMsg_def newPeer_def newlineChar_def)
qed

text \<open>
  The code is not cleaned like the name is: on any server with no session under it, a first message whose
  code goes on with a line of its own makes the server write that line, as if it had logged it.
\<close>

definition forgingCode :: "string \<Rightarrow> string" where
  "forgingCode line = ''x role=host token=0'' @ [newlineChar] @ line @ [newlineChar] @ ''12:00:00.000 INF peer joined code=y''"

lemma code_forges_line:
  assumes "sv_conns s c = None" "mget (sv_sessions s) (forgingCode line) = None"
    and "m = (msg0 typeHello)\<lparr>m_role := roleHost, m_code := forgingCode line\<rparr>"
  shows "\<exists>before after. concat (map (infof ts) (helloLog quote now c tok remote reqHost (Some m) s)) =
    before @ [newlineChar] @ line @ [newlineChar] @ after"
proof -
  obtain sid where log: "helloLog quote now c tok remote reqHost (Some m) s = [joinedMsg quote (newPeer now tok remote m sid)]"
    using assms by (auto simp: helloLog_def handleHello_def sessionFor_def forgingCode_def proto_defs split: option.split)
  have "sanitizeName [] = []"
    using sanitizeName_id [of "[]"] by (simp add: cleanName_def utf8_def maxNameLen_def)
  then have "joinedMsg quote (newPeer now tok remote m sid) =
      ''peer joined code='' @ forgingCode line @ '' role=host token='' @ tok"
    by (simp add: assms(3) joinedMsg_def newPeer_def logName_def roleHost_def msg0_def)
  then have "concat (map (infof ts) (helloLog quote now c tok remote reqHost (Some m) s)) =
      (ts @ '' INF peer joined code=x role=host token=0'') @ [newlineChar] @ line @ [newlineChar] @
      (''12:00:00.000 INF peer joined code=y role=host token='' @ tok @ [newlineChar])"
    by (simp add: log infof_def logLine_def forgingCode_def)
  then show ?thesis
    by blast
qed

end
