(* ===== verification/Nat_Path.thy ===== *)
theory Nat_Path
  imports Relay
begin

text \<open>
  Finding a path to the peer (\<open>internal/nat/nat.go\<close>): address reflection, hole punching, the local
  candidates, and the connection that tunnels every datagram through the server.

  A socket is what its calls return: each iteration of a loop gets the clock reading of its test and
  the outcome of its read, as a list of such inputs; the loops are recursive over that list and give
  nothing when it ends before they do. The result is paired with the datagrams written, in order.
  \<open>net.ResolveUDPAddr\<close> is the parameter \<open>resolve\<close>.
\<close>

datatype net_read = ReadErr string | ReadOk udp_addr bytes

type_synonym resolver = "string \<Rightarrow> udp_addr option"

section \<open>Reflection\<close>

definition reflectProbe :: "string \<Rightarrow> bytes" where
  "reflectProbe token = wireMagic @ token"

text \<open>An iteration's inputs: the clock, the error of the write if it failed, the read.\<close>

type_synonym reflect_input = "time \<times> string option \<times> net_read"

fun reflectLoop ::
  "time \<Rightarrow> datagram \<Rightarrow> reflect_input list \<Rightarrow> (string + string) option \<times> datagram list" where
  "reflectLoop deadline probe [] = (None, [])"
| "reflectLoop deadline probe ((now, werr, rd) # rest) =
     (if \<not> now < deadline then (Some (Inl ''reflection timed out''), [])
      else
        (case werr of
           Some e \<Rightarrow> (Some (Inl e), [])
         | None \<Rightarrow>
             (case rd of
                ReadErr e \<Rightarrow> apsnd (Cons probe) (reflectLoop deadline probe rest)
              | ReadOk from d \<Rightarrow>
                  let buf = take 1500 d
                  in if 4 < length buf \<and> take 4 buf = magicAddr then (Some (Inr (drop 4 buf)), [probe])
                     else apsnd (Cons probe) (reflectLoop deadline probe rest))))"

definition reflect ::
  "resolver \<Rightarrow> time \<Rightarrow> string \<Rightarrow> string \<Rightarrow> reflect_input list \<Rightarrow> (string + string) option \<times> datagram list" where
  "reflect resolve start serverUDP token ins =
     (case resolve serverUDP of
        None \<Rightarrow> (Some (Inl ''resolve''), [])
      | Some srv \<Rightarrow> reflectLoop (start + 5 * second) (srv, reflectProbe token) ins)"

section \<open>Candidates\<close>

definition sameHostPort :: "udp_addr \<Rightarrow> udp_addr \<Rightarrow> bool" where
  "sameHostPort a b \<longleftrightarrow> ua_port a = ua_port b \<and> ipEqual (ua_ip a) (ua_ip b)"

fun matchCandidate :: "udp_addr list \<Rightarrow> udp_addr \<Rightarrow> udp_addr option" where
  "matchCandidate [] from = None"
| "matchCandidate (p # ps) from = (if sameHostPort from p then Some p else matchCandidate ps from)"

fun resolveLoop :: "resolver \<Rightarrow> (string, bool) gomap \<Rightarrow> string list \<Rightarrow> udp_addr list" where
  "resolveLoop resolve seen [] = []"
| "resolveLoop resolve seen (c # cs) =
     (if c = [] then resolveLoop resolve seen cs
      else
        (case resolve c of
           None \<Rightarrow> resolveLoop resolve seen cs
         | Some addr \<Rightarrow>
             if mget seen (udpString addr) = Some True then resolveLoop resolve seen cs
             else addr # resolveLoop resolve (mput (udpString addr) True seen) cs))"

definition resolveCandidates :: "resolver \<Rightarrow> string list \<Rightarrow> string + udp_addr list" where
  "resolveCandidates resolve cs =
     (let out = resolveLoop resolve [] cs
      in if out = [] then Inl ''no usable peer addresses to punch to'' else Inr out)"

text \<open>
  \<open>LocalCandidates\<close>: \<open>port\<close> is the port the socket is bound to, nothing if its address is not a UDP
  address; \<open>addrs\<close> the interface addresses, nothing if they cannot be listed, each an IP address or
  some other kind of address.
\<close>

definition localUsable :: "go_ip \<Rightarrow> bool" where
  "localUsable ip \<longleftrightarrow> ip \<noteq> [] \<and> \<not> ipIsLoopback ip \<and> \<not> ipIsUnspecified ip \<and> \<not> ipIsLinkLocalUnicast ip"

definition localCandidates :: "int option \<Rightarrow> go_ip option list option \<Rightarrow> string list" where
  "localCandidates port addrs =
     (case (port, addrs) of
        (Some p, Some as) \<Rightarrow>
          List.map_filter
            (\<lambda>a. case a of
                   None \<Rightarrow> None
                 | Some ip \<Rightarrow> if localUsable ip then Some (joinHostPort (ipString ip) (itoa p)) else None)
            as
      | _ \<Rightarrow> [])"

section \<open>Hole punching\<close>

definition punchHello :: bytes where
  "punchHello = ''RTPUNCH''"

definition punchAck :: bytes where
  "punchAck = ''RTPUNCH-ACK''"

text \<open>What one round sends: a hello to every candidate, and an ack to each one heard from.\<close>

definition punchRound :: "udp_addr list \<Rightarrow> (string, bool) gomap \<Rightarrow> datagram list" where
  "punchRound peers heard =
     concat (map (\<lambda>p. if mget heard (udpString p) = Some True then [(p, punchHello), (p, punchAck)]
                      else [(p, punchHello)]) peers)"

fun punchLoop ::
  "time \<Rightarrow> udp_addr list \<Rightarrow> (string, bool) gomap \<Rightarrow> (time \<times> net_read) list \<Rightarrow>
     (string + udp_addr) option \<times> datagram list" where
  "punchLoop deadline peers heard [] = (None, [])"
| "punchLoop deadline peers heard ((now, rd) # rest) =
     (if \<not> now < deadline then (Some (Inl ''timed out''), [])
      else
        apsnd (append (punchRound peers heard))
          (case rd of
             ReadErr e \<Rightarrow> punchLoop deadline peers heard rest
           | ReadOk from d \<Rightarrow>
               (case matchCandidate peers from of
                  None \<Rightarrow> punchLoop deadline peers heard rest
                | Some p \<Rightarrow>
                    if take 1500 d = punchHello then
                      apsnd (Cons (p, punchAck))
                        (punchLoop deadline peers (mput (udpString p) True heard) rest)
                    else if take 1500 d = punchAck then (Some (Inr p), replicate 3 (p, punchAck))
                    else punchLoop deadline peers heard rest)))"

definition punch ::
  "resolver \<Rightarrow> time \<Rightarrow> string list \<Rightarrow> duration \<Rightarrow> (time \<times> net_read) list \<Rightarrow>
     (string + udp_addr) option \<times> datagram list" where
  "punch resolve start candidates timeout ins =
     (case resolveCandidates resolve candidates of
        Inl e \<Rightarrow> (Some (Inl e), [])
      | Inr peers \<Rightarrow>
          (case punchLoop (start + timeout) peers [] ins of
             (Some (Inl e), sent) \<Rightarrow>
               (Some (Inl (''hole punch to '' @ joinWith '', '' candidates @ '' timed out'')), sent)
           | res \<Rightarrow> res))"

section \<open>The relayed connection\<close>

record relay_conn =
  rc_server :: udp_addr
  rc_token :: bytes

definition newRelayConn :: "resolver \<Rightarrow> string \<Rightarrow> string \<Rightarrow> string + relay_conn" where
  "newRelayConn resolve serverUDP token =
     (case resolve serverUDP of
        None \<Rightarrow> Inl ''resolve''
      | Some srv \<Rightarrow>
          if length token \<noteq> tokenLen then Inl (''bad token length '' @ itoa (int (length token)))
          else Inr \<lparr> rc_server = srv, rc_token = token \<rparr>)"

definition relayWriteTo :: "relay_conn \<Rightarrow> bytes \<Rightarrow> datagram" where
  "relayWriteTo r p = (rc_server r, wireMagic @ rc_token r @ p)"

text \<open>
  \<open>ReadFrom\<close> into a buffer of \<open>n\<close> bytes: the payload and the server's address, or the read's error;
  nothing while only strays arrive. The rest of the inputs is what later calls read.
\<close>

fun relayReadFrom ::
  "relay_conn \<Rightarrow> nat \<Rightarrow> net_read list \<Rightarrow> ((string + bytes \<times> udp_addr) \<times> net_read list) option" where
  "relayReadFrom r n [] = None"
| "relayReadFrom r n (ReadErr e # rest) = Some (Inl e, rest)"
| "relayReadFrom r n (ReadOk from d # rest) =
     (let buf = take (n + hdrLen) d
      in if length buf < hdrLen \<or> take 4 buf \<noteq> wireMagic then relayReadFrom r n rest
         else Some (Inr (drop hdrLen buf, rc_server r), rest))"

lemmas nat_defs [go_defs] =
  reflectProbe_def reflect_def sameHostPort_def resolveCandidates_def localUsable_def
  localCandidates_def punchHello_def punchAck_def punchRound_def punch_def newRelayConn_def
  relayWriteTo_def

section \<open>Candidates: what is kept\<close>

lemma matchCandidate_Some:
  "matchCandidate ps from = Some p \<Longrightarrow> p \<in> set ps \<and> sameHostPort from p"
  by (induction ps) (auto split: if_splits)

lemma matchCandidate_None:
  "matchCandidate ps from = None \<longleftrightarrow> (\<forall>p \<in> set ps. \<not> sameHostPort from p)"
  by (induction ps) auto

lemma resolveLoop_seen:
  "a \<in> set (resolveLoop resolve seen cs) \<Longrightarrow> mget seen (udpString a) \<noteq> Some True"
proof (induction resolve seen cs rule: resolveLoop.induct)
  case (2 resolve seen c cs)
  then show ?case
    by (auto split: if_splits option.splits)
qed simp

lemma resolveLoop_distinct: "distinct (map udpString (resolveLoop resolve seen cs))"
proof (induction resolve seen cs rule: resolveLoop.induct)
  case (2 resolve seen c cs)
  then show ?case
    using resolveLoop_seen [of _ resolve "mput k True seen" cs for k]
    by (auto split: option.splits) (metis gm.get_put)
qed simp

lemma resolveLoop_covers:
  "c \<in> set cs \<Longrightarrow> c \<noteq> [] \<Longrightarrow> resolve c = Some a \<Longrightarrow> mget seen (udpString a) \<noteq> Some True \<Longrightarrow>
   udpString a \<in> udpString ` set (resolveLoop resolve seen cs)"
proof (induction resolve seen cs rule: resolveLoop.induct)
  case (2 resolve seen c' cs)
  show ?case
  proof (cases "c = c'")
    case True
    then show ?thesis using 2 by simp
  next
    case False
    then have c: "c \<in> set cs" using 2 by simp
    show ?thesis
    proof (cases "c' = [] \<or> resolve c' = None")
      case True
      then show ?thesis using 2 c by auto
    next
      case False
      then obtain b where b: "resolve c' = Some b" "c' \<noteq> []" by auto
      then show ?thesis
        using 2 c by (cases "udpString b = udpString a") (auto split: if_splits)
    qed
  qed
qed simp

lemma resolveLoop_from:
  "a \<in> set (resolveLoop resolve seen cs) \<Longrightarrow> \<exists>c \<in> set cs. c \<noteq> [] \<and> resolve c = Some a"
  by (induction resolve seen cs rule: resolveLoop.induct) (auto split: if_splits option.splits)

text \<open>
  Resolving the peer's candidates never yields two addresses with the same text, yields only
  addresses some non-empty candidate resolves to, misses none of those, and fails exactly when no
  candidate can be used.
\<close>

lemma resolve_candidates_correct:
  "case resolveCandidates resolve cs of
     Inl e \<Rightarrow> \<forall>c \<in> set cs. c = [] \<or> resolve c = None
   | Inr out \<Rightarrow>
       distinct (map udpString out) \<and>
       udpString ` set out = udpString ` {a. \<exists>c \<in> set cs. c \<noteq> [] \<and> resolve c = Some a} \<and>
       set out \<subseteq> {a. \<exists>c \<in> set cs. c \<noteq> [] \<and> resolve c = Some a}"
proof -
  let ?out = "resolveLoop resolve [] cs"
  have sub: "set ?out \<subseteq> {a. \<exists>c \<in> set cs. c \<noteq> [] \<and> resolve c = Some a}"
    using resolveLoop_from [of _ resolve "[]" cs] by blast
  have cov: "udpString a \<in> udpString ` set ?out" if "c \<in> set cs" "c \<noteq> []" "resolve c = Some a" for a c
    using that by (intro resolveLoop_covers) simp_all
  show ?thesis
  proof (cases "?out = []")
    case True
    then have "c = [] \<or> resolve c = None" if "c \<in> set cs" for c
      using cov [OF that] by (cases "resolve c") auto
    then show ?thesis
      using True by (simp add: resolveCandidates_def)
  next
    case False
    have "udpString ` set ?out = udpString ` {a. \<exists>c \<in> set cs. c \<noteq> [] \<and> resolve c = Some a}"
      using sub cov by blast
    then show ?thesis
      using False sub resolveLoop_distinct [of resolve "[]" cs] by (simp add: resolveCandidates_def Let_def)
  qed
qed

section \<open>Hole punching: the result and the traffic\<close>

text \<open>The candidate an input completes the punch with.\<close>

definition ackFrom :: "udp_addr list \<Rightarrow> net_read \<Rightarrow> udp_addr option" where
  "ackFrom peers rd =
     (case rd of
        ReadErr e \<Rightarrow> None
      | ReadOk from d \<Rightarrow> if take 1500 d = punchAck then matchCandidate peers from else None)"

lemma hello_ne_ack [simp]: "punchHello \<noteq> punchAck" "punchAck \<noteq> punchHello"
  by (simp_all add: punchHello_def punchAck_def)

text \<open>
  The loop's result, whatever it has heard before: decided by the first input that is too late or is
  an ack from a candidate.
\<close>

lemma punchLoop_result:
  "fst (punchLoop deadline peers heard ins) =
     (case find (\<lambda>(now, rd). deadline \<le> now \<or> ackFrom peers rd \<noteq> None) ins of
        None \<Rightarrow> None
      | Some (now, rd) \<Rightarrow>
          if deadline \<le> now then Some (Inl ''timed out'') else map_option Inr (ackFrom peers rd))"
  by (induction deadline peers heard ins rule: punchLoop.induct)
    (auto simp: ackFrom_def split: net_read.splits option.splits)

lemma punchRound_sent:
  "(a, d) \<in> set (punchRound peers heard) \<Longrightarrow>
   a \<in> set peers \<and> (d = punchHello \<or> (d = punchAck \<and> mget heard (udpString a) = Some True))"
  by (auto simp: punchRound_def split: if_splits)

lemma punchLoop_sent:
  "(a, d) \<in> set (snd (punchLoop deadline peers heard ins)) \<Longrightarrow>
   a \<in> set peers \<and> (d = punchHello \<or> d = punchAck)"
proof (induction deadline peers heard ins rule: punchLoop.induct)
  case (2 deadline peers heard now rd rest)
  show ?case
  proof (cases "now < deadline")
    case late: True
    show ?thesis
    proof (cases rd)
      case (ReadErr e)
      then show ?thesis using 2 late punchRound_sent [of a d peers heard] by auto
    next
      case (ReadOk sender dat)
      show ?thesis
      proof (cases "matchCandidate peers sender")
        case None
        then show ?thesis using 2 late ReadOk punchRound_sent [of a d peers heard] by auto
      next
        case (Some p)
        then have "p \<in> set peers" using matchCandidate_Some by blast
        then show ?thesis
          using 2 late ReadOk Some punchRound_sent [of a d peers heard] by (auto split: if_splits)
      qed
    qed
  qed (use 2 in simp)
qed simp

text \<open>
  C28: Hole punching against its specification. The peer address it returns is decided by the first
  input that either comes after the deadline or is an ack from one of the resolved candidates, and is
  then that candidate; hellos, strangers, other traffic and failed reads never change the outcome.
  Whatever the outcome, it has sent nothing but hellos and acks, and only to the candidates.
\<close>

theorem punch_meets_spec:
  assumes "resolveCandidates resolve cs = Inr peers"
  shows "fst (punch resolve start cs timeout ins) =
      (case find (\<lambda>(now, rd). start + timeout \<le> now \<or> ackFrom peers rd \<noteq> None) ins of
         None \<Rightarrow> None
       | Some (now, rd) \<Rightarrow>
           if start + timeout \<le> now
           then Some (Inl (''hole punch to '' @ joinWith '', '' cs @ '' timed out''))
           else map_option Inr (ackFrom peers rd)) \<and>
    (\<forall>(a, d) \<in> set (snd (punch resolve start cs timeout ins)).
       a \<in> set peers \<and> d \<in> {''RTPUNCH'', ''RTPUNCH-ACK''})"
proof -
  let ?loop = "punchLoop (start + timeout) peers [] ins"
  have p: "punch resolve start cs timeout ins =
      (case ?loop of (Some (Inl e), sent) \<Rightarrow>
          (Some (Inl (''hole punch to '' @ joinWith '', '' cs @ '' timed out'')), sent) | res \<Rightarrow> res)"
    by (simp add: punch_def assms)
  have "snd (punch resolve start cs timeout ins) = snd ?loop"
    unfolding p by (auto split: prod.split option.split sum.split)
  then have sent: "\<forall>(a, d) \<in> set (snd (punch resolve start cs timeout ins)).
      a \<in> set peers \<and> d \<in> {''RTPUNCH'', ''RTPUNCH-ACK''}"
    using punchLoop_sent [of _ _ "start + timeout" peers "[]" ins]
    by (auto simp: punchHello_def punchAck_def)
  have "fst (punch resolve start cs timeout ins) =
      (case fst ?loop of
         Some (Inl e) \<Rightarrow> Some (Inl (''hole punch to '' @ joinWith '', '' cs @ '' timed out''))
       | res \<Rightarrow> res)"
    unfolding p by (auto split: prod.split option.split sum.split)
  with sent show ?thesis
    unfolding punchLoop_result by (auto split: option.splits)
qed

definition natAddr :: "nat \<Rightarrow> udp_addr" where
  "natAddr n = \<lparr> ua_ip = [char_of (192::nat), char_of (0::nat), char_of (2::nat), char_of n],
     ua_port = 4000, ua_zone = [] \<rparr>"

definition natResolve :: resolver where
  "natResolve s = (if s = ''a'' then Some (natAddr 1) else if s = ''b'' then Some (natAddr 2) else None)"

lemma natResolve_eval:
  "resolveCandidates natResolve [''a'', [], ''x'', ''b'', ''a''] = Inr [natAddr 1, natAddr 2]"
  by (simp add: resolveCandidates_def natResolve_def natAddr_def udpString_def joinHostPort_def ipString_def
      ipTo4_def ip4String_def gomap_defs natToDec.simps itoa_def digitChar_def Let_def)

lemma resolve_candidates_correct_witness:
  "\<exists>out. resolveCandidates natResolve [''a'', [], ''x'', ''b'', ''a''] = Inr out \<and>
     distinct (map udpString out) \<and>
     set out \<subseteq> {a. \<exists>c \<in> set [''a'', [], ''x'', ''b'', ''a'']. c \<noteq> [] \<and> natResolve c = Some a}"
  using resolve_candidates_correct [where resolve = natResolve and cs = "[''a'', [], ''x'', ''b'', ''a'']"] natResolve_eval
  by simp

theorem punch_meets_spec_witness:
  "fst (punch natResolve 0 [''a'', [], ''x'', ''b'', ''a''] 100
     [(10, ReadErr ''timeout''), (20, ReadOk (natAddr 9) ''RTPUNCH-ACK''), (30, ReadOk (natAddr 2) ''RTPUNCH''),
      (40, ReadOk (natAddr 2) ''RTPUNCH-ACK'')]) = Some (Inr (natAddr 2))"
  using punch_meets_spec [OF natResolve_eval, of 0 100
      "[(10, ReadErr ''timeout''), (20, ReadOk (natAddr 9) ''RTPUNCH-ACK''), (30, ReadOk (natAddr 2) ''RTPUNCH''),
        (40, ReadOk (natAddr 2) ''RTPUNCH-ACK'')]"]
  by (simp add: ackFrom_def punchAck_def sameHostPort_def natAddr_def ipEqual_def)

section \<open>The loops end\<close>

lemma reflectLoop_ends:
  "(now, w, rd) \<in> set ins \<Longrightarrow> deadline \<le> now \<Longrightarrow> fst (reflectLoop deadline probe ins) \<noteq> None"
  by (induction deadline probe ins rule: reflectLoop.induct)
    (auto simp: Let_def split: option.splits net_read.splits)



end
