(* ===== verification/Signal_Client.thy ===== *)
theory Signal_Client
  imports Nat_Path
begin

text \<open>
  The peer's side of the rendezvous (\<open>Dial\<close> in \<open>internal/signal/client.go\<close>): hello, reflection,
  ready, waiting for \<open>paired\<close> and \<open>go\<close>, punching, and the fall back to the relay. The world is a
  record of what each call returns; the result is paired with the messages written to the WebSocket.
\<close>

record dial_params =
  dp_code :: string
  dp_role :: role
  dp_name :: string
  dp_fp :: string
  dp_punchTimeout :: duration

text \<open>The negotiated session: the connection is direct, or relayed with its framing.\<close>

datatype packet_conn = Direct | Relayed relay_conn

record dial_session =
  ds_role :: role
  ds_conn :: packet_conn
  ds_peer :: udp_addr
  ds_fp :: string
  ds_relayed :: bool

text \<open>
  Errors of the calls before the handshake (socket, URL, WebSocket), of the two writes, the messages
  read (nothing for a failed read), the inputs of the two probing loops with the clock at their start,
  the interface addresses, and whether \<open>RT_FORCE_RELAY\<close> is 1.
\<close>

record dial_world =
  dw_setupErr :: "string option"
  dw_helloErr :: "string option"
  dw_first :: "string + message"
  dw_reflectStart :: time
  dw_reflect :: "reflect_input list"
  dw_port :: "int option"
  dw_ifaces :: "go_ip option list option"
  dw_readyErr :: "string option"
  dw_inbox :: "(string + message) list"
  dw_forceRelay :: bool
  dw_punchStart :: time
  dw_punch :: "(time \<times> net_read) list"

definition punchTimeoutOf :: "dial_params \<Rightarrow> duration" where
  "punchTimeoutOf p = (if dp_punchTimeout p = 0 then 6 * second else dp_punchTimeout p)"

definition helloMsg :: "dial_params \<Rightarrow> message" where
  "helloMsg p = (msg0 typeHello)\<lparr>m_role := dp_role p, m_code := dp_code p, m_name := dp_name p\<rparr>"

definition readyMsg :: "dial_params \<Rightarrow> string \<Rightarrow> string list \<Rightarrow> message" where
  "readyMsg p public locals =
     (msg0 typeReady)\<lparr>m_publicAddr := public, m_localAddrs := locals, m_certFingerprint := dp_fp p\<rparr>"

text \<open>The loop that waits for \<open>go\<close>, keeping the last \<open>paired\<close>; nothing while no \<open>go\<close> has come.\<close>

fun waitGo :: "message \<Rightarrow> (string + message) list \<Rightarrow> (string + message) option" where
  "waitGo paired [] = None"
| "waitGo paired (Inl e # rest) = Some (Inl e)"
| "waitGo paired (Inr m # rest) =
     (if m_type m = typeError then Some (Inl (m_error m))
      else if m_type m = typeGo then Some (Inr paired)
      else waitGo (if m_type m = typePaired then m else paired) rest)"

text \<open>The first message, and the token and address it brings.\<close>

definition checkReflected :: "string + message \<Rightarrow> string + string \<times> string" where
  "checkReflected r =
     (case r of
        Inl e \<Rightarrow> Inl e
      | Inr m \<Rightarrow>
          if m_type m = typeError then Inl (m_error m)
          else if m_type m \<noteq> typeReflected \<or> m_relayToken m = [] \<or> m_relayAddr m = [] then
            Inl ''unexpected server response during reflection''
          else Inr (m_relayToken m, m_relayAddr m))"

text \<open>From the \<open>paired\<close> message to the session: punch unless the relay is forced, then relay.\<close>

definition connectPeer ::
  "resolver \<Rightarrow> dial_params \<Rightarrow> string \<Rightarrow> string \<Rightarrow> message \<Rightarrow> dial_world \<Rightarrow> (string + dial_session) option" where
  "connectPeer resolve p token relayAddr paired w =
     (if m_peerAddr paired = [] then Some (Inl ''server did not provide peer address'')
      else
        let candidates = m_peerAddr paired # m_peerLocalAddrs paired;
            relay =
              (case newRelayConn resolve relayAddr token of
                 Inl e \<Rightarrow> Inl e
               | Inr rc \<Rightarrow>
                   Inr \<lparr> ds_role = dp_role p, ds_conn = Relayed rc, ds_peer = rc_server rc,
                         ds_fp = m_certFingerprint paired, ds_relayed = True \<rparr>)
        in if dw_forceRelay w then Some relay
           else
             (case fst (punch resolve (dw_punchStart w) candidates (punchTimeoutOf p) (dw_punch w)) of
                None \<Rightarrow> None
              | Some (Inl e) \<Rightarrow> Some relay
              | Some (Inr peer) \<Rightarrow>
                  Some (Inr \<lparr> ds_role = dp_role p, ds_conn = Direct, ds_peer = peer,
                              ds_fp = m_certFingerprint paired, ds_relayed = False \<rparr>)))"

definition dial ::
  "resolver \<Rightarrow> dial_params \<Rightarrow> dial_world \<Rightarrow> (string + dial_session) option \<times> message list" where
  "dial resolve p w =
     (case dw_setupErr w of
        Some e \<Rightarrow> (Some (Inl e), [])
      | None \<Rightarrow>
          (case dw_helloErr w of
             Some e \<Rightarrow> (Some (Inl e), [])
           | None \<Rightarrow>
               (case checkReflected (dw_first w) of
                  Inl e \<Rightarrow> (Some (Inl e), [helloMsg p])
                | Inr (token, relayAddr) \<Rightarrow>
                    (case fst (reflect resolve (dw_reflectStart w) relayAddr token (dw_reflect w)) of
                       None \<Rightarrow> (None, [helloMsg p])
                     | Some (Inl e) \<Rightarrow> (Some (Inl e), [helloMsg p])
                     | Some (Inr public) \<Rightarrow>
                         (case dw_readyErr w of
                            Some e \<Rightarrow> (Some (Inl e), [helloMsg p])
                          | None \<Rightarrow>
                              let ready = readyMsg p public (localCandidates (dw_port w) (dw_ifaces w))
                              in (case waitGo (msg0 []) (dw_inbox w) of
                                    None \<Rightarrow> None
                                  | Some (Inl e) \<Rightarrow> Some (Inl e)
                                  | Some (Inr paired) \<Rightarrow> connectPeer resolve p token relayAddr paired w,
                                  [helloMsg p, ready]))))))"

lemmas client_defs [go_defs] =
  punchTimeoutOf_def helloMsg_def readyMsg_def checkReflected_def connectPeer_def dial_def

section \<open>What a session rests on\<close>

text \<open>The \<open>paired\<close> message the loop returns was received, or none was.\<close>

lemma waitGo_paired:
  "waitGo paired ms = Some (Inr q) \<Longrightarrow> q = paired \<or> (Inr q \<in> set ms \<and> m_type q = typePaired)"
  by (induction paired ms rule: waitGo.induct) (auto split: if_splits)

lemma punch_candidate:
  assumes "fst (punch resolve start cs timeout ins) = Some (Inr a)"
  shows "\<exists>c \<in> set cs. c \<noteq> [] \<and> resolve c = Some a"
proof -
  obtain peers where peers: "resolveCandidates resolve cs = Inr peers"
    using assms by (cases "resolveCandidates resolve cs") (simp_all add: punch_def)
  have "a \<in> set peers"
    using assms unfolding punch_def peers
    using punchLoop_result [of "start + timeout" peers "[]" ins]
    by (auto simp: ackFrom_def split: prod.splits option.splits sum.splits net_read.splits if_splits
        dest: matchCandidate_Some)
  then show ?thesis
    using peers resolveLoop_from [of a resolve "[]" cs]
    by (simp add: resolveCandidates_def Let_def split: if_splits)
qed

end
