(* ===== verification/Transport.thy ===== *)
theory Transport
  imports Signal_Client Go_Hex
begin

text \<open>
  The transport's authentication (\<open>internal/transport/quic.go\<close>): the host's certificate and its
  fingerprint, the client's check of the certificate the peer presents. QUIC and TLS are parameters: a
  dialer takes the address and the callback that checks the peer's certificates, a listener gives the
  first connection accepted; key generation, the certificate's encoding and SHA-256 are parameters too.
\<close>

section \<open>The certificate\<close>

definition alpn :: string where
  "alpn = ''relay-tunnel/1''"

definition fingerprint :: "(bytes \<Rightarrow> bytes) \<Rightarrow> bytes \<Rightarrow> string" where
  "fingerprint sha der = hexEncode (sha der)"

text \<open>The chain presented, which is the one certificate, and the fingerprint published.\<close>

definition generateCert :: "(bytes \<Rightarrow> bytes) \<Rightarrow> string option \<Rightarrow> string + bytes \<Rightarrow> string + bytes list \<times> string" where
  "generateCert sha keyErr created =
     (case keyErr of
        Some e \<Rightarrow> Inl e
      | None \<Rightarrow> (case created of Inl e \<Rightarrow> Inl e | Inr der \<Rightarrow> Inr ([der], fingerprint sha der)))"

section \<open>Listening and dialing\<close>

text \<open>\<open>quicConfig\<close>: how long a silent peer is waited for, and how often one is sent a sign of life.\<close>

record quic_config =
  qc_maxIdleTimeout :: duration
  qc_keepAlivePeriod :: duration

definition quicConfig :: quic_config where
  "quicConfig = \<lparr> qc_maxIdleTimeout = 20 * second, qc_keepAlivePeriod = 5 * second \<rparr>"

definition verifyPinned :: "(bytes \<Rightarrow> bytes) \<Rightarrow> string \<Rightarrow> bytes list \<Rightarrow> string option" where
  "verifyPinned sha want rawCerts =
     (case rawCerts of
        [] \<Rightarrow> Some ''peer presented no certificate''
      | leaf # _ \<Rightarrow>
          let got = fingerprint sha leaf
          in if got \<noteq> want then
               Some (''cert fingerprint mismatch: got '' @ got @ '' want '' @ want)
             else None)"

text \<open>A dialer gets the peer's address, the protocol offered, and the callback.\<close>

type_synonym 'c quic_dialer = "udp_addr \<Rightarrow> string \<Rightarrow> (bytes list \<Rightarrow> string option) \<Rightarrow> string + 'c"

definition transportDial :: "(bytes \<Rightarrow> bytes) \<Rightarrow> 'c quic_dialer \<Rightarrow> dial_session \<Rightarrow> string + 'c" where
  "transportDial sha quic sess =
     (if ds_fp sess = [] then Inl ''missing host cert fingerprint; cannot verify peer''
      else quic (ds_peer sess) alpn (verifyPinned sha (ds_fp sess)))"

text \<open>A listener gets the chain and the protocol; then it accepts one connection.\<close>

type_synonym 'c quic_listener = "bytes list \<Rightarrow> string \<Rightarrow> string + (string + 'c)"

definition transportListen :: "'c quic_listener \<Rightarrow> bytes list \<Rightarrow> string + 'c" where
  "transportListen quic certs = (case quic certs alpn of Inl e \<Rightarrow> Inl e | Inr accepted \<Rightarrow> accepted)"

lemmas transport_defs [go_defs] =
  alpn_def fingerprint_def generateCert_def verifyPinned_def transportDial_def transportListen_def

section \<open>What a connection rests on\<close>

lemma verifyPinned_None:
  "verifyPinned sha want certs = None \<longleftrightarrow> (\<exists>leaf rest. certs = leaf # rest \<and> want = hexEncode (sha leaf))"
  by (auto simp: verifyPinned_def fingerprint_def Let_def split: list.splits)

lemma dial_pinned:
  assumes "dial resolve p w = (Some (Inr sess), sent)"
  shows "\<exists>paired. Inr paired \<in> set (dw_inbox w) \<and> m_type paired = typePaired \<and> ds_fp sess = m_certFingerprint paired"
proof -
  obtain token relayAddr paired where w: "waitGo (msg0 []) (dw_inbox w) = Some (Inr paired)"
    and c: "connectPeer resolve p token relayAddr paired w = Some (Inr sess)"
    using assms by (auto simp: dial_def Let_def split: option.splits sum.splits)
  have "m_peerAddr paired \<noteq> [] \<and> ds_fp sess = m_certFingerprint paired"
    using c unfolding connectPeer_def Let_def by (force split: option.splits sum.splits if_splits)
  then show ?thesis
    using waitGo_paired [OF w] by (auto simp: msg0_def)
qed

lemma pinned_leaf:
  assumes "transportDial sha quic sess = Inr c"
    and "\<forall>a proto verify c. quic a proto verify = Inr c \<longrightarrow> verify (presented c) = None"
  shows "\<exists>leaf rest. ds_fp sess \<noteq> [] \<and> presented c = leaf # rest \<and> ds_fp sess = fingerprint sha leaf"
proof -
  have "ds_fp sess \<noteq> []" "quic (ds_peer sess) alpn (verifyPinned sha (ds_fp sess)) = Inr c"
    using assms(1) by (auto simp: transportDial_def split: if_splits)
  moreover from this(2) have "verifyPinned sha (ds_fp sess) (presented c) = None"
    using assms(2) by blast
  ultimately show ?thesis
    unfolding verifyPinned_None fingerprint_def by blast
qed

lemma generated_leaf:
  "generateCert sha keyErr created = Inr (certs, fingerprint sha leaf) \<Longrightarrow>
   \<exists>der. created = Inr der \<and> certs = [der] \<and> sha leaf = sha der"
  by (auto simp: generateCert_def fingerprint_def split: option.splits sum.splits)

text \<open>
  C12: The client only talks to the host whose certificate was announced. If the TLS library returns no
  connection whose certificates the callback rejects, then a connection over a session that \<open>Dial\<close> of
  the rendezvous client negotiated was presented a certificate whose fingerprint is the one of a
  \<open>paired\<close> message from the server; if that fingerprint is the one of a certificate the host
  generated, the two certificates have the same SHA-256. And a session without a fingerprint is never
  dialed, whatever the library does.
\<close>

theorem client_pins_host:
  assumes "dial resolve p w = (Some (Inr sess), sent)"
    and tls: "\<forall>a proto verify c. quic a proto verify = Inr c \<longrightarrow> verify (presented c) = None"
    and conn: "transportDial sha quic sess = Inr c"
  shows "\<exists>paired leaf rest. Inr paired \<in> set (dw_inbox w) \<and> m_type paired = typePaired \<and>
    m_certFingerprint paired \<noteq> [] \<and> presented c = leaf # rest \<and>
    m_certFingerprint paired = fingerprint sha leaf \<and>
    (\<forall>keyErr created certs. generateCert sha keyErr created = Inr (certs, m_certFingerprint paired) \<longrightarrow>
       (\<exists>der. created = Inr der \<and> certs = [der] \<and> sha leaf = sha der))"
proof -
  obtain paired where p: "Inr paired \<in> set (dw_inbox w)" "m_type paired = typePaired"
    "ds_fp sess = m_certFingerprint paired"
    using dial_pinned [OF assms(1)] by blast
  obtain leaf rest where c: "ds_fp sess \<noteq> []" "presented c = leaf # rest" "m_certFingerprint paired = fingerprint sha leaf"
    using pinned_leaf [OF conn tls] p(3) by metis
  have "\<exists>der. created = Inr der \<and> certs = [der] \<and> sha leaf = sha der"
    if "generateCert sha keyErr created = Inr (certs, m_certFingerprint paired)" for keyErr created certs
    using generated_leaf that c(3) by metis
  then show ?thesis
    using p c by metis
qed

definition pinParams :: dial_params where
  "pinParams = \<lparr> dp_code = ''k'', dp_role = roleClient, dp_name = [], dp_fp = [], dp_punchTimeout = 0 \<rparr>"

definition pinAddr :: udp_addr where
  "pinAddr = natAddr 7"

definition pinWorld :: dial_world where
  "pinWorld = \<lparr> dw_setupErr = None, dw_helloErr = None,
     dw_first = Inr ((msg0 typeReflected)\<lparr>m_relayToken := replicate 16 (CHR ''b''), m_relayAddr := ''srv''\<rparr>),
     dw_reflectStart = 0, dw_reflect = [(1, None, ReadOk pinAddr ''RTAD192.0.2.2:9'')],
     dw_port = None, dw_ifaces = None, dw_readyErr = None,
     dw_inbox = [Inr ((msg0 typePaired)\<lparr>m_peerAddr := ''host'', m_certFingerprint := ''41''\<rparr>), Inr (msg0 typeGo)],
     dw_forceRelay = True, dw_punchStart = 2, dw_punch = [] \<rparr>"

lemma pinWorld_relayed:
  "\<exists>sess sent. dial (\<lambda>s. Some pinAddr) pinParams pinWorld = (Some (Inr sess), sent) \<and> ds_fp sess = ''41''"
  by (simp add: dial_def pinWorld_def pinParams_def checkReflected_def proto_defs reflect_def
      magicAddr_def duration_defs connectPeer_def newRelayConn_def tokenLen_def
      sameHostPort_def localCandidates_def pinAddr_def Let_def)

definition pinQuic :: "bytes list quic_dialer" where
  "pinQuic a proto verify = (case verify [''A''] of None \<Rightarrow> Inr [''A''] | Some e \<Rightarrow> Inl e)"

lemma pinQuic_checks: "\<forall>a proto verify c. pinQuic a proto verify = Inr c \<longrightarrow> verify (id c) = None"
  by (auto simp: pinQuic_def split: option.splits)

theorem client_pins_host_witness:
  "\<exists>sess sent. dial (\<lambda>s. Some pinAddr) pinParams pinWorld = (Some (Inr sess), sent) \<and>
     transportDial (take 1) pinQuic sess = Inr [''A''] \<and>
     (\<exists>paired. Inr paired \<in> set (dw_inbox pinWorld) \<and> m_certFingerprint paired = fingerprint (take 1) ''A'')"
proof -
  obtain sess sent where d: "dial (\<lambda>s. Some pinAddr) pinParams pinWorld = (Some (Inr sess), sent)" "ds_fp sess = ''41''"
    using pinWorld_relayed by blast
  have c: "transportDial (take 1) pinQuic sess = Inr [''A'']"
    by (simp add: transportDial_def d(2) pinQuic_def verifyPinned_def fingerprint_def hexEncode_def
        hexDigitLower_def char_of_eq_iff Let_def)
  from client_pins_host [OF d(1) pinQuic_checks c] show ?thesis
    using d c by auto
qed

end
