(* ===== verification/Relay_Time.thy ===== *)
theory Relay_Time
  imports Server_Props Transport
begin

text \<open>
  The relay's routes over time (\<open>serveUDP\<close>, \<open>gcRelay\<close> in \<open>internal/signal/server.go\<close>): what becomes of one
  token's route under any datagrams and sweeps, and how long it lives.
\<close>

section \<open>One token's route\<close>

text \<open>What the relay's goroutines do to the routes: datagrams from anyone, and sweeps.\<close>

datatype relay_event = Dgram time udp_addr bytes | Tick time

fun relayTime :: "relay_event \<Rightarrow> time" where
  "relayTime (Dgram now addr d) = now"
| "relayTime (Tick now) = now"

fun relayStep :: "relay_event \<Rightarrow> server \<Rightarrow> server" where
  "relayStep (Dgram now addr d) s = fst (serveUDP now addr d s)"
| "relayStep (Tick now) s = gcRelay now s"

text \<open>The token a datagram carries, if it is one of the protocol's.\<close>

definition tokenOf :: "bytes \<Rightarrow> string option" where
  "tokenOf d = (if length d < hdrLen \<or> take 4 d \<noteq> wireMagic then None else Some (take tokenLen (drop 4 d)))"

lemma relays_serveUDP:
  "sv_relays (fst (serveUDP now addr d s)) =
     (case tokenOf d of
        None \<Rightarrow> sv_relays s
      | Some tok \<Rightarrow> mput tok (routeUpdate now addr (drop hdrLen (take (64 * 1024) d)) (mget (sv_relays s) tok)) (sv_relays s))"
proof -
  have "length (take (64 * 1024) d) < hdrLen \<longleftrightarrow> length d < hdrLen" "take 4 (take (64 * 1024) d) = take 4 d"
    "take tokenLen (drop 4 (take (64 * 1024) d)) = take tokenLen (drop 4 d)"
    by (auto simp: hdrLen_def tokenLen_def min_def take_drop)
  then show ?thesis
    by (simp add: serveUDP_def tokenOf_def Let_def split: option.split)
qed

text \<open>
  What counts of a route here: where it points, and when its token was last seen. The route of a token
  knows nothing but the token's own datagrams and the sweeps.
\<close>

definition routeView :: "string \<Rightarrow> server \<Rightarrow> (string \<times> time) option" where
  "routeView tok s = map_option (\<lambda>r. (rr_peer r, rr_seen r)) (mget (sv_relays s) tok)"

fun viewStep :: "string \<Rightarrow> relay_event \<Rightarrow> (string \<times> time) option \<Rightarrow> (string \<times> time) option" where
  "viewStep tok (Dgram now addr d) v =
     (if tokenOf d = Some tok then Some (case v of None \<Rightarrow> [] | Some (peer, seen) \<Rightarrow> peer, now) else v)"
| "viewStep tok (Tick now) v =
     (case v of None \<Rightarrow> None | Some (peer, seen) \<Rightarrow> if relayTTL < now - seen then None else v)"

lemma routeView_step:
  assumes "mwf (sv_relays s)"
  shows "routeView tok (relayStep ev s) = viewStep tok ev (routeView tok s) \<and> mwf (sv_relays (relayStep ev s))"
proof (cases ev)
  case (Dgram now addr d)
  then show ?thesis
    using assms by (auto simp: routeView_def relays_serveUDP split: option.split)
next
  case (Tick now)
  then show ?thesis
    using assms by (auto simp: routeView_def gcRelay_def mget_msweep split: option.split)
qed

lemma routeView_steps:
  "mwf (sv_relays s) \<Longrightarrow> routeView tok (fold relayStep evs s) = fold (viewStep tok) evs (routeView tok s)"
  by (induction evs arbitrary: s) (simp_all add: routeView_step)

section \<open>How long a route lives\<close>

definition feeds :: "string \<Rightarrow> relay_event \<Rightarrow> bool" where
  "feeds tok ev = (case ev of Dgram now addr d \<Rightarrow> tokenOf d = Some tok | Tick now \<Rightarrow> False)"

text \<open>Sweeps that find the token's last datagram at most three minutes old; the time of that datagram.\<close>

fun kept :: "string \<Rightarrow> time \<Rightarrow> relay_event list \<Rightarrow> bool" where
  "kept tok seen [] \<longleftrightarrow> True"
| "kept tok seen (ev # evs) \<longleftrightarrow>
     (if feeds tok ev then kept tok (relayTime ev) evs else
        (case ev of Tick now \<Rightarrow> now - seen \<le> relayTTL | _ \<Rightarrow> True) \<and> kept tok seen evs)"

fun lastSeen :: "string \<Rightarrow> time \<Rightarrow> relay_event list \<Rightarrow> time" where
  "lastSeen tok seen [] = seen"
| "lastSeen tok seen (ev # evs) = lastSeen tok (if feeds tok ev then relayTime ev else seen) evs"

lemma view_kept:
  "kept tok seen evs \<Longrightarrow> fold (viewStep tok) evs (Some (peer, seen)) = Some (peer, lastSeen tok seen evs)"
proof (induction evs arbitrary: seen)
  case (Cons ev evs)
  then show ?case
    by (cases ev) (auto simp: feeds_def split: if_splits)
qed simp

lemma view_gone: "\<forall>ev \<in> set evs. \<not> feeds tok ev \<Longrightarrow> fold (viewStep tok) evs None = None"
proof (induction evs)
  case (Cons ev evs)
  then show ?case
    by (cases ev) (auto simp: feeds_def)
qed simp

lemma view_starved:
  "\<forall>ev \<in> set evs. \<not> feeds tok ev \<Longrightarrow>
   fold (viewStep tok) evs (Some (peer, seen)) = (if kept tok seen evs then Some (peer, seen) else None)"
proof (induction evs)
  case (Cons ev evs)
  then show ?case
    using view_gone [of evs tok] by (cases ev) (auto simp: feeds_def)
qed simp

text \<open>Events in the order of time, with the token's datagrams never more than a period apart.\<close>

fun steady :: "string \<Rightarrow> duration \<Rightarrow> time \<Rightarrow> relay_event list \<Rightarrow> bool" where
  "steady tok period seen [] \<longleftrightarrow> True"
| "steady tok period seen (ev # evs) \<longleftrightarrow>
     seen \<le> relayTime ev \<and> relayTime ev \<le> seen + period \<and>
     steady tok period (if feeds tok ev then relayTime ev else seen) evs"

lemma steady_kept: "steady tok period seen evs \<Longrightarrow> period \<le> relayTTL \<Longrightarrow> kept tok seen evs"
proof (induction evs arbitrary: seen)
  case (Cons ev evs)
  then show ?case
    by (cases ev) (auto simp: feeds_def split: if_splits)
qed simp

lemma starved_kept:
  "\<forall>ev \<in> set evs. \<not> feeds tok ev \<Longrightarrow> Tick now \<in> set evs \<Longrightarrow> relayTTL < now - seen \<Longrightarrow> \<not> kept tok seen evs"
  by (induction evs) auto

text \<open>
  C31: A relay route lives as long as its peer is heard, and no longer. Whatever datagrams anyone sends and
  however often the sweep runs, where a token's route points and when it was seen follow from the token's own
  datagrams and the sweeps alone. So a tunnel whose peer sends at least the keepalives of its QUIC
  connection, at most five seconds apart, keeps its route, still pointing at the same peer, for as long as
  that goes on; and once the token falls silent, the first sweep more than three minutes later removes the
  route, and none of the others' datagrams brings it back.
\<close>

theorem route_lifetime:
  assumes "reach srv_init srv_step s" "mget (sv_relays s) tok = Some r" "s' = fold relayStep evs s"
  shows "routeView tok s' = fold (viewStep tok) evs (routeView tok s) \<and>
    (steady tok (qc_keepAlivePeriod quicConfig) (rr_seen r) evs \<longrightarrow>
       (\<exists>r'. mget (sv_relays s') tok = Some r' \<and> rr_peer r' = rr_peer r \<and> rr_seen r' = lastSeen tok (rr_seen r) evs)) \<and>
    ((\<forall>ev \<in> set evs. \<not> feeds tok ev) \<and> (\<exists>now. Tick now \<in> set evs \<and> relayTTL < now - rr_seen r) \<longrightarrow>
       mget (sv_relays s') tok = None)"
proof -
  have "mwf (sv_relays s)"
    using srv.reach_inv [OF assms(1)] by (simp add: srv_inv_def inv_route_def)
  then have view: "routeView tok s' = fold (viewStep tok) evs (routeView tok s)"
    unfolding assms(3) by (rule routeView_steps)
  have r: "routeView tok s = Some (rr_peer r, rr_seen r)"
    by (simp add: routeView_def assms(2))
  have "qc_keepAlivePeriod quicConfig \<le> relayTTL"
    by (simp add: quicConfig_def relayTTL_def duration_defs)
  then have "routeView tok s' = Some (rr_peer r, lastSeen tok (rr_seen r) evs)"
    if "steady tok (qc_keepAlivePeriod quicConfig) (rr_seen r) evs"
    unfolding view r using view_kept steady_kept [OF that] by blast
  moreover have "routeView tok s' = None"
    if "\<forall>ev \<in> set evs. \<not> feeds tok ev" "Tick now \<in> set evs" "relayTTL < now - rr_seen r" for now
    unfolding view r view_starved [OF that(1)] using starved_kept [OF that] by simp
  ultimately show ?thesis
    using view by (auto simp: routeView_def)
qed

theorem route_lifetime_witness:
  "\<exists>r'. mget (sv_relays (fold relayStep [Dgram 60 (runAddr 9) ''junk'',
       Dgram 70 (runAddr 1) (frame (runTok (CHR ''a'')) ''x''), Tick 80] run4)) (runTok (CHR ''a'')) = Some r' \<and>
     rr_peer r' = runTok (CHR ''b'') \<and> rr_seen r' = 70"
proof -
  let ?evs = "[Dgram 60 (runAddr 9) ''junk'', Dgram 70 (runAddr 1) (frame (runTok (CHR ''a'')) ''x''), Tick 80]"
  have tok: "tokenOf ''junk'' = None" "tokenOf (frame (runTok (CHR ''a'')) ''x'') = Some (runTok (CHR ''a''))"
    by (simp_all add: tokenOf_def wire_defs run_defs frame_def)
  have "steady (runTok (CHR ''a'')) (qc_keepAlivePeriod quicConfig) 4 ?evs" "lastSeen (runTok (CHR ''a'')) 4 ?evs = 70"
    by (simp_all add: feeds_def tok quicConfig_def duration_defs)
  then show ?thesis
    using route_lifetime [OF reach_run4 run4_relays(1) refl, of ?evs] by (simp add: linkRoute_def)
qed

end
