(* ===== verification/Path_Props.thy ===== *)
theory Path_Props
  imports Server_Props Signal_Client
begin

text \<open>
  The peers and the server together: what travels over the relay end to end, what reflection tells a
  peer, how \<open>Dial\<close> reads what the server writes, and what a negotiated session rests on.
\<close>

section \<open>Through the relay\<close>

lemma newRelayConn_Inr:
  "newRelayConn resolve addr tok = Inr r \<Longrightarrow>
   rc_token r = tok \<and> length tok = tokenLen \<and> resolve addr = Some (rc_server r)"
  by (auto simp: newRelayConn_def split: option.splits if_splits)

lemma relayReadFrom_frame:
  assumes "length token = tokenLen" "length payload \<le> n"
  shows "relayReadFrom r n (ReadOk src (frame token payload) # rest) = Some (Inr (payload, rc_server r), rest)"
proof -
  have "take (n + hdrLen) (frame token payload) = frame token payload"
    using assms by (simp add: frame_def wire_defs)
  then show ?thesis
    using frame_parts [OF assms(1), of payload] by (simp add: Let_def)
qed

text \<open>
  C26: The relay carries data end to end. Take a reachable server whose route for the sender's token
  points at the receiver's and that has heard from the receiver, and two relayed connections built
  with those tokens. What one writes (up to what fits a UDP datagram) the server sends to the
  receiver's address and to no one else, and the receiver's \<open>ReadFrom\<close> returns exactly those bytes,
  skipping strays that arrived before.
\<close>

theorem relay_end_to_end:
  assumes "reach srv_init srv_step s"
    and "newRelayConn resolve1 a1 tok = Inr sender" "newRelayConn resolve2 a2 peer = Inr receiver"
    and "mget (sv_relays s) tok = Some q" "rr_peer q = peer"
    and "mget (sv_relays s) peer = Some p" "rr_addr p = Some dst"
    and "payload \<noteq> []" "hdrLen + length payload \<le> 64 * 1024" "length payload \<le> n"
    and "list_all (\<lambda>rd. case rd of ReadErr e \<Rightarrow> False
                         | ReadOk src d \<Rightarrow> length d < hdrLen \<or> take 4 d \<noteq> wireMagic) strays"
  shows "\<exists>d. snd (serveUDP now src (snd (relayWriteTo sender payload)) s) = [(dst, d)] \<and>
    relayReadFrom receiver n (strays @ [ReadOk (rc_server receiver) d]) =
      Some (Inr (payload, rc_server receiver), [])"
proof -
  note c1 = newRelayConn_Inr [OF assms(2)] and c2 = newRelayConn_Inr [OF assms(3)]
  have inv: "srv_inv s"
    by (rule srv.reach_inv [OF assms(1)])
  have pn: "peer \<noteq> []"
    using c2 by (auto simp: tokenLen_def)
  then have "linked s tok peer"
    using inv assms(4,5) by (auto simp: srv_inv_def inv_route_def)
  then have "tok \<noteq> peer"
    by (rule linked_neq [OF inv])
  then have "peerAddrOf (mput tok (routeUpdate now src payload (Some q)) (sv_relays s))
      (routeUpdate now src payload (Some q)) = Some dst"
    using assms(5-7) by (simp add: peerAddrOf_def)
  then have sent: "snd (serveUDP now src (frame tok payload) s) = [(dst, frame tok payload)]"
    using c1 assms(4,8,9) by (simp add: serveUDP_data)
  have skip: "relayReadFrom receiver n (strays @ rest) = relayReadFrom receiver n rest" for rest
    using assms(11)
  proof (induction strays)
    case (Cons rd strays)
    then show ?case
      by (cases rd) (auto simp: Let_def min_def hdrLen_def)
  qed simp
  have "relayReadFrom receiver n (strays @ [ReadOk (rc_server receiver) (frame tok payload)]) =
      Some (Inr (payload, rc_server receiver), [])"
    unfolding skip by (rule relayReadFrom_frame) (use c1 assms(10) in simp_all)
  moreover have "snd (relayWriteTo sender payload) = frame tok payload"
    using c1 by (simp add: relayWriteTo_def frame_def)
  ultimately show ?thesis
    using sent by simp
qed

theorem relay_end_to_end_witness:
  "\<exists>d. relayReadFrom \<lparr> rc_server = natAddr 7, rc_token = runTok (CHR ''a'') \<rparr> 1200
     ([ReadOk (natAddr 3) ''RTPUNCH''] @ [ReadOk (natAddr 7) d]) = Some (Inr (''hi'', natAddr 7), [])"
proof -
  let ?r = "\<lambda>s. Some (natAddr 7)"
  have c: "newRelayConn ?r [] (runTok x) = Inr \<lparr> rc_server = natAddr 7, rc_token = runTok x \<rparr>" for x
    by (simp add: newRelayConn_def)
  have r: "\<exists>q p. mget (sv_relays run5) (runTok (CHR ''b'')) = Some q \<and> rr_peer q = runTok (CHR ''a'') \<and>
      mget (sv_relays run5) (runTok (CHR ''a'')) = Some p \<and> rr_addr p = Some (runAddr 1)"
    by (simp add: run5_def serveUDP_reflect run4_relays)
  then obtain q p where "mget (sv_relays run5) (runTok (CHR ''b'')) = Some q" "rr_peer q = runTok (CHR ''a'')"
      "mget (sv_relays run5) (runTok (CHR ''a'')) = Some p" "rr_addr p = Some (runAddr 1)"
    by blast
  note * = relay_end_to_end [OF reach_run5 c c this, where payload = "''hi''" and n = 1200 and strays = "[ReadOk (natAddr 3) ''RTPUNCH'']" and now = 0 and src = "natAddr 2"]
  have "list_all (\<lambda>rd. case rd of ReadErr e \<Rightarrow> False
      | ReadOk src d \<Rightarrow> length d < hdrLen \<or> take 4 d \<noteq> wireMagic) [ReadOk (natAddr 3) ''RTPUNCH'']"
    "hdrLen + length ''hi'' \<le> 64 * 1024" "length ''hi'' \<le> 1200" "''hi'' \<noteq> []"
    by (simp_all add: wire_defs)
  with * show ?thesis
    by (auto simp del: relayReadFrom.simps append.simps)
qed

text \<open>
  C39: Reflection tells a peer its own address. Whatever state the server is in, its answer to the
  probe \<open>Reflect\<close> sends makes \<open>Reflect\<close> return exactly the text of the address the server saw
  the probe come from, and the server then has that address on the token's route.
\<close>

theorem reflection_end_to_end:
  assumes "length tok = tokenLen" "length (udpString src) \<le> 1496" "resolve addr = Some srv"
    and "now < start + 5 * second"
    and "serveUDP t src (reflectProbe tok) s = (s', [(dst, reply)])"
  shows "reflect resolve start addr tok ((now, None, ReadOk srv reply) # rest) =
      (Some (Inr (udpString src)), [(srv, reflectProbe tok)]) \<and>
    dst = src \<and> map_option rr_addr (mget (sv_relays s') tok) = Some (Some src)"
proof -
  have p: "reflectProbe tok = frame tok []"
    by (simp add: reflectProbe_def frame_def)
  have ne: "udpString src \<noteq> []"
    by (simp add: udpString_def joinHostPort_def Let_def)
  have "dst = src" "reply = magicAddr @ udpString src"
    "s' = s\<lparr>sv_relays := mput tok (routeUpdate t src [] (mget (sv_relays s) tok)) (sv_relays s),
       sv_stats := (udpSeen t s)\<lparr>st_reflections := st_reflections (sv_stats s) + 1,
                                 st_lastReflectUnix := unixOf t\<rparr>\<rparr>"
    using assms(1,5) unfolding p by (auto simp: serveUDP_reflect)
  moreover have "4 < length (magicAddr @ udpString src)" "take 4 (magicAddr @ udpString src) = magicAddr"
    "take 1500 (magicAddr @ udpString src) = magicAddr @ udpString src" "drop 4 (magicAddr @ udpString src) = udpString src"
    using ne assms(2) by (simp_all add: magicAddr_def)
  ultimately show ?thesis
    using assms(3,4) by (simp add: reflect_def Let_def)
qed

theorem reflection_end_to_end_witness:
  "fst (reflect (\<lambda>s. Some (natAddr 7)) 0 [] (runTok (CHR ''a''))
     [(1, None, ReadOk (natAddr 7) (magicAddr @ udpString (runAddr 1)))]) = Some (Inr (udpString (runAddr 1)))"
proof -
  have l: "length (udpString (runAddr 1)) \<le> 1496"
    by (simp add: runAddr_def udpString_def joinHostPort_def ipString_def ipTo4_def ip4String_def
        natToDec.simps itoa_def Let_def)
  obtain s' where "serveUDP 1 (runAddr 1) (reflectProbe (runTok (CHR ''a''))) run0 =
      (s', [(runAddr 1, magicAddr @ udpString (runAddr 1))])"
    using serveUDP_reflect [of "runTok (CHR ''a'')" 1 "runAddr 1" run0]
    by (simp add: reflectProbe_def frame_def)
  from reflection_end_to_end [OF _ l _ _ this, where resolve = "\<lambda>s. Some (natAddr 7)" and
      addr = "[]" and srv = "natAddr 7" and now = 1 and start = 0 and rest = "[]"] show ?thesis
    by (simp add: second_def)
qed

section \<open>Dial\<close>



text \<open>
  What a negotiated session rests on. If \<open>Dial\<close> succeeds, it wrote one hello and then one
  ready; the pinned fingerprint is the one in a \<open>paired\<close> message it received; a relayed session goes
  to the relay address and under the token of the server's first message, which is sixteen bytes; and a
  direct one goes to an address the peer offered, and only if the relay was not forced.
\<close>

lemma dial_session_grounded:
  assumes "dial resolve p w = (Some (Inr sess), sent)"
  shows "\<exists>token relayAddr paired public.
    checkReflected (dw_first w) = Inr (token, relayAddr) \<and>
    Inr paired \<in> set (dw_inbox w) \<and> m_type paired = typePaired \<and> m_peerAddr paired \<noteq> [] \<and>
    sent = [helloMsg p, readyMsg p public (localCandidates (dw_port w) (dw_ifaces w))] \<and>
    ds_role sess = dp_role p \<and> ds_fp sess = m_certFingerprint paired \<and>
    (if ds_relayed sess then
       ds_conn sess = Relayed \<lparr> rc_server = ds_peer sess, rc_token = token \<rparr> \<and>
       length token = tokenLen \<and> resolve relayAddr = Some (ds_peer sess)
     else
       ds_conn sess = Direct \<and> \<not> dw_forceRelay w \<and>
       (\<exists>c \<in> set (m_peerAddr paired # m_peerLocalAddrs paired). c \<noteq> [] \<and> resolve c = Some (ds_peer sess)))"
proof -
  obtain token relayAddr public where a: "checkReflected (dw_first w) = Inr (token, relayAddr)"
    "sent = [helloMsg p, readyMsg p public (localCandidates (dw_port w) (dw_ifaces w))]"
    "\<exists>paired. waitGo (msg0 []) (dw_inbox w) = Some (Inr paired) \<and>
       connectPeer resolve p token relayAddr paired w = Some (Inr sess)"
    using assms by (auto simp: dial_def Let_def split: option.splits sum.splits)
  then obtain paired where b: "waitGo (msg0 []) (dw_inbox w) = Some (Inr paired)"
    "connectPeer resolve p token relayAddr paired w = Some (Inr sess)"
    by blast
  have pa: "m_peerAddr paired \<noteq> []"
    using b(2) by (auto simp: connectPeer_def)
  then have "Inr paired \<in> set (dw_inbox w) \<and> m_type paired = typePaired"
    using waitGo_paired [OF b(1)] by (auto simp: msg0_def)
  moreover have "ds_role sess = dp_role p \<and> ds_fp sess = m_certFingerprint paired \<and>
    (if ds_relayed sess then
       ds_conn sess = Relayed \<lparr> rc_server = ds_peer sess, rc_token = token \<rparr> \<and>
       length token = tokenLen \<and> resolve relayAddr = Some (ds_peer sess)
     else
       ds_conn sess = Direct \<and> \<not> dw_forceRelay w \<and>
       (\<exists>c \<in> set (m_peerAddr paired # m_peerLocalAddrs paired). c \<noteq> [] \<and> resolve c = Some (ds_peer sess)))"
    using b(2) pa newRelayConn_Inr [of resolve relayAddr token]
      punch_candidate [of resolve "dw_punchStart w" "m_peerAddr paired # m_peerLocalAddrs paired"]
    unfolding connectPeer_def Let_def
    by (force split: option.splits sum.splits if_splits)
  ultimately show ?thesis
    using a(1,2) pa by blast
qed

definition dialParams :: dial_params where
  "dialParams = \<lparr> dp_code = ''k'', dp_role = roleClient, dp_name = [], dp_fp = [], dp_punchTimeout = 0 \<rparr>"

definition dialWorld :: dial_world where
  "dialWorld = \<lparr> dw_setupErr = None, dw_helloErr = None,
     dw_first = Inr (reflectedMsg (replicate 16 (CHR ''b'')) ''srv''),
     dw_reflectStart = 0, dw_reflect = [(1, None, ReadOk (natAddr 7) ''RTAD192.0.2.2:9'')],
     dw_port = None, dw_ifaces = None, dw_readyErr = None,
     dw_inbox = [Inr ((msg0 typePaired)\<lparr>m_peerAddr := ''host'', m_certFingerprint := ''fp''\<rparr>), Inr (msg0 typeGo)],
     dw_forceRelay = False, dw_punchStart = 2, dw_punch = [(3, ReadOk (natAddr 7) ''RTPUNCH-ACK'')] \<rparr>"

lemma dialWorld_direct:
  "dial (\<lambda>s. Some (natAddr 7)) dialParams dialWorld =
     (Some (Inr \<lparr> ds_role = roleClient, ds_conn = Direct, ds_peer = natAddr 7, ds_fp = ''fp'', ds_relayed = False \<rparr>),
      [helloMsg dialParams, readyMsg dialParams ''192.0.2.2:9'' []])"
  by (simp add: dial_def dialWorld_def dialParams_def checkReflected_def reflectedMsg_def proto_defs reflect_def
      magicAddr_def duration_defs connectPeer_def punch_def resolveCandidates_def punchTimeoutOf_def
      sameHostPort_def punchAck_def punchHello_def localCandidates_def Let_def)

lemma dial_session_grounded_witness:
  "\<exists>paired. Inr paired \<in> set (dw_inbox dialWorld) \<and> m_certFingerprint paired = ''fp''"
  using dial_session_grounded [OF dialWorld_direct] by auto

end
