(* ===== verification/Provenance.thy ===== *)
theory Provenance
  imports Path_Props Transport
begin

text \<open>
  Where what the server tells a peer about the other one comes from: the transition system of
  \<open>Server_System\<close> with the messages it has read, and with it the way of a host's certificate fingerprint
  to the client that pins it.
\<close>

section \<open>The server with what it has read\<close>

type_synonym heard = "(nat \<times> message) list"

fun hears :: "srv_event \<Rightarrow> heard" where
  "hears (EvMessage now c m) = [(c, m)]"
| "hears ev = []"

definition traced_init :: "server \<times> heard \<Rightarrow> bool" where
  "traced_init sh \<longleftrightarrow> srv_init (fst sh) \<and> snd sh = []"

definition traced_step :: "server \<times> heard \<Rightarrow> srv_event \<Rightarrow> server \<times> heard \<Rightarrow> bool" where
  "traced_step sh ev sh' \<longleftrightarrow> srv_step (fst sh) ev (fst sh') \<and> snd sh' = hears ev @ snd sh"

text \<open>What a connection is known by is from a \<open>ready\<close> read on it.\<close>

definition readyIn :: "heard \<Rightarrow> nat \<Rightarrow> peer_conn \<Rightarrow> bool" where
  "readyIn h c pc \<longleftrightarrow>
     (\<exists>r. (c, r) \<in> set h \<and> m_type r = typeReady \<and> pc_public pc = m_publicAddr r \<and> pc_local pc = m_localAddrs r \<and>
        pc_fp pc = m_certFingerprint r)"

text \<open>What a \<open>paired\<close> message says is from a \<open>ready\<close> read on a connection of the other role and the same code.\<close>

definition announced :: "heard \<Rightarrow> server \<Rightarrow> peer_conn \<Rightarrow> message \<Rightarrow> bool" where
  "announced h s pc m \<longleftrightarrow>
     (\<exists>i other r. sv_conns s i = Some other \<and> pc_code other = pc_code pc \<and> pc_sess other = pc_sess pc \<and>
        pc_role other \<noteq> pc_role pc \<and> (i, r) \<in> set h \<and> m_type r = typeReady \<and>
        m_peerAddr m = m_publicAddr r \<and> m_peerLocalAddrs m = m_localAddrs r \<and>
        (pc_role pc = roleClient \<longrightarrow> m_certFingerprint m = m_certFingerprint r))"

definition inv_ready :: "heard \<Rightarrow> server \<Rightarrow> bool" where
  "inv_ready h s \<longleftrightarrow> (\<forall>c pc. sv_conns s c = Some pc \<longrightarrow> pc_ready pc \<longrightarrow> readyIn h c pc)"

definition inv_announced :: "heard \<Rightarrow> server \<Rightarrow> bool" where
  "inv_announced h s \<longleftrightarrow>
     (\<forall>c pc m. sv_conns s c = Some pc \<longrightarrow> m \<in> set (sv_out s c) \<longrightarrow> m_type m = typePaired \<longrightarrow> announced h s pc m)"

definition traced_inv :: "server \<times> heard \<Rightarrow> bool" where
  "traced_inv sh \<longleftrightarrow> srv_inv (fst sh) \<and> inv_ready (snd sh) (fst sh) \<and> inv_announced (snd sh) (fst sh)"

section \<open>It is kept\<close>

definition sameConns :: "server \<Rightarrow> server \<Rightarrow> bool" where
  "sameConns s s' \<longleftrightarrow> (\<forall>c pc. sv_conns s c = Some pc \<longrightarrow> (\<exists>pc'. sv_conns s' c = Some pc' \<and> samePeer pc pc'))"

lemma sameConns_refl: "sv_conns s' = sv_conns s \<Longrightarrow> sameConns s s'"
  by (simp add: sameConns_def)

lemma announced_keep:
  assumes "announced h s pc m" "sameConns s s'" "samePeer pc pc'" "set h \<subseteq> set h'"
  shows "announced h' s' pc' m"
proof -
  obtain i other r where a: "sv_conns s i = Some other" "pc_code other = pc_code pc" "pc_sess other = pc_sess pc"
    "pc_role other \<noteq> pc_role pc" "(i, r) \<in> set h" "m_type r = typeReady" "m_peerAddr m = m_publicAddr r"
    "m_peerLocalAddrs m = m_localAddrs r" "pc_role pc = roleClient \<longrightarrow> m_certFingerprint m = m_certFingerprint r"
    using assms(1) unfolding announced_def by blast
  obtain other' where "sv_conns s' i = Some other'" "samePeer other other'"
    using assms(2) a(1) unfolding sameConns_def by blast
  then show ?thesis
    using a(2-9) assms(3,4) unfolding announced_def samePeer_def by (metis subsetD)
qed

lemma inv_announced_keep:
  assumes "inv_announced h s" "sameConns s s'" "set h \<subseteq> set h'"
    and "\<And>c pc' m. sv_conns s' c = Some pc' \<Longrightarrow> m \<in> set (sv_out s' c) \<Longrightarrow> m_type m = typePaired \<Longrightarrow>
      (\<exists>pc. sv_conns s c = Some pc \<and> samePeer pc pc' \<and> m \<in> set (sv_out s c)) \<or> announced h' s' pc' m"
  shows "inv_announced h' s'"
  unfolding inv_announced_def
proof (intro allI impI)
  fix c pc' m
  assume m: "sv_conns s' c = Some pc'" "m \<in> set (sv_out s' c)" "m_type m = typePaired"
  from assms(4) [OF this] show "announced h' s' pc' m"
  proof
    assume "\<exists>pc. sv_conns s c = Some pc \<and> samePeer pc pc' \<and> m \<in> set (sv_out s c)"
    then show ?thesis
      using assms(1-3) m(3) announced_keep unfolding inv_announced_def by blast
  qed
qed

lemma traced_hello:
  assumes "srv_inv s" "inv_ready h s" "inv_announced h s" "sv_conns s c = None" "sv_out s c = []"
  shows "inv_ready h (handleHello now c tok remote rh hello s) \<and> inv_announced h (handleHello now c tok remote rh hello s)"
    (is "inv_ready h ?s \<and> inv_announced h ?s")
  using assms(1)
proof (cases rule: handleHello_cases [where now = now and c = c and tok = tok and remote = remote
      and rh = rh and hello = hello])
  case (rejected e)
  have "inv_announced h ?s"
    by (rule inv_announced_keep [OF assms(3)]) (auto simp: rejected sameConns_def sv_out_wsSend assms(4) split: if_splits)
  then show ?thesis
    using assms(2) by (simp add: rejected inv_ready_def)
next
  case (registered m sid sess s1)
  note f = sessionFor_frame [OF registered(5)]
  have conns: "sv_conns ?s = (sv_conns s)(c \<mapsto> newPeer now tok remote m sid)"
    by (simp add: registered(10) register_def f newPeer_def)
  have outs: "sv_out ?s i = (if i = c then sv_out ?s c else sv_out s i)"
    "set (sv_out ?s c) \<subseteq> {reflectedMsg tok (publicUDP (sv_cfg s) rh)}" for i
    using assms(5) by (simp_all add: registered(10) register_def f sv_out_wsSend)
  have "inv_announced h ?s"
  proof (rule inv_announced_keep [OF assms(3)])
    show "sameConns s ?s"
      using assms(4) by (auto simp: sameConns_def conns)
  next
    fix i pc' q
    assume q: "sv_conns ?s i = Some pc'" "q \<in> set (sv_out ?s i)" "m_type q = typePaired"
    have "i \<noteq> c"
      using q(2,3) outs(2) by (auto simp: reflectedMsg_def proto_defs)
    then show "(\<exists>pc. sv_conns s i = Some pc \<and> samePeer pc pc' \<and> q \<in> set (sv_out s i)) \<or> announced h ?s pc' q"
      using q(1,2) outs(1) [of i] by (auto simp: conns)
  qed simp
  moreover have "inv_ready h ?s"
    using assms(2) by (auto simp: inv_ready_def conns newPeer_def)
  ultimately show ?thesis
    by blast
qed

lemma traced_leave:
  assumes "inv_ready h s" "inv_announced h s"
  shows "inv_ready h (handleLeave c s) \<and> inv_announced h (handleLeave c s)"
proof
  show "inv_ready h (handleLeave c s)"
    using assms(1) by (auto simp: inv_ready_def sv_conns_handleLeave readyIn_def split: if_splits)
  show "inv_announced h (handleLeave c s)"
    by (rule inv_announced_keep [OF assms(2)])
      (auto simp: sameConns_def sv_conns_handleLeave samePeer_def split: if_splits)
qed

lemma traced_close:
  assumes "inv_ready h s" "inv_announced h s"
  shows "inv_ready h (closeSession code s) \<and> inv_announced h (closeSession code s)"
proof
  show "inv_ready h (closeSession code s)"
    using assms(1) by (simp add: inv_ready_def)
  have "m \<in> set (sv_out s c)" if "m \<in> set (sv_out (closeSession code s) c)" "m_type m = typePaired" for m c
    using that sv_out_closeSession [of code s c] by (auto simp: errorMsg_def proto_defs)
  then show "inv_announced h (closeSession code s)"
    by (intro inv_announced_keep [OF assms(2)]) (auto simp: sameConns_def)
qed

lemma traced_pair:
  assumes inv: "srv_inv s" "inv_ready h s" "inv_announced h s"
    and ss: "sv_sheap s sid = Some sess" "mget (ss_peers sess) roleHost = Some a" "mget (ss_peers sess) roleClient = Some b"
    and conns: "sv_conns s a = Some host" "sv_conns s b = Some client" "pc_ready host" "pc_ready client"
  shows "inv_announced h (pairPeers now sid sess a host b client s)" (is "inv_announced h ?s")
proof (rule inv_announced_keep [OF inv(3)])
  have ro: "pc_role host = roleHost" "pc_sess host = sid" "pc_role client = roleClient" "pc_sess client = sid"
    using srv_inv_heapD(3) [OF inv(1) ss(1,2)] srv_inv_heapD(3) [OF inv(1) ss(1,3)] conns by auto
  have roles: "roleHost \<noteq> roleClient"
    by (simp add: roleHost_def roleClient_def)
  then have ab: "a \<noteq> b"
    using ro conns by auto
  have code: "pc_code host = pc_code client"
    using srv_inv_connD(3) [OF inv(1) conns(1)] srv_inv_connD(3) [OF inv(1) conns(2)] ro by auto
  have ready: "readyIn h a host" "readyIn h b client"
    using inv(2) conns unfolding inv_ready_def by blast+
  have sent: "announced h ?s host (pairedToHost host client)" "announced h ?s client (pairedToClient host client)"
    using ready conns(1,2) code ro roles unfolding announced_def readyIn_def pairedToHost_def pairedToClient_def
    by (fastforce simp: msg0_def)+
  fix i pc' m
  assume m: "sv_conns ?s i = Some pc'" "m \<in> set (sv_out ?s i)" "m_type m = typePaired"
  have "m_type (msg0 typeGo) \<noteq> typePaired"
    by (simp add: proto_defs)
  then have "m \<in> set (sv_out s i) \<or> i = a \<and> m = pairedToHost host client \<or> i = b \<and> m = pairedToClient host client"
    using m(2,3) by (auto simp: sv_out_pairPeers [OF ab] split: if_splits)
  then show "(\<exists>pc. sv_conns s i = Some pc \<and> samePeer pc pc' \<and> m \<in> set (sv_out s i)) \<or> announced h ?s pc' m"
    using m(1) sent conns(1,2) by auto
qed (simp_all add: sameConns_refl)

lemma traced_message:
  assumes inv: "srv_inv s" "inv_ready h s" "inv_announced h s"
  shows "inv_ready ((c, m) # h) (handleMessage now c m s) \<and> inv_announced ((c, m) # h) (handleMessage now c m s)"
proof (cases "\<exists>pc. sv_conns s c = Some pc \<and> m_type m = typeReady")
  case False
  then have "handleMessage now c m s = s"
    by (auto simp: handleMessage_def split: option.split)
  moreover have "inv_announced ((c, m) # h) s"
    by (rule inv_announced_keep [OF inv(3)]) (auto simp: sameConns_refl)
  ultimately show ?thesis
    using inv(2) by (auto simp: inv_ready_def readyIn_def)
next
  case True
  then obtain pc where pc: "sv_conns s c = Some pc" "m_type m = typeReady"
    by blast
  let ?s1 = "setConn c (withReady m pc) s"
  have same: "samePeer pc (withReady m pc)"
    by (simp add: samePeer_def withReady_def)
  have 1: "srv_inv ?s1" "inv_ready ((c, m) # h) ?s1" "inv_announced ((c, m) # h) ?s1"
  proof -
    show "srv_inv ?s1"
      by (rule srv_inv_setConn [OF inv(1) pc(1) same])
    show "inv_ready ((c, m) # h) ?s1"
      using inv(2) pc by (auto simp: inv_ready_def readyIn_def withReady_def split: if_splits)
    show "inv_announced ((c, m) # h) ?s1"
      by (rule inv_announced_keep [OF inv(3)]) (use pc(1) same in \<open>auto simp: sameConns_def split: if_splits\<close>)
  qed
  have "inv_ready ((c, m) # h) (tryPair now (pc_sess pc) ?s1) \<and> inv_announced ((c, m) # h) (tryPair now (pc_sess pc) ?s1)"
    using 1 traced_pair [OF 1]
    by (cases rule: tryPair_cases [of now "pc_sess pc" ?s1]) (auto simp: inv_ready_def)
  then show ?thesis
    by (simp add: handleMessage_ready [OF pc])
qed

lemma traced_frame:
  assumes "inv_ready h s" "inv_announced h s" "sv_conns s' = sv_conns s" "sv_out s' = sv_out s"
  shows "inv_ready h s' \<and> inv_announced h s'"
  using assms by (simp add: inv_ready_def inv_announced_def announced_def)

interpretation traced: invariant_system traced_init traced_step traced_inv
proof
  fix x y :: "server \<times> heard" and ev :: srv_event
  show "traced_init x \<Longrightarrow> traced_inv x"
    by (auto simp: traced_init_def traced_inv_def srv_inv_init srv_init_def inv_ready_def inv_announced_def newServer_def)
  assume a: "traced_inv x" "traced_step x ev y"
  obtain s h s' h' where x: "x = (s, h)" "y = (s', h')"
    by (cases x, cases y)
  have inv: "srv_inv s" "inv_ready h s" "inv_announced h s" and st: "srv_step s ev s'" "h' = hears ev @ h"
    using a by (simp_all add: x traced_inv_def traced_step_def)
  note frame = traced_frame [OF inv(2,3)]
  from st(1) have "inv_ready h' s' \<and> inv_announced h' s'"
    by (cases rule: srv_step_cases)
      (simp_all add: st(2) traced_hello [OF inv] traced_message [OF inv] traced_leave [OF inv(2,3)] traced_close [OF inv(2,3)] frame)
  then show "traced_inv y"
    using srv.inv_step [OF inv(1) st(1)] by (simp add: x traced_inv_def)
qed

lemma traced_reach: "reach traced_init traced_step x \<Longrightarrow> reach srv_init srv_step (fst x)"
  by (induction rule: reach.induct) (auto simp: traced_init_def traced_step_def intro: reach.intros)

section \<open>From the host's certificate to the client's pin\<close>

lemma paired_announced:
  assumes "reach traced_init traced_step (s, heard)" "sv_conns s c = Some pc" "m \<in> set (sv_out s c)" "m_type m = typePaired"
  shows "announced heard s pc m"
  using traced.reach_inv [OF assms(1)] assms(2-4) by (simp add: traced_inv_def inv_announced_def)

text \<open>A client that reads what the server wrote on its connection: its token, and where \<open>paired\<close> came from.\<close>

lemma dial_announced:
  assumes "reach traced_init traced_step (s, heard)" "sv_conns s c = Some pc"
    and "dw_first w # dw_inbox w = map Inr (take n (sv_out s c))"
  shows "checkReflected (dw_first w) = Inr (tok, addr) \<Longrightarrow> tok = pc_token pc"
    and "Inr m \<in> set (dw_inbox w) \<Longrightarrow> m_type m = typePaired \<Longrightarrow> announced heard s pc m"
proof -
  have "outOk s c pc"
    using srv_out.reach_inv [OF traced_reach [OF assms(1)]] assms(2) by (simp add: srv_inv_out_def inv_out_def)
  then obtain a rest where out: "sv_out s c = reflectedMsg (pc_token pc) a # rest"
    unfolding outOk_def by blast
  then obtain k where "n = Suc k"
    using assms(3) by (cases n) auto
  then have w: "dw_first w = Inr (reflectedMsg (pc_token pc) a)" "dw_inbox w = map Inr (take k rest)"
    using assms(3) out by simp_all
  show "checkReflected (dw_first w) = Inr (tok, addr) \<Longrightarrow> tok = pc_token pc"
    by (simp add: w(1) checkReflected_def reflectedMsg_def proto_defs split: if_splits)
  show "Inr m \<in> set (dw_inbox w) \<Longrightarrow> m_type m = typePaired \<Longrightarrow> announced heard s pc m"
    using paired_announced [OF assms(1,2)] out by (auto simp: w(2) dest: in_set_takeD)
qed

text \<open>
  C2: A client ends up with the host that announced itself under its code, through server, path and
  transport. Take any reachable state of the server, with the messages it has read to get there, and a
  client's \<open>Dial\<close> that was answered with what the server wrote on the client's connection. If it succeeds
  and the transport then connects (the TLS library honours the certificate callback), some connection
  that registered as host under the client's code has sent a \<open>ready\<close> such that the certificate the client
  was presented has the fingerprint it announced, so the SHA-256 of any certificate generated with that
  fingerprint; a direct connection goes to an address that \<open>ready\<close> announced, and a relayed one goes
  out under the client's own token.
\<close>

theorem client_reaches_announcing_host:
  assumes "reach traced_init traced_step (s, heard)" "sv_conns s c = Some pc" "pc_role pc = roleClient"
    and "dw_first w # dw_inbox w = map Inr (take n (sv_out s c))"
    and "dial resolve p w = (Some (Inr sess), sent)"
    and tls: "\<forall>a proto verify k. quic a proto verify = Inr k \<longrightarrow> verify (presented k) = None"
    and conn: "transportDial sha quic sess = Inr k"
  shows "\<exists>i host r leaf rest. sv_conns s i = Some host \<and> pc_role host = roleHost \<and> pc_code host = pc_code pc \<and>
    (i, r) \<in> set heard \<and> m_type r = typeReady \<and>
    presented k = leaf # rest \<and> fingerprint sha leaf = m_certFingerprint r \<and>
    (\<forall>keyErr created certs. generateCert sha keyErr created = Inr (certs, m_certFingerprint r) \<longrightarrow>
       (\<exists>der. created = Inr der \<and> certs = [der] \<and> sha leaf = sha der)) \<and>
    (if ds_relayed sess then ds_conn sess = Relayed \<lparr> rc_server = ds_peer sess, rc_token = pc_token pc \<rparr>
     else ds_conn sess = Direct \<and> (\<exists>a \<in> set (m_publicAddr r # m_localAddrs r). a \<noteq> [] \<and> resolve a = Some (ds_peer sess)))"
proof -
  obtain token relayAddr paired where d: "checkReflected (dw_first w) = Inr (token, relayAddr)"
    "Inr paired \<in> set (dw_inbox w)" "m_type paired = typePaired" "ds_fp sess = m_certFingerprint paired"
    and way: "if ds_relayed sess then ds_conn sess = Relayed \<lparr> rc_server = ds_peer sess, rc_token = token \<rparr>
      else ds_conn sess = Direct \<and>
        (\<exists>a \<in> set (m_peerAddr paired # m_peerLocalAddrs paired). a \<noteq> [] \<and> resolve a = Some (ds_peer sess))"
    using dial_session_grounded [OF assms(5)]
    by (elim exE conjE) (rule that, assumption+, simp split: if_splits)
  have token: "token = pc_token pc"
    using dial_announced(1) [OF assms(1,2,4) d(1)] .
  have roles: "pc_role other = roleHost" if "sv_conns s i = Some other" "pc_role other \<noteq> pc_role pc" for i other
    using srv_inv_connD(2) [OF srv.reach_inv [OF traced_reach [OF assms(1)]]] that assms(3) by force
  obtain i host r where h: "sv_conns s i = Some host" "pc_role host = roleHost" "pc_code host = pc_code pc"
    "(i, r) \<in> set heard" "m_type r = typeReady" "m_peerAddr paired = m_publicAddr r"
    "m_peerLocalAddrs paired = m_localAddrs r" "m_certFingerprint paired = m_certFingerprint r"
    using dial_announced(2) [OF assms(1,2,4) d(2,3)] roles assms(3) unfolding announced_def by metis
  obtain leaf rest where leaf: "presented k = leaf # rest" "m_certFingerprint r = fingerprint sha leaf"
    using pinned_leaf [OF conn tls] d(4) h(8) by metis
  have "\<exists>der. created = Inr der \<and> certs = [der] \<and> sha leaf = sha der"
    if "generateCert sha keyErr created = Inr (certs, m_certFingerprint r)" for keyErr created certs
    using generated_leaf that leaf(2) by metis
  then show ?thesis
    using h(1-5) leaf way [unfolded token h(6,7)] by metis
qed

lemma reach_traced: "reach srv_init srv_step s \<Longrightarrow> \<exists>h. reach traced_init traced_step (s, h)"
proof (induction rule: reach.induct)
  case (reach_init s)
  then have "reach traced_init traced_step (s, [])"
    by (intro reach.reach_init) (simp add: traced_init_def)
  then show ?case ..
next
  case (reach_step s ev t)
  then obtain h where h: "reach traced_init traced_step (s, h)"
    by blast
  have "traced_step (s, h) ev (t, hears ev @ h)"
    using reach_step.hyps(2) by (simp add: traced_step_def)
  then show ?case
    using reach.reach_step [OF h] by blast
qed

definition provReady :: "nat \<Rightarrow> message" where
  "provReady i = (if i = 0 then readyFrom ''192.0.2.1:4000'' ''41'' else readyFrom ''192.0.2.2:4000'' [])"

definition prov4 :: server where
  "prov4 = handleMessage 4 1 (provReady 1) (handleMessage 3 0 (provReady 0) run2)"

definition provWorld :: dial_world where
  "provWorld = pinWorld\<lparr>dw_first := Inr (hd (sv_out prov4 1)), dw_inbox := map Inr (tl (sv_out prov4 1))\<rparr>"

lemma prov4_reached:
  "\<exists>h. reach traced_init traced_step (prov4, (1, provReady 1) # (0, provReady 0) # h)"
proof -
  obtain h where h: "reach traced_init traced_step (run2, h)"
    using reach_traced [OF reach_run2] by blast
  let ?s3 = "handleMessage 3 0 (provReady 0) run2"
  have "srv_step run2 (EvMessage 3 0 (provReady 0)) ?s3"
    by (rule step_message) (auto simp: run_defs go_defs)
  then have "traced_step (run2, h) (EvMessage 3 0 (provReady 0)) (?s3, (0, provReady 0) # h)"
    by (simp add: traced_step_def)
  note 1 = reach_step [OF h this]
  have "srv_step ?s3 (EvMessage 4 1 (provReady 1)) prov4"
    unfolding prov4_def by (rule step_message) (auto simp: provReady_def run_defs go_defs)
  then have "traced_step (?s3, (0, provReady 0) # h) (EvMessage 4 1 (provReady 1))
      (prov4, (1, provReady 1) # (0, provReady 0) # h)"
    by (simp add: traced_step_def)
  then show ?thesis
    using reach_step [OF 1] by blast
qed

lemma prov4_client:
  "\<exists>pc addr paired. sv_conns prov4 1 = Some pc \<and> pc_role pc = roleClient \<and> pc_code pc = ''k'' \<and> addr \<noteq> [] \<and>
     sv_out prov4 1 = [reflectedMsg (runTok (CHR ''b'')) addr, paired, msg0 typeGo] \<and> m_type paired = typePaired \<and>
     m_peerAddr paired \<noteq> [] \<and> m_certFingerprint paired = ''41''"
  by (simp add: prov4_def provReady_def run_defs go_defs)

theorem client_reaches_announcing_host_witness:
  "\<exists>sess sent. dial (\<lambda>s. Some pinAddr) pinParams provWorld = (Some (Inr sess), sent) \<and>
     transportDial (take 1) pinQuic sess = Inr [''A''] \<and>
     (\<exists>i host. sv_conns prov4 i = Some host \<and> pc_role host = roleHost \<and> pc_code host = ''k'')"
proof -
  obtain h where h: "reach traced_init traced_step (prov4, (1, provReady 1) # (0, provReady 0) # h)"
    using prov4_reached by blast
  obtain pc addr paired where pc: "sv_conns prov4 1 = Some pc" "pc_role pc = roleClient" "pc_code pc = ''k''" "addr \<noteq> []"
    and out: "sv_out prov4 1 = [reflectedMsg (runTok (CHR ''b'')) addr, paired, msg0 typeGo]" "m_type paired = typePaired"
    and paired: "m_peerAddr paired \<noteq> []" "m_certFingerprint paired = ''41''"
    using prov4_client by blast
  have reads: "dw_first provWorld # dw_inbox provWorld = map Inr (take 3 (sv_out prov4 1))"
    using out(1) by (simp add: provWorld_def)
  have world: "provWorld = pinWorld\<lparr>dw_first := Inr (reflectedMsg (runTok (CHR ''b'')) addr),
      dw_inbox := [Inr paired, Inr (msg0 typeGo)]\<rparr>"
    using out(1) by (simp add: provWorld_def)
  obtain sess sent where d: "dial (\<lambda>s. Some pinAddr) pinParams provWorld = (Some (Inr sess), sent)" "ds_fp sess = ''41''"
    using pc(4) out(2) paired by (simp add: world runTok_def tokenLen_def dial_def pinWorld_def pinParams_def checkReflected_def
      reflectedMsg_def proto_defs reflect_def magicAddr_def duration_defs connectPeer_def newRelayConn_def
      sameHostPort_def localCandidates_def pinAddr_def Let_def)
  have c: "transportDial (take 1) pinQuic sess = Inr [''A'']"
    by (simp add: transportDial_def d(2) pinQuic_def verifyPinned_def fingerprint_def hexEncode_def
        hexDigitLower_def char_of_eq_iff Let_def)
  show ?thesis
    using client_reaches_announcing_host [OF h pc(1,2) reads d(1) pinQuic_checks c] d(1) c pc(3) by auto
qed

end
