(* ===== verification/Go_Base64.thy ===== *)
theory Go_Base64
  imports Go_Strings
begin

text \<open>
  \<open>base64.RawStdEncoding\<close>: the standard alphabet without padding. Decoding skips carriage returns and
  line feeds, refuses any other character outside the alphabet and a single left-over character, and
  ignores the unused bits of the last one, as the library does when it is not strict.
\<close>

definition b64Alphabet :: string where
  "b64Alphabet = ''ABCDEFGHIJKLMNOPQRSTUVWXYZabcdefghijklmnopqrstuvwxyz0123456789+/''"

definition b64Char :: "nat \<Rightarrow> char" where
  "b64Char n = b64Alphabet ! n"

definition b64Index :: "char \<Rightarrow> nat option" where
  "b64Index c = indexByte c b64Alphabet"

definition byteOf :: "char \<Rightarrow> nat" where
  "byteOf c = of_char c"

fun b64Encode :: "string \<Rightarrow> string" where
  "b64Encode [] = []"
| "b64Encode [a] = [b64Char (byteOf a div 4), b64Char (byteOf a mod 4 * 16)]"
| "b64Encode [a, b] =
     [b64Char (byteOf a div 4), b64Char (byteOf a mod 4 * 16 + byteOf b div 16),
      b64Char (byteOf b mod 16 * 4)]"
| "b64Encode (a # b # c # rest) =
     b64Char (byteOf a div 4) # b64Char (byteOf a mod 4 * 16 + byteOf b div 16) #
     b64Char (byteOf b mod 16 * 4 + byteOf c div 64) # b64Char (byteOf c mod 64) # b64Encode rest"

fun b64DecodeClean :: "string \<Rightarrow> string option" where
  "b64DecodeClean [] = Some []"
| "b64DecodeClean [p] = None"
| "b64DecodeClean [p, q] =
     (case (b64Index p, b64Index q) of
        (Some i, Some j) \<Rightarrow> Some [char_of (i * 4 + j div 16)]
      | _ \<Rightarrow> None)"
| "b64DecodeClean [p, q, r] =
     (case (b64Index p, b64Index q, b64Index r) of
        (Some i, Some j, Some k) \<Rightarrow> Some [char_of (i * 4 + j div 16), char_of (j mod 16 * 16 + k div 4)]
      | _ \<Rightarrow> None)"
| "b64DecodeClean (p # q # r # t # rest) =
     (case (b64Index p, b64Index q, b64Index r, b64Index t, b64DecodeClean rest) of
        (Some i, Some j, Some k, Some l, Some out) \<Rightarrow>
          Some (char_of (i * 4 + j div 16) # char_of (j mod 16 * 16 + k div 4) # char_of (k mod 4 * 64 + l) # out)
      | _ \<Rightarrow> None)"

definition b64Decode :: "string \<Rightarrow> string option" where
  "b64Decode s = b64DecodeClean (filter (\<lambda>c. c \<noteq> CHR 0x0A \<and> c \<noteq> CHR 0x0D) s)"

lemma b64_table: "list_all (\<lambda>n. b64Index (b64Char n) = Some n) [0..<64]"
  by code_simp

lemma b64Index_Char [simp]: "n < 64 \<Longrightarrow> b64Index (b64Char n) = Some n"
  using b64_table by (auto simp: list_all_iff)

lemma byteOf_less [simp]: "byteOf c < 256"
  by (simp add: byteOf_def)

lemma length_b64Alphabet: "length b64Alphabet = 64"
  by code_simp

lemma b64Char_in: "n < 64 \<Longrightarrow> b64Char n \<in> set b64Alphabet"
  unfolding b64Char_def by (rule nth_mem) (simp add: length_b64Alphabet)

lemma byteOf_div: "byteOf c div 4 < 64" "byteOf c div 16 < 16" "byteOf c div 64 < 4"
  by (rule less_mult_imp_div_less, simp)+

lemma byteOf_bounds [simp]:
  "byteOf c div 4 < 64" "byteOf c mod 4 * 16 < 64" "byteOf c mod 4 * 16 + byteOf d div 16 < 64"
  "byteOf c mod 16 * 4 < 64" "byteOf c mod 16 * 4 + byteOf d div 64 < 64" "byteOf c mod 64 < 64"
proof -
  have "byteOf c mod 4 < 4" "byteOf c mod 16 < 16"
    by simp_all
  then show "byteOf c div 4 < 64" "byteOf c mod 4 * 16 < 64" "byteOf c mod 4 * 16 + byteOf d div 16 < 64"
    "byteOf c mod 16 * 4 < 64" "byteOf c mod 16 * 4 + byteOf d div 64 < 64" "byteOf c mod 64 < 64"
    using byteOf_div [of c] byteOf_div [of d] by linarith+
qed

lemma b64Encode_set: "set (b64Encode s) \<subseteq> set b64Alphabet"
  by (induction s rule: b64Encode.induct) (simp_all add: b64Char_in)

lemma char_of_byteOf [simp]: "char_of (byteOf c) = c"
  by (simp add: byteOf_def)

lemma b64DecodeClean_Encode: "b64DecodeClean (b64Encode s) = Some s"
proof (induction s rule: b64Encode.induct)
  case (2 a)
  have "byteOf a div 4 * 4 + byteOf a mod 4 * 16 div 16 = byteOf a"
    by simp
  then show ?case by simp
next
  case (3 a b)
  note byteOf_div [of b]
  then have "byteOf a div 4 * 4 + (byteOf a mod 4 * 16 + byteOf b div 16) div 16 = byteOf a"
    "(byteOf a mod 4 * 16 + byteOf b div 16) mod 16 * 16 + byteOf b mod 16 * 4 div 4 = byteOf b"
    by simp_all
  then show ?case by simp
next
  case (4 a b c rest)
  note byteOf_div [of b] byteOf_div [of c]
  then have "byteOf a div 4 * 4 + (byteOf a mod 4 * 16 + byteOf b div 16) div 16 = byteOf a"
    "(byteOf a mod 4 * 16 + byteOf b div 16) mod 16 * 16 + (byteOf b mod 16 * 4 + byteOf c div 64) div 4 = byteOf b"
    "(byteOf b mod 16 * 4 + byteOf c div 64) mod 4 * 64 + byteOf c mod 64 = byteOf c"
    by simp_all
  then show ?case using 4 by simp
qed simp

lemma b64Alphabet_plain:
  "CHR 0x0A \<notin> set b64Alphabet" "CHR 0x0D \<notin> set b64Alphabet" "CHR ''$'' \<notin> set b64Alphabet"
  by (simp_all add: b64Alphabet_def)

text \<open>Decoding undoes encoding, on every byte string.\<close>

lemma b64Decode_Encode [simp]: "b64Decode (b64Encode s) = Some s"
proof -
  have "filter (\<lambda>c. c \<noteq> CHR 0x0A \<and> c \<noteq> CHR 0x0D) (b64Encode s) = b64Encode s"
    using b64Encode_set [of s] b64Alphabet_plain by (intro filter_True) auto
  then show ?thesis
    by (simp add: b64Decode_def b64DecodeClean_Encode)
qed

lemma b64Encode_no_dollar [simp]: "CHR ''$'' \<notin> set (b64Encode s)"
  using b64Encode_set [of s] b64Alphabet_plain by auto

end
