(* ===== verification/Admin_Auth.thy ===== *)
theory Admin_Auth
  imports Server_State Go_Base64 Go_Text
begin

text \<open>
  Signing in as the administrator (\<open>internal/signal/admin.go\<close>): the session store \<open>adminAuth\<close>, the
  password hash, the account's name, and the four handlers under \<open>/api/v1/auth\<close>.

  Parameters of the model are code that is not in the repository: \<open>L\<close>, Go's Unicode case table above
  ASCII; \<open>kdf\<close>, \<open>pbkdf2.Key\<close> with SHA-256 (password, salt, iterations, key length), which may fail.
  Random tokens and salts, the clock, and the decoded JSON body (nothing when it is malformed) are
  arguments of the handlers.
\<close>

section \<open>Requests and responses\<close>

text \<open>
  What the handlers read of a request: the administrator cookie's value, \<open>Host\<close>, the remote address,
  whether it came over TLS, the two forwarded headers (empty when absent), the path value and the
  \<open>idle_for\<close> query parameter.
\<close>

record http_request =
  rq_cookie :: "string option"
  rq_host :: string
  rq_remote :: string
  rq_tls :: bool
  rq_forwardedProto :: string
  rq_forwardedFor :: string
  rq_path :: string
  rq_idleFor :: string

datatype 'b http_body = EmptyBody | ErrorBody string | JsonBody 'b

record cookie =
  ck_value :: string
  ck_expires :: "time option"
  ck_secure :: bool

record 'b http_response =
  rs_status :: nat
  rs_body :: "'b http_body"
  rs_cookie :: "cookie option"

definition writeJSON :: "nat \<Rightarrow> 'b \<Rightarrow> 'b http_response" where
  "writeJSON status v = \<lparr> rs_status = status, rs_body = JsonBody v, rs_cookie = None \<rparr>"

definition writeJSONError :: "nat \<Rightarrow> string \<Rightarrow> 'b http_response" where
  "writeJSONError status msg = \<lparr> rs_status = status, rs_body = ErrorBody msg, rs_cookie = None \<rparr>"

definition noContent :: "'b http_response" where
  "noContent = \<lparr> rs_status = 204, rs_body = EmptyBody, rs_cookie = None \<rparr>"

lemmas http_defs [go_defs] = writeJSON_def writeJSONError_def noContent_def

section \<open>Constants\<close>

definition defaultAdminUsername :: string where "defaultAdminUsername = ''admin''"
definition initialAdminPassword :: string where "initialAdminPassword = ''admin''"
definition minUsernameChars :: nat where "minUsernameChars = 3"
definition maxUsernameChars :: nat where "maxUsernameChars = 32"
definition pbkdf2Iterations :: int where "pbkdf2Iterations = 600000"
definition pbkdf2KeyLength :: nat where "pbkdf2KeyLength = 32"
definition minPasswordChars :: nat where "minPasswordChars = 8"
definition errBadCredentials :: string where "errBadCredentials = ''invalid username or password''"

lemmas admin_consts [go_defs] =
  defaultAdminUsername_def initialAdminPassword_def minUsernameChars_def maxUsernameChars_def
  pbkdf2Iterations_def pbkdf2KeyLength_def minPasswordChars_def errBadCredentials_def

section \<open>The session store\<close>

definition reapLocked :: "time \<Rightarrow> admin_auth \<Rightarrow> admin_auth" where
  "reapLocked now a = a\<lparr>aa_sessions := msweep (\<lambda>token s. as_expires s < now) (aa_sessions a)\<rparr>"

definition issue :: "time \<Rightarrow> string \<Rightarrow> string \<Rightarrow> bool \<Rightarrow> admin_auth \<Rightarrow> admin_auth \<times> time" where
  "issue now token username mustChange a =
     (let expires = now + aa_ttl a;
          a = reapLocked now a
      in (a\<lparr>aa_sessions := mput token
             \<lparr> as_username = username, as_expires = expires, as_mustChangePassword = mustChange \<rparr> (aa_sessions a)\<rparr>,
          expires))"

definition lookup :: "time \<Rightarrow> string \<Rightarrow> admin_auth \<Rightarrow> admin_auth \<times> admin_session option" where
  "lookup now token a =
     (case mget (aa_sessions a) token of
        Some s \<Rightarrow>
          if as_expires s < now then (a\<lparr>aa_sessions := mdel token (aa_sessions a)\<rparr>, None)
          else (a, Some s)
      | None \<Rightarrow> (a\<lparr>aa_sessions := mdel token (aa_sessions a)\<rparr>, None))"

definition revoke :: "string \<Rightarrow> admin_auth \<Rightarrow> admin_auth" where
  "revoke token a = a\<lparr>aa_sessions := mdel token (aa_sessions a)\<rparr>"

definition renameStep ::
  "string \<Rightarrow> string \<Rightarrow> string \<times> admin_session \<Rightarrow> (string, admin_session) gomap \<Rightarrow> (string, admin_session) gomap" where
  "renameStep keep username e m =
     (if fst e \<noteq> keep then mdel (fst e) m
      else mput (fst e) ((snd e)\<lparr>as_username := username, as_mustChangePassword := False\<rparr>) m)"

definition rename :: "string \<Rightarrow> string \<Rightarrow> admin_auth \<Rightarrow> admin_auth" where
  "rename keep username a =
     a\<lparr>aa_sessions := fold (renameStep keep username) (mentries (aa_sessions a)) (aa_sessions a)\<rparr>"

lemmas authstore_defs [go_defs] =
  reapLocked_def issue_def lookup_def revoke_def renameStep_def rename_def

lemma mget_fold_renameStep:
  assumes "distinct (map fst es)"
  shows "mget (fold (renameStep keep u) es m) t =
    (case map_of es t of
       None \<Rightarrow> mget m t
     | Some s \<Rightarrow> if t = keep then Some (s\<lparr>as_username := u, as_mustChangePassword := False\<rparr>) else None)"
  using assms
proof (induction es arbitrary: m)
  case (Cons e es)
  then show ?case
    by (cases e) (auto simp: renameStep_def map_of_eq_None_iff [symmetric] split: option.split)
qed simp

text \<open>Renaming keeps one session, under the new name, and no other.\<close>

lemma mget_rename:
  assumes "mwf (aa_sessions a)"
  shows "mget (aa_sessions (rename keep u a)) t =
    (if t = keep then map_option (\<lambda>s. s\<lparr>as_username := u, as_mustChangePassword := False\<rparr>) (mget (aa_sessions a) t)
     else None)"
  using assms unfolding rename_def
  by (simp add: mget_fold_renameStep mwf_def mentries_def) (simp add: mget_def split: option.split)

lemma mwf_rename: "mwf (aa_sessions a) \<Longrightarrow> mwf (aa_sessions (rename keep u a))"
proof -
  have "mwf m \<Longrightarrow> mwf (fold (renameStep keep u) es m)" for es m
    by (induction es arbitrary: m) (simp_all add: renameStep_def)
  then show "mwf (aa_sessions a) \<Longrightarrow> ?thesis"
    by (simp add: rename_def)
qed

section \<open>Passwords\<close>

type_synonym kdf = "string \<Rightarrow> string \<Rightarrow> int \<Rightarrow> nat \<Rightarrow> string option"

text \<open>The documented contract of \<open>pbkdf2.Key\<close>: a derived key has the length asked for.\<close>

definition kdfLaw :: "kdf \<Rightarrow> bool" where
  "kdfLaw kdf \<longleftrightarrow> (\<forall>p s i n k. kdf p s i n = Some k \<longrightarrow> length k = n)"

text \<open>\<open>hashPassword\<close>, with the salt that \<open>rand.Read\<close> drew.\<close>

definition hashPassword :: "kdf \<Rightarrow> string \<Rightarrow> string \<Rightarrow> string option" where
  "hashPassword kdf salt password =
     (case kdf password salt pbkdf2Iterations pbkdf2KeyLength of
        None \<Rightarrow> None
      | Some key \<Rightarrow>
          Some (''pbkdf2-sha256$'' @ itoa pbkdf2Iterations @ ''$'' @ b64Encode salt @ ''$'' @ b64Encode key))"

definition verifyPassword :: "kdf \<Rightarrow> string \<Rightarrow> string \<Rightarrow> bool" where
  "verifyPassword kdf encoded password =
     (case splitOn (CHR ''$'') encoded of
        [p0, p1, p2, p3] \<Rightarrow>
          if p0 \<noteq> ''pbkdf2-sha256'' then False
          else
            (case atoi p1 of
               None \<Rightarrow> False
             | Some iterations \<Rightarrow>
                 if iterations \<le> 0 then False
                 else
                   (case (b64Decode p2, b64Decode p3) of
                      (Some salt, Some want) \<Rightarrow>
                        (case kdf password salt iterations (length want) of
                           None \<Rightarrow> False
                         | Some got \<Rightarrow> got = want)
                    | _ \<Rightarrow> False))
      | _ \<Rightarrow> False)"

lemmas password_defs [go_defs] = hashPassword_def verifyPassword_def

lemma splitOn_hash:
  "splitOn (CHR ''$'') (''pbkdf2-sha256$'' @ itoa n @ ''$'' @ b64Encode salt @ ''$'' @ b64Encode key) =
     [''pbkdf2-sha256'', itoa n, b64Encode salt, b64Encode key]"
proof -
  have n: "CHR ''$'' \<notin> set (itoa n)"
    by (simp add: itoa_def) (use natToDec_set [of "CHR ''$''"] in \<open>auto simp: isDigit_def\<close>)
  have "splitOn (CHR ''$'') (''pbkdf2-sha256'' @ CHR ''$'' # itoa n @ CHR ''$'' # b64Encode salt @ CHR ''$'' # b64Encode key) =
     [''pbkdf2-sha256'', itoa n, b64Encode salt, b64Encode key]"
    by (subst splitOn_append_sep, simp)
      (simp only: splitOn_append_sep [OF n] splitOn_append_sep [OF b64Encode_no_dollar] splitOn_no_sep [OF b64Encode_no_dollar])
  then show ?thesis
    by simp
qed

text \<open>A stored hash accepts exactly the passwords whose derived key is the stored one.\<close>

lemma verifyPassword_hash:
  assumes "kdfLaw kdf"
    and "hashPassword kdf salt password = Some h"
  shows "verifyPassword kdf h q \<longleftrightarrow>
    kdf q salt pbkdf2Iterations pbkdf2KeyLength = kdf password salt pbkdf2Iterations pbkdf2KeyLength"
proof -
  obtain key where k: "kdf password salt pbkdf2Iterations pbkdf2KeyLength = Some key"
    "h = ''pbkdf2-sha256$'' @ itoa pbkdf2Iterations @ ''$'' @ b64Encode salt @ ''$'' @ b64Encode key"
    using assms(2) by (auto simp: hashPassword_def split: option.splits)
  have "atoi (itoa pbkdf2Iterations) = Some pbkdf2Iterations"
    by (rule atoi_itoa) (simp_all add: pbkdf2Iterations_def)
  moreover have "length key = pbkdf2KeyLength"
    using assms(1) k(1) unfolding kdfLaw_def by blast
  ultimately show ?thesis
    unfolding k(2) verifyPassword_def splitOn_hash
    using k(1) by (auto simp: pbkdf2Iterations_def split: option.split)
qed

lemma hashPassword_ne_Nil: "hashPassword kdf salt p = Some h \<Longrightarrow> h \<noteq> []"
  by (auto simp: hashPassword_def split: option.splits)

section \<open>The account\<close>

definition adminUsername :: "server \<Rightarrow> string" where
  "adminUsername s =
     (if ac_username (cf_admin (sv_cfg s)) \<noteq> [] then ac_username (cf_admin (sv_cfg s))
      else defaultAdminUsername)"

definition normalizeUsername :: "(nat \<Rightarrow> nat) \<Rightarrow> string \<Rightarrow> string" where
  "normalizeUsername L name = toLower L (trimSpace name)"

definition usernameRune :: "nat \<Rightarrow> bool" where
  "usernameRune r \<longleftrightarrow> (0x61 \<le> r \<and> r \<le> 0x7A) \<or> (0x30 \<le> r \<and> r \<le> 0x39) \<or> r = 0x2E \<or> r = 0x2D \<or> r = 0x5F"

definition validateUsername :: "string \<Rightarrow> string option" where
  "validateUsername name =
     (if length name < minUsernameChars then
        Some (''the username must be at least '' @ itoa (int minUsernameChars) @ '' characters'')
      else if maxUsernameChars < length name then
        Some (''the username must be at most '' @ itoa (int maxUsernameChars) @ '' characters'')
      else if list_all usernameRune (runes name) then None
      else Some ''the username may use letters, digits, dot, dash and underscore only'')"

definition passwordUnset :: "server \<Rightarrow> bool" where
  "passwordUnset s \<longleftrightarrow> ac_passwordHash (cf_admin (sv_cfg s)) = []"

text \<open>The flag is whether the default password was what let them in; an error is on the left.\<close>

definition checkAdminPassword ::
  "(nat \<Rightarrow> nat) \<Rightarrow> kdf \<Rightarrow> string \<Rightarrow> string \<Rightarrow> server \<Rightarrow> string + bool" where
  "checkAdminPassword L kdf username password s =
     (if normalizeUsername L username \<noteq> normalizeUsername L (adminUsername s) then Inl errBadCredentials
      else
        let hash = ac_passwordHash (cf_admin (sv_cfg s))
        in if hash = [] then
             (if password \<noteq> initialAdminPassword then Inl errBadCredentials else Inr True)
           else if \<not> verifyPassword kdf hash password then Inl errBadCredentials
           else Inr False)"

definition authSession :: "time \<Rightarrow> http_request \<Rightarrow> server \<Rightarrow> server \<times> admin_session option" where
  "authSession now r s =
     (case rq_cookie r of
        None \<Rightarrow> (s, None)
      | Some v \<Rightarrow>
          if v = [] then (s, None)
          else (case lookup now v (sv_admin s) of (a, res) \<Rightarrow> (s\<lparr>sv_admin := a\<rparr>, res)))"

definition authorized :: "time \<Rightarrow> http_request \<Rightarrow> server \<Rightarrow> server \<times> bool" where
  "authorized now r s =
     (case authSession now r s of
        (s, None) \<Rightarrow> (s, False)
      | (s, Some sess) \<Rightarrow> (s, \<not> as_mustChangePassword sess))"

definition scheme :: "http_request \<Rightarrow> server \<Rightarrow> string" where
  "scheme r s =
     (if ac_trustForwardedHeaders (cf_admin (sv_cfg s)) \<and> rq_forwardedProto r \<noteq> [] then rq_forwardedProto r
      else if rq_tls r then ''https'' else ''http'')"

definition clientIP :: "http_request \<Rightarrow> server \<Rightarrow> string" where
  "clientIP r s =
     (if ac_trustForwardedHeaders (cf_admin (sv_cfg s)) \<and> rq_forwardedFor r \<noteq> [] then
        trimSpace (case indexByte (CHR '','') (rq_forwardedFor r) of
                     Some i \<Rightarrow> take i (rq_forwardedFor r)
                   | None \<Rightarrow> rq_forwardedFor r)
      else rq_remote r)"

definition adminCookie :: "http_request \<Rightarrow> string \<Rightarrow> time \<Rightarrow> server \<Rightarrow> cookie" where
  "adminCookie r token expires s =
     \<lparr> ck_value = token, ck_expires = Some expires, ck_secure = (scheme r s = ''https'') \<rparr>"

section \<open>The handlers\<close>

record auth_status =
  au_authenticated :: bool
  au_username :: string
  au_mustChange :: bool
  au_unset :: bool

definition handleAuthSession ::
  "time \<Rightarrow> http_request \<Rightarrow> server \<Rightarrow> server \<times> auth_status http_response" where
  "handleAuthSession now r s =
     (case authSession now r s of
        (s, res) \<Rightarrow>
          (s, writeJSON 200
            \<lparr> au_authenticated = (res \<noteq> None),
              au_username = (case res of None \<Rightarrow> [] | Some sess \<Rightarrow> as_username sess),
              au_mustChange = (case res of None \<Rightarrow> False | Some sess \<Rightarrow> as_mustChangePassword sess),
              au_unset = passwordUnset s \<rparr>))"

definition handleAuthLogin ::
  "(nat \<Rightarrow> nat) \<Rightarrow> kdf \<Rightarrow> time \<Rightarrow> string \<Rightarrow> (string \<times> string) option \<Rightarrow> http_request \<Rightarrow> server \<Rightarrow>
     server \<times> auth_status http_response" where
  "handleAuthLogin L kdf now tok body r s =
     (case body of
        None \<Rightarrow> (s, writeJSONError 400 ''malformed request body'')
      | Some (username, password) \<Rightarrow>
          (case checkAdminPassword L kdf username password s of
             Inl e \<Rightarrow> (s, writeJSONError 401 errBadCredentials)
           | Inr mustChange \<Rightarrow>
               (case issue now tok (adminUsername s) mustChange (sv_admin s) of
                  (a, expires) \<Rightarrow>
                    let s = s\<lparr>sv_admin := a\<rparr>
                    in (s, (writeJSON 200
                          \<lparr> au_authenticated = True, au_username = adminUsername s,
                            au_mustChange = mustChange, au_unset = passwordUnset s \<rparr>)
                          \<lparr>rs_cookie := Some (adminCookie r tok expires s)\<rparr>))))"

definition handleAuthLogout :: "http_request \<Rightarrow> server \<Rightarrow> server \<times> auth_status http_response" where
  "handleAuthLogout r s =
     ((case rq_cookie r of None \<Rightarrow> s | Some v \<Rightarrow> s\<lparr>sv_admin := revoke v (sv_admin s)\<rparr>),
      noContent\<lparr>rs_cookie := Some \<lparr> ck_value = [], ck_expires = None, ck_secure = False \<rparr>\<rparr>)"

record account_request =
  acr_current :: string
  acr_newUsername :: string
  acr_newPassword :: string

text \<open>What the checks of \<open>handleAuthAccount\<close> on a new password say.\<close>

definition newPasswordError :: "string \<Rightarrow> string option" where
  "newPasswordError password =
     (if length password < minPasswordChars then
        Some (''the new password must be at least '' @ itoa (int minPasswordChars) @ '' characters'')
      else if password = initialAdminPassword then Some ''choose something other than the default password''
      else None)"

definition setAccount :: "string \<Rightarrow> string \<Rightarrow> server \<Rightarrow> server" where
  "setAccount username hash s =
     (let a = cf_admin (sv_cfg s);
          a = (if username \<noteq> [] then a\<lparr>ac_username := username\<rparr> else a);
          a = (if hash \<noteq> [] then a\<lparr>ac_passwordHash := hash\<rparr> else a)
      in s\<lparr>sv_cfg := (sv_cfg s)\<lparr>cf_admin := a\<rparr>\<rparr>)"

text \<open>\<open>handleAuthAccount\<close> from the point where the change is known to be allowed.\<close>

definition saveAccount ::
  "http_request \<Rightarrow> string \<Rightarrow> string \<Rightarrow> server \<Rightarrow> server \<times> auth_status http_response" where
  "saveAccount r username hash s =
     (case cf_saveAdmin (sv_cfg s) of
        None \<Rightarrow> (s, writeJSONError 500 ''this server cannot persist an account change'')
      | Some save \<Rightarrow>
          (case save username hash of
             Some e \<Rightarrow> (s, writeJSONError 500 (''could not save the change: '' @ e))
           | None \<Rightarrow>
               let s = setAccount username hash s;
                   current = adminUsername s;
                   token = (case rq_cookie r of Some v \<Rightarrow> v | None \<Rightarrow> [])
               in (s\<lparr>sv_admin := rename token current (sv_admin s)\<rparr>,
                   writeJSON 200 \<lparr> au_authenticated = True, au_username = current,
                                   au_mustChange = False, au_unset = False \<rparr>)))"

definition handleAuthAccount ::
  "(nat \<Rightarrow> nat) \<Rightarrow> kdf \<Rightarrow> time \<Rightarrow> string \<Rightarrow> account_request option \<Rightarrow> http_request \<Rightarrow> server \<Rightarrow>
     server \<times> auth_status http_response" where
  "handleAuthAccount L kdf now salt body r s =
     (case authSession now r s of
        (s, None) \<Rightarrow> (s, writeJSONError 401 ''not signed in'')
      | (s, Some sess) \<Rightarrow>
          (case body of
             None \<Rightarrow> (s, writeJSONError 400 ''malformed request body'')
           | Some req \<Rightarrow>
               (case checkAdminPassword L kdf (as_username sess) (acr_current req) s of
                  Inl e \<Rightarrow> (s, writeJSONError 401 ''the current password is wrong'')
                | Inr _ \<Rightarrow>
                    let username = normalizeUsername L (acr_newUsername req);
                        renaming = (username \<noteq> [] \<and> username \<noteq> normalizeUsername L (adminUsername s))
                    in (case (if username \<noteq> [] then validateUsername username else None) of
                          Some e \<Rightarrow> (s, writeJSONError 400 e)
                        | None \<Rightarrow>
                            if passwordUnset s \<and> acr_newPassword req = [] then
                              (s, writeJSONError 400 ''choose a password: this server is still on the default one'')
                            else if \<not> renaming \<and> acr_newPassword req = [] then
                              (s, writeJSONError 400
                                ''nothing to change: send a new username, a new password, or both'')
                            else if acr_newPassword req = [] then saveAccount r username [] s
                            else
                              (case newPasswordError (acr_newPassword req) of
                                 Some e \<Rightarrow> (s, writeJSONError 400 e)
                               | None \<Rightarrow>
                                   (case hashPassword kdf salt (acr_newPassword req) of
                                      None \<Rightarrow> (s, writeJSONError 500 ''could not hash the password'')
                                    | Some hash \<Rightarrow> saveAccount r username hash s))))))"

lemmas auth_defs [go_defs] =
  adminUsername_def normalizeUsername_def usernameRune_def validateUsername_def passwordUnset_def
  checkAdminPassword_def authSession_def authorized_def scheme_def clientIP_def adminCookie_def
  handleAuthSession_def handleAuthLogin_def handleAuthLogout_def newPasswordError_def setAccount_def
  saveAccount_def handleAuthAccount_def

end
