(* ===== verification/Admin_Props.thy ===== *)
theory Admin_Props
  imports Admin_Auth
begin

text \<open>
  What signing in promises: who is let in and for how long, that a server on its first boot shows
  nothing, and what an account change leaves behind.
\<close>

section \<open>User names\<close>

lemma usernameRune_plain:
  assumes "usernameRune r"
  shows "r < 0x80" "\<not> isSpaceRune r" "lowerRune L r = r"
  using assms by (auto simp: usernameRune_def isSpaceRune_def lowerRune_def)

definition usernameChar :: "char \<Rightarrow> bool" where
  "usernameChar c \<longleftrightarrow> (CHR ''a'' \<le> c \<and> c \<le> CHR ''z'') \<or> (CHR ''0'' \<le> c \<and> c \<le> CHR ''9'') \<or>
     c = CHR ''.'' \<or> c = CHR ''-'' \<or> c = CHR ''_''"

lemma usernameRune_char: "usernameRune (of_char c) \<Longrightarrow> usernameChar c"
proof -
  have "char_of (46 :: nat) = CHR ''.''" "char_of (45 :: nat) = CHR ''-''" "char_of (95 :: nat) = CHR ''_''"
    by code_simp+
  then have "(of_char c :: nat) = 46 \<Longrightarrow> c = CHR ''.''" "(of_char c :: nat) = 45 \<Longrightarrow> c = CHR ''-''"
    "(of_char c :: nat) = 95 \<Longrightarrow> c = CHR ''_''"
    by (metis char_of_char)+
  then show "usernameRune (of_char c) \<Longrightarrow> ?thesis"
    by (auto simp: usernameRune_def usernameChar_def less_eq_char_def)
qed

lemma valid_username:
  assumes "validateUsername name = None"
  shows "3 \<le> length name \<and> length name \<le> 32 \<and>
    list_all usernameChar name \<and>
    normalizeUsername L name = name"
proof -
  have len: "3 \<le> length name" "length name \<le> 32" and ok: "list_all usernameRune (runes name)"
    using assms by (auto simp: validateUsername_def minUsernameChars_def maxUsernameChars_def split: if_splits)
  have "list_all (\<lambda>r. r < 0x80) (runes name)"
    using ok usernameRune_plain(1) by (auto simp: list_all_iff)
  then have r: "runes name = map of_char name"
    by (rule runes_ascii)
  then have c: "usernameRune (of_char c)" if "c \<in> set name" for c
    using ok that by (simp add: list_all_iff)
  have ne: "name \<noteq> []"
    using len by auto
  have "list_all usernameChar name"
    using c usernameRune_char by (simp add: list_all_iff)
  moreover have "trimSpace name = name"
    using ne c usernameRune_plain by (intro trimSpace_ascii) (simp_all add: hd_in_set)
  moreover have "isAscii name"
    using c usernameRune_plain(1) by (simp add: isAscii_def list_all_iff)
  then have "toLower L name = name"
    using c usernameRune_plain(3) by (simp add: toLower_def map_idI)
  ultimately show ?thesis
    using len by (simp add: normalizeUsername_def)
qed

text \<open>
  A user name that passes validation has 3 to 32 characters, all ASCII lower-case letters,
  digits, dots, dashes and underscores, and normalizing it changes nothing: what is stored is what
  a sign-in is compared with, whatever Go's Unicode tables say.
\<close>

lemma valid_username_is_normal:
  assumes "validateUsername name = None"
  shows "3 \<le> length name \<and> length name \<le> 32 \<and>
    list_all usernameChar name \<and>
    normalizeUsername L name = name"
  by (rule valid_username [OF assms])

lemmas validate_eval = validateUsername_def runes_def spans.simps decodeRune_def usernameRune_def
  minUsernameChars_def maxUsernameChars_def

lemma valid_username_is_normal_witness: "normalizeUsername id ''crwirz'' = ''crwirz''"
proof -
  have "validateUsername ''crwirz'' = None"
    by (simp add: validate_eval)
  then show ?thesis
    using valid_username_is_normal by blast
qed

section \<open>Passwords\<close>

text \<open>
  A stored password hash verifies exactly the passwords from which PBKDF2 derives the same 32
  bytes under the stored salt and iteration count, in particular the password it was made from;
  the only thing assumed of PBKDF2 is that a key has the length asked for.
\<close>

lemma hash_verifies_password:
  assumes "kdfLaw kdf"
    and "hashPassword kdf salt password = Some h"
  shows "verifyPassword kdf h password \<and>
    (verifyPassword kdf h other \<longleftrightarrow>
       kdf other salt pbkdf2Iterations pbkdf2KeyLength = kdf password salt pbkdf2Iterations pbkdf2KeyLength)"
  using verifyPassword_hash [OF assms] by blast

text \<open>A stand-in key derivation for the examples: the password, padded or cut to the length.\<close>

definition padKdf :: kdf where
  "padKdf p s i n = Some (take n (p @ replicate n (CHR ''0'')))"

lemma padKdf_law: "kdfLaw padKdf"
  by (auto simp: padKdf_def kdfLaw_def)

lemma hash_verifies_password_witness:
  "\<exists>h. hashPassword padKdf ''salt'' ''swordfish'' = Some h \<and> verifyPassword padKdf h ''swordfish'' \<and>
     \<not> verifyPassword padKdf h ''password''"
proof -
  obtain h where h: "hashPassword padKdf ''salt'' ''swordfish'' = Some h"
    by (simp add: hashPassword_def padKdf_def)
  have "padKdf ''password'' ''salt'' pbkdf2Iterations pbkdf2KeyLength \<noteq>
      padKdf ''swordfish'' ''salt'' pbkdf2Iterations pbkdf2KeyLength"
    by (simp add: padKdf_def pbkdf2KeyLength_def)
  then show ?thesis
    using h hash_verifies_password [OF padKdf_law h] by blast
qed

section \<open>Sessions\<close>

lemma snd_authSession:
  "snd (authSession now r s) =
     (case rq_cookie r of
        None \<Rightarrow> None
      | Some v \<Rightarrow>
          if v = [] then None
          else (case mget (aa_sessions (sv_admin s)) v of
                  None \<Rightarrow> None
                | Some se \<Rightarrow> if as_expires se < now then None else Some se))"
  by (simp add: authSession_def lookup_def split: option.split prod.split)

lemma fst_authSession:
  obtains a where "fst (authSession now r s) = s\<lparr>sv_admin := a\<rparr>"
    "\<And>t se. mget (aa_sessions a) t = Some se \<Longrightarrow> mget (aa_sessions (sv_admin s)) t = Some se"
    "mwf (aa_sessions (sv_admin s)) \<Longrightarrow> mwf (aa_sessions a)" "aa_ttl a = aa_ttl (sv_admin s)"
proof (cases "rq_cookie r")
  case None
  then show ?thesis
    using that [of "sv_admin s"] by (simp add: authSession_def)
next
  case (Some v)
  show ?thesis
  proof (cases "v = []")
    case True
    then show ?thesis
      using that [of "sv_admin s"] Some by (simp add: authSession_def)
  next
    case False
    have "fst (authSession now r s) = s\<lparr>sv_admin := fst (lookup now v (sv_admin s))\<rparr>"
      using Some False by (simp add: authSession_def split: prod.split)
    then show ?thesis
      by (rule that) (auto simp: lookup_def split: option.splits if_splits)
  qed
qed

lemma authorized_iff:
  "snd (authorized now r s) \<longleftrightarrow>
     (\<exists>v se. rq_cookie r = Some v \<and> v \<noteq> [] \<and> mget (aa_sessions (sv_admin s)) v = Some se \<and>
        now \<le> as_expires se \<and> \<not> as_mustChangePassword se)"
proof -
  have "snd (authorized now r s) \<longleftrightarrow>
      (\<exists>se. snd (authSession now r s) = Some se \<and> \<not> as_mustChangePassword se)"
    by (cases "authSession now r s") (simp add: authorized_def split: option.split)
  then show ?thesis
    by (auto simp: snd_authSession not_less split: option.splits if_splits)
qed

lemma fst_authorized: "fst (authorized now r s) = fst (authSession now r s)"
  by (simp add: authorized_def split: prod.split option.split)

section \<open>The first boot\<close>

text \<open>Everything a browser can do to the account, in any order.\<close>

datatype adm_event =
    AuSession time http_request
  | AuLogin time string "(string \<times> string) option" http_request
  | AuLogout http_request
  | AuAccount time string "account_request option" http_request

fun admRun :: "(nat \<Rightarrow> nat) \<Rightarrow> kdf \<Rightarrow> adm_event \<Rightarrow> server \<Rightarrow> server" where
  "admRun L kdf (AuSession now r) s = fst (handleAuthSession now r s)"
| "admRun L kdf (AuLogin now tok body r) s = fst (handleAuthLogin L kdf now tok body r s)"
| "admRun L kdf (AuLogout r) s = fst (handleAuthLogout r s)"
| "admRun L kdf (AuAccount now salt body r) s = fst (handleAuthAccount L kdf now salt body r s)"

definition adm_step :: "(nat \<Rightarrow> nat) \<Rightarrow> kdf \<Rightarrow> server \<Rightarrow> adm_event \<Rightarrow> server \<Rightarrow> bool" where
  "adm_step L kdf s ev t \<longleftrightarrow> t = admRun L kdf ev s"

definition adm_init :: "server \<Rightarrow> bool" where
  "adm_init s \<longleftrightarrow> (\<exists>now cfg. s = newServer now cfg)"

definition adm_inv :: "server \<Rightarrow> bool" where
  "adm_inv s \<longleftrightarrow> mwf (aa_sessions (sv_admin s)) \<and>
     (passwordUnset s \<longrightarrow>
        (\<forall>t se. mget (aa_sessions (sv_admin s)) t = Some se \<longrightarrow> as_mustChangePassword se))"

lemma adm_inv_authSession: "adm_inv s \<Longrightarrow> adm_inv (fst (authSession now r s))"
  by (rule fst_authSession [of now r s]) (auto simp: adm_inv_def passwordUnset_def)

lemma checkAdminPassword_unset:
  "passwordUnset s \<Longrightarrow> checkAdminPassword L kdf u p s = Inr b \<Longrightarrow> b"
  by (auto simp: checkAdminPassword_def passwordUnset_def Let_def split: if_splits)

lemma adm_inv_login: "adm_inv s \<Longrightarrow> adm_inv (fst (handleAuthLogin L kdf now tok body r s))"
  by (auto simp: handleAuthLogin_def issue_def reapLocked_def Let_def adm_inv_def passwordUnset_def mget_msweep
      split: option.splits sum.splits prod.splits if_splits
      dest: checkAdminPassword_unset [unfolded passwordUnset_def])

lemma adm_inv_logout: "adm_inv s \<Longrightarrow> adm_inv (fst (handleAuthLogout r s))"
  by (auto simp: handleAuthLogout_def revoke_def adm_inv_def passwordUnset_def split: option.splits if_splits)

text \<open>An account request either is refused and changes nothing, or saves what it asks for.\<close>

definition newHash :: "kdf \<Rightarrow> string \<Rightarrow> string \<Rightarrow> string \<Rightarrow> bool" where
  "newHash kdf salt password hash \<longleftrightarrow>
     (if password = [] then hash = [] else newPasswordError password = None \<and> hashPassword kdf salt password = Some hash)"

lemma handleAuthAccount_disj:
  assumes "authSession now r s = (s1, res)"
  shows "(fst (handleAuthAccount L kdf now salt body r s) = s1 \<and>
      rs_status (snd (handleAuthAccount L kdf now salt body r s)) \<noteq> 200) \<or>
    (\<exists>sess req b hash. res = Some sess \<and> body = Some req \<and>
       checkAdminPassword L kdf (as_username sess) (acr_current req) s1 = Inr b \<and>
       newHash kdf salt (acr_newPassword req) hash \<and> (passwordUnset s1 \<longrightarrow> acr_newPassword req \<noteq> []) \<and>
       handleAuthAccount L kdf now salt body r s = saveAccount r (normalizeUsername L (acr_newUsername req)) hash s1)"
  using assms
  by (simp add: handleAuthAccount_def Let_def writeJSONError_def newHash_def split: option.split sum.split)

lemma handleAuthAccount_cases [consumes 1, case_names refused saved]:
  assumes "authSession now r s = (s1, res)"
  obtains (refused) "fst (handleAuthAccount L kdf now salt body r s) = s1"
      "rs_status (snd (handleAuthAccount L kdf now salt body r s)) \<noteq> 200"
  | (saved) sess req b hash where "res = Some sess" "body = Some req"
      "checkAdminPassword L kdf (as_username sess) (acr_current req) s1 = Inr b"
      "newHash kdf salt (acr_newPassword req) hash" "passwordUnset s1 \<Longrightarrow> acr_newPassword req \<noteq> []"
      "handleAuthAccount L kdf now salt body r s = saveAccount r (normalizeUsername L (acr_newUsername req)) hash s1"
  using handleAuthAccount_disj [OF assms, of L kdf salt body] by blast

lemma saveAccount_refused:
  "cf_saveAdmin (sv_cfg s) = None \<or> (\<exists>save e. cf_saveAdmin (sv_cfg s) = Some save \<and> save u h = Some e) \<Longrightarrow>
   fst (saveAccount r u h s) = s \<and> rs_status (snd (saveAccount r u h s)) \<noteq> 200"
  by (auto simp: saveAccount_def writeJSONError_def)

lemma saveAccount_saved:
  "cf_saveAdmin (sv_cfg s) = Some save \<Longrightarrow> save u h = None \<Longrightarrow>
   fst (saveAccount r u h s) = (setAccount u h s)\<lparr>sv_admin :=
        rename (case rq_cookie r of Some v \<Rightarrow> v | None \<Rightarrow> []) (adminUsername (setAccount u h s)) (sv_admin s)\<rparr>"
  by (simp add: saveAccount_def Let_def) (simp add: setAccount_def Let_def)

lemma saveAccount_disj:
  "(fst (saveAccount r u h s) = s \<and> rs_status (snd (saveAccount r u h s)) \<noteq> 200) \<or>
   (\<exists>save. cf_saveAdmin (sv_cfg s) = Some save \<and> save u h = None \<and>
      fst (saveAccount r u h s) = (setAccount u h s)\<lparr>sv_admin :=
        rename (case rq_cookie r of Some v \<Rightarrow> v | None \<Rightarrow> []) (adminUsername (setAccount u h s)) (sv_admin s)\<rparr>)"
  using saveAccount_refused saveAccount_saved by (metis not_None_eq)

lemma passwordUnset_setAccount:
  "passwordUnset (setAccount u h s) \<longleftrightarrow> h = [] \<and> passwordUnset s"
  by (simp add: passwordUnset_def setAccount_def Let_def)

lemma passwordUnset_sv_admin [simp]: "passwordUnset (s\<lparr>sv_admin := a\<rparr>) = passwordUnset s"
  by (simp add: passwordUnset_def)

lemma newHash_ne: "newHash kdf salt p h \<Longrightarrow> p \<noteq> [] \<Longrightarrow> h \<noteq> []"
  by (auto simp: newHash_def dest: hashPassword_ne_Nil)

lemma adm_inv_account:
  assumes "adm_inv s"
  shows "adm_inv (fst (handleAuthAccount L kdf now salt body r s))"
proof -
  obtain s1 res where a: "authSession now r s = (s1, res)"
    by fastforce
  have i1: "adm_inv s1"
    using adm_inv_authSession [OF assms, of now r] a by simp
  from a show ?thesis
  proof (cases rule: handleAuthAccount_cases [where L = L and kdf = kdf and salt = salt and body = body])
    case refused
    then show ?thesis using i1 by simp
  next
    case (saved sess req b hash)
    have unset: "\<not> (hash = [] \<and> passwordUnset s1)"
      using saved(4,5) newHash_ne by blast
    from saveAccount_disj [of r "normalizeUsername L (acr_newUsername req)" hash s1] show ?thesis
    proof
      assume "\<exists>save. cf_saveAdmin (sv_cfg s1) = Some save \<and>
          save (normalizeUsername L (acr_newUsername req)) hash = None \<and>
          fst (saveAccount r (normalizeUsername L (acr_newUsername req)) hash s1) =
            (setAccount (normalizeUsername L (acr_newUsername req)) hash s1)\<lparr>sv_admin :=
              rename (case rq_cookie r of Some v \<Rightarrow> v | None \<Rightarrow> [])
                (adminUsername (setAccount (normalizeUsername L (acr_newUsername req)) hash s1)) (sv_admin s1)\<rparr>"
      then show ?thesis
        using i1 unset by (auto simp: saved(6) adm_inv_def mwf_rename passwordUnset_setAccount)
    qed (simp add: saved(6) i1)
  qed
qed

lemma fst_handleAuthSession: "fst (handleAuthSession now r s) = fst (authSession now r s)"
  by (simp add: handleAuthSession_def split: prod.split)

interpretation adm: invariant_system adm_init "adm_step L kdf" adm_inv for L kdf
proof
  fix s t :: server and ev :: adm_event
  show "adm_init s \<Longrightarrow> adm_inv s"
    by (auto simp: adm_init_def newServer_def newAdminAuth_def adm_inv_def)
  assume "adm_inv s" "adm_step L kdf s ev t"
  then show "adm_inv t"
    by (cases ev) (simp_all add: adm_step_def fst_handleAuthSession adm_inv_authSession adm_inv_login
        adm_inv_logout adm_inv_account)
qed

text \<open>
  C5: A server on its first boot shows nothing. Whatever sign-ins, sign-outs, session queries and
  account changes anyone makes, in any order: as long as no administrator password has been chosen, no
  request is authorized, whichever cookie it carries.
\<close>

theorem first_boot_locked:
  assumes "reach adm_init (adm_step L kdf) s" "passwordUnset s"
  shows "\<not> snd (authorized now r s)"
  using adm.reach_inv [OF assms(1)] assms(2) by (auto simp: adm_inv_def authorized_iff)

definition bootCfg :: server_config where
  "bootCfg = \<lparr> cf_httpAddr = '':8000'', cf_udpAddr = '':8000'', cf_name = [], cf_publicUDP = [],
     cf_publicURL = [], cf_version = [],
     cf_admin = \<lparr> ac_disabled = False, ac_username = [], ac_passwordHash = [], ac_sessionTTL = 0,
       ac_trustForwardedHeaders = False \<rparr>, cf_saveAdmin = Some (\<lambda>u h. None) \<rparr>"

definition bootReq :: "string \<Rightarrow> http_request" where
  "bootReq tok = \<lparr> rq_cookie = Some tok, rq_host = [], rq_remote = [], rq_tls = False,
     rq_forwardedProto = [], rq_forwardedFor = [], rq_path = [], rq_idleFor = [] \<rparr>"

definition boot1 :: server where
  "boot1 = fst (handleAuthLogin id padKdf 5 ''t1'' (Some (''admin'', ''admin'')) (bootReq []) (newServer 0 bootCfg))"

lemma boot1_eq: "boot1 = (newServer 0 bootCfg)\<lparr>sv_admin :=
    \<lparr> aa_sessions = [(''t1'', \<lparr> as_username = ''admin'', as_expires = 5 + 12 * hour, as_mustChangePassword = True \<rparr>)],
      aa_ttl = 12 * hour \<rparr>\<rparr>"
  by (simp add: boot1_def handleAuthLogin_def checkAdminPassword_def bootCfg_def state_defs adminUsername_def
      initialAdminPassword_def defaultAdminUsername_def authstore_defs msweep_def gomap_defs Let_def)

lemma reach_boot1: "reach adm_init (adm_step id padKdf) boot1"
proof -
  have "reach adm_init (adm_step id padKdf) (newServer 0 bootCfg)"
    by (rule reach_init) (auto simp: adm_init_def)
  moreover have "adm_step id padKdf (newServer 0 bootCfg)
      (AuLogin 5 ''t1'' (Some (''admin'', ''admin'')) (bootReq [])) boot1"
    by (simp add: adm_step_def boot1_def)
  ultimately show ?thesis
    by (rule reach_step)
qed

theorem first_boot_locked_witness:
  "snd (authSession 6 (bootReq ''t1'') boot1) \<noteq> None \<and> \<not> snd (authorized 6 (bootReq ''t1'') boot1)"
proof -
  have "passwordUnset boot1"
    by (simp add: boot1_eq passwordUnset_def newServer_def bootCfg_def)
  moreover have "snd (authSession 6 (bootReq ''t1'') boot1) \<noteq> None"
    by (simp add: snd_authSession boot1_eq bootReq_def gomap_defs hour_def minute_def second_def)
  ultimately show ?thesis
    using first_boot_locked [OF reach_boot1] by blast
qed

section \<open>Changing the account\<close>

lemma adminUsername_setAccount:
  "adminUsername (setAccount u h s) = (if u = [] then adminUsername s else u)"
  by (simp add: adminUsername_def setAccount_def Let_def)

lemma adminUsername_sv_admin [simp]: "adminUsername (s\<lparr>sv_admin := a\<rparr>) = adminUsername s"
  by (simp add: adminUsername_def)

lemma account_changed:
  assumes "rs_status (snd (handleAuthAccount L kdf now salt (Some req) r s)) = 200"
    and "mwf (aa_sessions (sv_admin s))"
    and "s' = fst (handleAuthAccount L kdf now salt (Some req) r s)"
    and "hash' = ac_passwordHash (cf_admin (sv_cfg s'))"
  shows "\<exists>token sess save. rq_cookie r = Some token \<and> mget (aa_sessions (sv_admin s)) token = Some sess \<and>
    now \<le> as_expires sess \<and>
    checkAdminPassword L kdf (as_username sess) (acr_current req) s \<noteq> Inl errBadCredentials \<and>
    (\<forall>t. mget (aa_sessions (sv_admin s')) t =
       (if t = token then Some (sess\<lparr>as_username := adminUsername s', as_mustChangePassword := False\<rparr>) else None)) \<and>
    adminUsername s' = (if normalizeUsername L (acr_newUsername req) = [] then adminUsername s
                        else normalizeUsername L (acr_newUsername req)) \<and>
    (if acr_newPassword req = [] then hash' = ac_passwordHash (cf_admin (sv_cfg s))
     else 8 \<le> length (acr_newPassword req) \<and> acr_newPassword req \<noteq> ''admin'' \<and>
       hashPassword kdf salt (acr_newPassword req) = Some hash') \<and>
    \<not> passwordUnset s' \<and>
    cf_saveAdmin (sv_cfg s) = Some save \<and>
    save (normalizeUsername L (acr_newUsername req)) (if acr_newPassword req = [] then [] else hash') = None"
proof -
  obtain s1 res where a: "authSession now r s = (s1, res)"
    by fastforce
  let ?u = "normalizeUsername L (acr_newUsername req)"
  from a show ?thesis
  proof (cases rule: handleAuthAccount_cases [where L = L and kdf = kdf and salt = salt and body = "Some req"])
    case refused
    then show ?thesis using assms(1) by simp
  next
    case (saved sess req' b hash)
    have req': "req' = req"
      using saved(2) by simp
    obtain token where tok: "rq_cookie r = Some token" "token \<noteq> []"
      "mget (aa_sessions (sv_admin s)) token = Some sess" "now \<le> as_expires sess"
      using saved(1) a snd_authSession [of now r s] by (auto split: option.splits if_splits)
    have s1: "s1 = s"
      using a tok by (simp add: authSession_def lookup_def)
    obtain save where save: "cf_saveAdmin (sv_cfg s) = Some save" "save ?u hash = None"
      "s' = (setAccount ?u hash s)\<lparr>sv_admin := rename token (adminUsername (setAccount ?u hash s)) (sv_admin s)\<rparr>"
      using saveAccount_disj [of r ?u hash s] assms(1,3) saved(6) s1 req' tok(1) by auto
    have h: "hash' = (if hash = [] then ac_passwordHash (cf_admin (sv_cfg s)) else hash)"
      by (simp add: assms(4) save(3) setAccount_def Let_def)
    have nh: "newHash kdf salt (acr_newPassword req) hash" "passwordUnset s \<Longrightarrow> acr_newPassword req \<noteq> []"
      using saved(4,5) s1 req' by simp_all
    have pw: "if acr_newPassword req = [] then hash' = ac_passwordHash (cf_admin (sv_cfg s))
     else 8 \<le> length (acr_newPassword req) \<and> acr_newPassword req \<noteq> ''admin'' \<and>
       hashPassword kdf salt (acr_newPassword req) = Some hash'"
      using nh(1) newHash_ne [OF nh(1)] h
      by (auto simp: newHash_def newPasswordError_def minPasswordChars_def initialAdminPassword_def split: if_splits)
    have "\<not> passwordUnset s'"
      using nh newHash_ne [OF nh(1)] by (auto simp: save(3) passwordUnset_setAccount)
    moreover have "checkAdminPassword L kdf (as_username sess) (acr_current req) s \<noteq> Inl errBadCredentials"
      using saved(3) s1 req' by simp
    moreover have "adminUsername s' = (if ?u = [] then adminUsername s else ?u)"
      by (simp add: save(3) adminUsername_setAccount)
    moreover have "mget (aa_sessions (sv_admin s')) t =
       (if t = token then Some (sess\<lparr>as_username := adminUsername s', as_mustChangePassword := False\<rparr>) else None)" for t
      using tok by (simp add: save(3) mget_rename [OF assms(2)])
    moreover have "save ?u (if acr_newPassword req = [] then [] else hash') = None"
      using save(2) h nh(1) newHash_ne [OF nh(1)] by (auto simp: newHash_def split: if_splits)
    ultimately show ?thesis
      using tok save(1) pw by (intro exI [of _ token] exI [of _ sess] exI [of _ save]) blast
  qed
qed

lemma account_change_hash:
  assumes "rs_status (snd (handleAuthAccount L kdf now salt (Some req) r s)) = 200"
    and "mwf (aa_sessions (sv_admin s))"
    and "s' = fst (handleAuthAccount L kdf now salt (Some req) r s)"
    and "hash' = ac_passwordHash (cf_admin (sv_cfg s'))"
  shows "acr_newPassword req \<noteq> [] \<Longrightarrow> hashPassword kdf salt (acr_newPassword req) = Some hash'"
    and "adminUsername s' = (if normalizeUsername L (acr_newUsername req) = [] then adminUsername s
                             else normalizeUsername L (acr_newUsername req))"
  using account_changed [OF assms] by (auto split: if_splits)

lemmas account_change_name = account_change_hash(2)

text \<open>
  C29: An account change that succeeds was made by a live session that also gave the current password.
  Afterwards that session is the only one left, under the account's current name and no longer penned
  in; the account has the normalized new name if one was sent, and otherwise its old one; its hash is
  the hash of the new password if one was sent, which is then at least eight bytes and not the default,
  and otherwise the old one; a password is set; and the change was accepted by \<open>SaveAdmin\<close>.
\<close>

theorem account_change_effect:
  assumes "rs_status (snd (handleAuthAccount L kdf now salt (Some req) r s)) = 200"
    and "mwf (aa_sessions (sv_admin s))"
    and "s' = fst (handleAuthAccount L kdf now salt (Some req) r s)"
    and "hash' = ac_passwordHash (cf_admin (sv_cfg s'))"
  shows "\<exists>token sess save. rq_cookie r = Some token \<and> mget (aa_sessions (sv_admin s)) token = Some sess \<and>
    now \<le> as_expires sess \<and>
    checkAdminPassword L kdf (as_username sess) (acr_current req) s \<noteq> Inl errBadCredentials \<and>
    (\<forall>t. mget (aa_sessions (sv_admin s')) t =
       (if t = token then Some (sess\<lparr>as_username := adminUsername s', as_mustChangePassword := False\<rparr>) else None)) \<and>
    adminUsername s' = (if normalizeUsername L (acr_newUsername req) = [] then adminUsername s
                        else normalizeUsername L (acr_newUsername req)) \<and>
    (if acr_newPassword req = [] then hash' = ac_passwordHash (cf_admin (sv_cfg s))
     else 8 \<le> length (acr_newPassword req) \<and> acr_newPassword req \<noteq> ''admin'' \<and>
       hashPassword kdf salt (acr_newPassword req) = Some hash') \<and>
    \<not> passwordUnset s' \<and>
    cf_saveAdmin (sv_cfg s) = Some save \<and>
    save (normalizeUsername L (acr_newUsername req)) (if acr_newPassword req = [] then [] else hash') = None"
  by (rule account_changed [OF assms])

definition acctReq :: account_request where
  "acctReq = \<lparr> acr_current = ''admin'', acr_newUsername = ''ada'', acr_newPassword = ''swordfish'' \<rparr>"

lemma acctReq_sel [simp]: "acr_newUsername acctReq = ''ada''" "acr_newPassword acctReq = ''swordfish''"
  by (simp_all add: acctReq_def)

lemma normal_names: "normalizeUsername id ''ada'' = ''ada''" "normalizeUsername id ''admin'' = ''admin''"
  "validateUsername ''ada'' = None"
proof -
  have "validateUsername ''ada'' = None" "validateUsername ''admin'' = None"
    by (simp_all add: validate_eval)
  then show "normalizeUsername id ''ada'' = ''ada''" "normalizeUsername id ''admin'' = ''admin''"
    "validateUsername ''ada'' = None"
    using valid_username [of _ id] by blast+
qed

lemma acct_accepted:
  "rs_status (snd (handleAuthAccount id padKdf 6 ''salt'' (Some acctReq) (bootReq ''t1'') boot1)) = 200"
proof -
  have "authSession 6 (bootReq ''t1'') boot1 =
      (boot1, Some \<lparr> as_username = ''admin'', as_expires = 5 + 12 * hour, as_mustChangePassword = True \<rparr>)"
    by (simp add: boot1_eq authSession_def lookup_def bootReq_def gomap_defs duration_defs)
  moreover have "adminUsername boot1 = ''admin''" "passwordUnset boot1"
      "cf_saveAdmin (sv_cfg boot1) = Some (\<lambda>u h. None)"
      "ac_passwordHash (cf_admin (sv_cfg boot1)) = []"
    by (simp_all add: boot1_eq adminUsername_def passwordUnset_def newServer_def bootCfg_def defaultAdminUsername_def)
  ultimately show ?thesis
    by (simp add: handleAuthAccount_def checkAdminPassword_def acctReq_def normal_names initialAdminPassword_def
        newPasswordError_def minPasswordChars_def hashPassword_def padKdf_def saveAccount_def writeJSON_def Let_def)
qed

theorem account_change_effect_witness:
  "adminUsername (fst (handleAuthAccount id padKdf 6 ''salt'' (Some acctReq) (bootReq ''t1'') boot1)) = ''ada''"
proof -
  have "mwf (aa_sessions (sv_admin boot1))"
    by (simp add: boot1_eq mwf_def)
  then show ?thesis
    using account_change_effect [OF acct_accepted _ refl refl] by (auto simp: normal_names)
qed

text \<open>
  After the name has changed, the old one no longer signs in: whatever the password and whether or
  not one is set, a name that does not normalize to the account's is refused, while the account's own
  name with the password just chosen is accepted, without the first-boot restriction.
\<close>

lemma old_name_retired:
  assumes "rs_status (snd (handleAuthAccount L kdf now salt (Some req) r s)) = 200"
    and "mwf (aa_sessions (sv_admin s))" "kdfLaw kdf"
    and "s' = fst (handleAuthAccount L kdf now salt (Some req) r s)"
    and "acr_newPassword req \<noteq> []"
    and "normalizeUsername L old \<noteq> normalizeUsername L (adminUsername s')"
  shows "checkAdminPassword L kdf old p s' = Inl errBadCredentials \<and>
    checkAdminPassword L kdf (adminUsername s') (acr_newPassword req) s' = Inr False"
proof -
  let ?h = "ac_passwordHash (cf_admin (sv_cfg s'))"
  have h: "hashPassword kdf salt (acr_newPassword req) = Some ?h"
    using account_change_hash(1) [OF assms(1,2,4) refl] assms(5) by simp
  then show ?thesis
    using assms(6) hashPassword_ne_Nil [OF h] verifyPassword_hash [OF assms(3) h]
    by (simp add: checkAdminPassword_def Let_def)
qed

lemma old_name_retired_witness:
  "checkAdminPassword id padKdf ''admin'' ''admin''
     (fst (handleAuthAccount id padKdf 6 ''salt'' (Some acctReq) (bootReq ''t1'') boot1)) = Inl errBadCredentials"
proof -
  have m: "mwf (aa_sessions (sv_admin boot1))"
    by (simp add: boot1_eq mwf_def)
  have "adminUsername (fst (handleAuthAccount id padKdf 6 ''salt'' (Some acctReq) (bootReq ''t1'') boot1)) = ''ada''"
    using account_change_name [OF acct_accepted m refl refl] by (simp add: normal_names)
  then show ?thesis
    using old_name_retired [OF acct_accepted m padKdf_law refl, of "''admin''" "''admin''"]
    by (simp add: normal_names)
qed

text \<open>
  The default credentials are good for any number of sign-ins: in every state that is reached
  before a password is chosen, and while the account still has its default name, \<open>admin\<close> and
  \<open>admin\<close> open another session, penned in like the first.
\<close>

lemma default_login_repeats:
  assumes "reach adm_init (adm_step L kdf) s" "passwordUnset s" "adminUsername s = ''admin''"
    and "(s', resp) = handleAuthLogin L kdf now tok (Some (''admin'', ''admin'')) r s"
  shows "rs_status resp = 200 \<and> passwordUnset s' \<and>
    mget (aa_sessions (sv_admin s')) tok =
      Some \<lparr> as_username = ''admin'', as_expires = now + aa_ttl (sv_admin s), as_mustChangePassword = True \<rparr>"
  using assms(2,3,4)
  by (simp add: handleAuthLogin_def checkAdminPassword_def passwordUnset_def issue_def reapLocked_def
      initialAdminPassword_def writeJSON_def Let_def)

lemma default_login_repeats_witness:
  "rs_status (snd (handleAuthLogin id padKdf 9 ''t2'' (Some (''admin'', ''admin'')) (bootReq []) boot1)) = 200"
proof -
  have "passwordUnset boot1" "adminUsername boot1 = ''admin''"
    by (simp_all add: boot1_eq adminUsername_def passwordUnset_def newServer_def bootCfg_def defaultAdminUsername_def)
  then show ?thesis
    using default_login_repeats [OF reach_boot1 _ _ prod.collapse] by blast
qed

end
