(* ===== verification/Admin_Api.thy ===== *)
theory Admin_Api
  imports Server_System Admin_Auth "HOL-Library.Multiset"
begin

text \<open>
  The admin API (\<open>internal/signal/api.go\<close>) and the routing table of \<open>Handler\<close>
  (\<open>internal/signal/server.go\<close>): the views it renders and its seven handlers, each behind
  \<open>authorized\<close>. A response's JSON value is kept as the value that is encoded.
\<close>

section \<open>Views\<close>

record peer_view =
  pv_role :: role
  pv_name :: string
  pv_token :: string
  pv_ready :: bool
  pv_public :: string
  pv_local :: "string list"
  pv_fp :: string
  pv_remote :: string
  pv_joined :: time

record session_view =
  svw_code :: string
  svw_created :: time
  svw_paired :: bool
  svw_pairedAt :: "time option"
  svw_peers :: "peer_view list"

record relay_view =
  rv_token :: string
  rv_peer :: string
  rv_code :: string
  rv_role :: role
  rv_addr :: string
  rv_first :: time
  rv_seen :: time
  rv_expires :: time
  rv_packets :: u64
  rv_bytes :: u64

record totals_view =
  tv_peersJoined :: u64
  tv_pairs :: u64
  tv_reflections :: u64
  tv_relayedPkts :: u64
  tv_relayedBytes :: u64
  tv_droppedPkts :: u64

record udp_view =
  uv_bound :: string
  uv_advertised :: string
  uv_derived :: bool
  uv_packets :: u64
  uv_invalid :: u64
  uv_lastPacket :: "time option"
  uv_lastReflection :: "time option"

record status_view =
  sw_name :: string
  sw_version :: string
  sw_started :: time
  sw_uptime :: duration
  sw_httpAddr :: string
  sw_udpAddr :: string
  sw_publicUDP :: string
  sw_publicURL :: string
  sw_sessions :: nat
  sw_sessionsPaired :: nat
  sw_peersConnected :: nat
  sw_relays :: nat
  sw_relayTTL :: duration
  sw_totals :: totals_view
  sw_udp :: udp_view

datatype api_view =
    StatusV status_view
  | SessionsV "session_view list"
  | SessionV session_view
  | RelaysV "relay_view list"
  | PrunedV string nat "string list"

type_synonym api_response = "api_view http_response"

definition peerView :: "peer_conn \<Rightarrow> peer_view" where
  "peerView p = \<lparr> pv_role = pc_role p, pv_name = pc_name p, pv_token = pc_token p, pv_ready = pc_ready p,
     pv_public = pc_public p, pv_local = pc_local p, pv_fp = pc_fp p, pv_remote = pc_remote p,
     pv_joined = pc_joined p \<rparr>"

text \<open>\<open>sess.view()\<close>, with the pointers followed in the server's store.\<close>

definition sessionView :: "server \<Rightarrow> session \<Rightarrow> session_view" where
  "sessionView s sess =
     \<lparr> svw_code = ss_code sess, svw_created = ss_created sess, svw_paired = ss_paired sess,
       svw_pairedAt = ss_pairedAt sess,
       svw_peers = List.map_filter
         (\<lambda>role. case mget (ss_peers sess) role of
                   None \<Rightarrow> None
                 | Some c \<Rightarrow> map_option peerView (sv_conns s c))
         [roleHost, roleClient] \<rparr>"

definition liveSessions :: "server \<Rightarrow> session list" where
  "liveSessions s = List.map_filter (\<lambda>(code, sid). sv_sheap s sid) (mentries (sv_sessions s))"

definition snapshotSessions :: "server \<Rightarrow> session_view list" where
  "snapshotSessions s = sort_key svw_created (map (sessionView s) (liveSessions s))"

definition relayView :: "string \<Rightarrow> relay_route \<Rightarrow> relay_view" where
  "relayView token route =
     \<lparr> rv_token = token, rv_peer = rr_peer route, rv_code = rr_code route, rv_role = rr_role route,
       rv_addr = (case rr_addr route of None \<Rightarrow> [] | Some a \<Rightarrow> udpString a),
       rv_first = rr_first route, rv_seen = rr_seen route, rv_expires = rr_seen route + relayTTL,
       rv_packets = rr_packets route, rv_bytes = rr_bytes route \<rparr>"

text \<open>
  Busiest first, then the one heard from last: a stable sort by the second key and then by the first
  is the order of the comparison function.
\<close>

definition snapshotRelays :: "server \<Rightarrow> relay_view list" where
  "snapshotRelays s =
     sort_key (\<lambda>v. - uint (rv_bytes v)) (sort_key (\<lambda>v. - rv_seen v)
       (map (\<lambda>(token, route). relayView token route) (mentries (sv_relays s))))"

definition udpView :: "http_request \<Rightarrow> server \<Rightarrow> udp_view" where
  "udpView r s =
     \<lparr> uv_bound = cf_udpAddr (sv_cfg s), uv_advertised = publicUDP (sv_cfg s) (rq_host r),
       uv_derived = (cf_publicUDP (sv_cfg s) = []),
       uv_packets = st_udpPackets (sv_stats s), uv_invalid = st_udpInvalid (sv_stats s),
       uv_lastPacket = stampOf (st_lastUDPUnix (sv_stats s)),
       uv_lastReflection = stampOf (st_lastReflectUnix (sv_stats s)) \<rparr>"

definition totalsView :: "server_stats \<Rightarrow> totals_view" where
  "totalsView st =
     \<lparr> tv_peersJoined = st_peersJoined st, tv_pairs = st_pairs st, tv_reflections = st_reflections st,
       tv_relayedPkts = st_relayedPkts st, tv_relayedBytes = st_relayedBytes st,
       tv_droppedPkts = st_droppedPkts st \<rparr>"

definition statusView :: "time \<Rightarrow> http_request \<Rightarrow> server \<Rightarrow> status_view" where
  "statusView now r s =
     \<lparr> sw_name = cf_name (sv_cfg s),
       sw_version = (if cf_version (sv_cfg s) \<noteq> [] then cf_version (sv_cfg s) else ''dev''),
       sw_started = sv_started s, sw_uptime = now - sv_started s,
       sw_httpAddr = cf_httpAddr (sv_cfg s), sw_udpAddr = cf_udpAddr (sv_cfg s),
       sw_publicUDP = cf_publicUDP (sv_cfg s), sw_publicURL = cf_publicURL (sv_cfg s),
       sw_sessions = length (mentries (sv_sessions s)),
       sw_sessionsPaired = length (filter ss_paired (liveSessions s)),
       sw_peersConnected = sum_list (map (\<lambda>sess. length (mentries (ss_peers sess))) (liveSessions s)),
       sw_relays = length (mentries (sv_relays s)),
       sw_relayTTL = relayTTL, sw_totals = totalsView (sv_stats s), sw_udp = udpView r s \<rparr>"

lemmas view_defs [go_defs] =
  peerView_def sessionView_def liveSessions_def snapshotSessions_def relayView_def snapshotRelays_def
  udpView_def totalsView_def statusView_def

section \<open>Handlers\<close>

definition signInFirst :: api_response where
  "signInFirst = writeJSONError 401 ''sign in first''"

definition handleStatus :: "time \<Rightarrow> http_request \<Rightarrow> server \<Rightarrow> server \<times> api_response" where
  "handleStatus now r s =
     (case authorized now r s of
        (s, False) \<Rightarrow> (s, signInFirst)
      | (s, True) \<Rightarrow> (s, writeJSON 200 (StatusV (statusView now r s))))"

definition handleListSessions :: "time \<Rightarrow> http_request \<Rightarrow> server \<Rightarrow> server \<times> api_response" where
  "handleListSessions now r s =
     (case authorized now r s of
        (s, False) \<Rightarrow> (s, signInFirst)
      | (s, True) \<Rightarrow> (s, writeJSON 200 (SessionsV (snapshotSessions s))))"

text \<open>The session under a code, as the handlers look it up: a missing entry is a nil pointer.\<close>

definition sessionAt :: "string \<Rightarrow> server \<Rightarrow> session option" where
  "sessionAt code s = (case mget (sv_sessions s) code of None \<Rightarrow> None | Some sid \<Rightarrow> sv_sheap s sid)"

definition handleGetSession :: "time \<Rightarrow> http_request \<Rightarrow> server \<Rightarrow> server \<times> api_response" where
  "handleGetSession now r s =
     (case authorized now r s of
        (s, False) \<Rightarrow> (s, signInFirst)
      | (s, True) \<Rightarrow>
          (case sessionAt (rq_path r) s of
             None \<Rightarrow> (s, writeJSONError 404 ''no such session'')
           | Some sess \<Rightarrow> (s, writeJSON 200 (SessionV (sessionView s sess)))))"

definition handleDeleteSession :: "time \<Rightarrow> http_request \<Rightarrow> server \<Rightarrow> server \<times> api_response" where
  "handleDeleteSession now r s =
     (case authorized now r s of
        (s, False) \<Rightarrow> (s, signInFirst)
      | (s, True) \<Rightarrow>
          (case sessionAt (rq_path r) s of
             None \<Rightarrow> (s, writeJSONError 404 ''no such session'')
           | Some sess \<Rightarrow> (closeSession (rq_path r) s, noContent)))"

definition handleListRelays :: "time \<Rightarrow> http_request \<Rightarrow> server \<Rightarrow> server \<times> api_response" where
  "handleListRelays now r s =
     (case authorized now r s of
        (s, False) \<Rightarrow> (s, signInFirst)
      | (s, True) \<Rightarrow> (s, writeJSON 200 (RelaysV (snapshotRelays s))))"

definition handleDeleteRelay :: "time \<Rightarrow> http_request \<Rightarrow> server \<Rightarrow> server \<times> api_response" where
  "handleDeleteRelay now r s =
     (case authorized now r s of
        (s, False) \<Rightarrow> (s, signInFirst)
      | (s, True) \<Rightarrow>
          (case mget (sv_relays s) (rq_path r) of
             None \<Rightarrow> (s, writeJSONError 404 ''no such relay route'')
           | Some route \<Rightarrow> (dropRelay (rq_path r) s, noContent)))"

definition pruneAges :: "(string \<times> duration) list" where
  "pruneAges = [(''1m'', minute), (''5m'', 5 * minute), (''15m'', 15 * minute), (''1h'', hour),
     (''6h'', 6 * hour), (''24h'', 24 * hour)]"

definition sortedPruneAges :: "string list" where
  "sortedPruneAges =
     sort_key (\<lambda>age. case mget pruneAges age of None \<Rightarrow> 0 | Some d \<Rightarrow> d) (map fst (mentries pruneAges))"

definition handlePruneRelays :: "time \<Rightarrow> http_request \<Rightarrow> server \<Rightarrow> server \<times> api_response" where
  "handlePruneRelays now r s =
     (case authorized now r s of
        (s, False) \<Rightarrow> (s, signInFirst)
      | (s, True) \<Rightarrow>
          (case mget pruneAges (rq_idleFor r) of
             None \<Rightarrow> (s, writeJSONError 400 (''idle_for must be one of '' @ joinWith '', '' sortedPruneAges))
           | Some idle \<Rightarrow>
               (case pruneRelays now idle s of
                  (s, removed) \<Rightarrow> (s, writeJSON 200 (PrunedV (rq_idleFor r) (length removed) removed)))))"

lemmas api_handler_defs [go_defs] =
  signInFirst_def handleStatus_def handleListSessions_def sessionAt_def handleGetSession_def
  handleDeleteSession_def handleListRelays_def handleDeleteRelay_def pruneAges_def sortedPruneAges_def
  handlePruneRelays_def

section \<open>Routing\<close>

text \<open>
  Which handler a method and a clean path reach (\<open>ServeMux\<close> redirects any other path to its clean
  form first). A wildcard segment is the path value, and never empty; a \<open>GET\<close> pattern also takes
  \<open>HEAD\<close>; what no pattern with a method takes goes to the pattern \<open>/\<close>.
\<close>

datatype route_target =
    RSignal | RBanner | RNotFound | RStatus | RListSessions | RGetSession string | RDeleteSession string
  | RListRelays | RDeleteRelay string | RPruneRelays | RAuthSession | RAuthLogin | RAuthLogout
  | RAuthAccount | RHealthz | ROpenAPI | RUI

definition wildcard :: "string \<Rightarrow> string \<Rightarrow> string option" where
  "wildcard prefix path =
     (if hasPrefix path prefix \<and> path \<noteq> prefix \<and> CHR ''/'' \<notin> set (drop (length prefix) path)
      then Some (drop (length prefix) path) else None)"

text \<open>The targets the patterns of the admin API give a path, by method.\<close>

definition apiTargets :: "string \<Rightarrow> (string \<times> route_target) list" where
  "apiTargets path =
     (if path = ''/api/v1/status'' then [(''GET'', RStatus)]
      else if path = ''/api/v1/sessions'' then [(''GET'', RListSessions)]
      else if path = ''/api/v1/relays'' then [(''GET'', RListRelays), (''DELETE'', RPruneRelays)]
      else if path = ''/api/v1/auth/session'' then [(''GET'', RAuthSession)]
      else if path = ''/api/v1/auth/login'' then [(''POST'', RAuthLogin)]
      else if path = ''/api/v1/auth/logout'' then [(''POST'', RAuthLogout)]
      else if path = ''/api/v1/auth/account'' then [(''POST'', RAuthAccount)]
      else if path = ''/healthz'' then [(''GET'', RHealthz)]
      else if path = ''/openapi.json'' \<or> path = ''/api/v1/openapi.json'' then [(''GET'', ROpenAPI)]
      else
        (case wildcard ''/api/v1/sessions/'' path of
           Some code \<Rightarrow> [(''GET'', RGetSession code), (''DELETE'', RDeleteSession code)]
         | None \<Rightarrow>
             (case wildcard ''/api/v1/relays/'' path of
                Some token \<Rightarrow> [(''DELETE'', RDeleteRelay token)]
              | None \<Rightarrow> [])))"

definition routeOf :: "bool \<Rightarrow> bool \<Rightarrow> string \<Rightarrow> string \<Rightarrow> route_target" where
  "routeOf disabled hasUI meth path =
     (if path = ''/signal'' then RSignal
      else if disabled then (if path = ''/'' then RBanner else RNotFound)
      else
        (case map_of (apiTargets path) (if meth = ''HEAD'' then ''GET'' else meth) of
           Some t \<Rightarrow> t
         | None \<Rightarrow> if hasUI then RUI else if path = ''/'' then RBanner else RNotFound))"

text \<open>The handlers of the rendezvous state, by route.\<close>

fun apiHandler :: "route_target \<Rightarrow> (time \<Rightarrow> http_request \<Rightarrow> server \<Rightarrow> server \<times> api_response) option" where
  "apiHandler RStatus = Some handleStatus"
| "apiHandler RListSessions = Some handleListSessions"
| "apiHandler (RGetSession code) = Some (\<lambda>now r. handleGetSession now (r\<lparr>rq_path := code\<rparr>))"
| "apiHandler (RDeleteSession code) = Some (\<lambda>now r. handleDeleteSession now (r\<lparr>rq_path := code\<rparr>))"
| "apiHandler RListRelays = Some handleListRelays"
| "apiHandler (RDeleteRelay token) = Some (\<lambda>now r. handleDeleteRelay now (r\<lparr>rq_path := token\<rparr>))"
| "apiHandler RPruneRelays = Some handlePruneRelays"
| "apiHandler _ = None"

lemmas routing_defs [go_defs] = wildcard_def apiTargets_def routeOf_def

fun_cases apiHandler_Some: "apiHandler t = Some h"

section \<open>Properties\<close>

lemma authorized_path [simp]: "authorized now (r\<lparr>rq_path := p\<rparr>) s = authorized now r s"
  by (simp add: authorized_def authSession_def)

lemma fst_authorized_admin: "\<exists>a. fst (authorized now r s) = s\<lparr>sv_admin := a\<rparr>"
proof -
  have "\<exists>a. fst (authSession now r s) = s\<lparr>sv_admin := a\<rparr>"
    by (cases "rq_cookie r") (auto simp: authSession_def split: prod.split intro: exI [of _ "sv_admin s"])
  then show ?thesis
    by (auto simp: authorized_def split: prod.split option.split)
qed


text \<open>A state and a request for the examples: one signed-in session, one code, two routes.\<close>

definition apiCfg :: server_config where
  "apiCfg = \<lparr> cf_httpAddr = '':8000'', cf_udpAddr = '':8000'', cf_name = [], cf_publicUDP = [],
     cf_publicURL = [], cf_version = [],
     cf_admin = \<lparr> ac_disabled = False, ac_username = [], ac_passwordHash = ''h'', ac_sessionTTL = 0,
       ac_trustForwardedHeaders = False \<rparr>, cf_saveAdmin = None \<rparr>"

definition apiState :: server where
  "apiState = (newServer 0 apiCfg)\<lparr>
     sv_admin := \<lparr> aa_sessions = [(''c'', \<lparr> as_username = ''admin'', as_expires = hour,
       as_mustChangePassword = False \<rparr>)], aa_ttl = hour \<rparr>,
     sv_sessions := [(''k'', 0)],
     sv_sheap := [0 \<mapsto> \<lparr> ss_code = ''k'', ss_peers = [], ss_paired = False, ss_created = 0, ss_pairedAt = None \<rparr>],
     sv_relays := [(''b'', (newRoute 0)\<lparr>rr_seen := 0\<rparr>), (''a'', (newRoute 0)\<lparr>rr_seen := 1\<rparr>),
                   (''n'', (newRoute 0)\<lparr>rr_seen := 9 * minute\<rparr>)],
     sv_next := 1 \<rparr>"

definition noCookie :: http_request where
  "noCookie = \<lparr> rq_cookie = None, rq_host = [], rq_remote = [], rq_tls = False,
     rq_forwardedProto = [], rq_forwardedFor = [], rq_path = [], rq_idleFor = [] \<rparr>"


lemma authorized_cases:
  assumes "snd (authorized now r s)"
  shows "authorized now r s = (s, True)"
proof -
  have "fst (authorized now r s) = s"
    using assms by (auto simp: authorized_def authSession_def lookup_def split: option.splits if_splits prod.splits)
  then show ?thesis
    using assms by (cases "authorized now r s") simp
qed

text \<open>
  Deleting a session through the API. An authorized delete of a code that exists answers 204, and
  from then on the same caller gets 404 for that code, by reading it or deleting it again; other codes
  are still served; a code that does not exist gives 404 and changes nothing.
\<close>

lemma delete_session_then_gone:
  assumes "snd (authorized now r s)"
    and "(s', resp) = handleDeleteSession now (r\<lparr>rq_path := code\<rparr>) s"
  shows "(if sessionAt code s = None then rs_status resp = 404 \<and> s' = s
      else rs_status resp = 204 \<and>
        snd (handleGetSession now (r\<lparr>rq_path := code\<rparr>) s') = writeJSONError 404 ''no such session'' \<and>
        handleDeleteSession now (r\<lparr>rq_path := code\<rparr>) s' = (s', writeJSONError 404 ''no such session'') \<and>
        (\<forall>k. k \<noteq> code \<longrightarrow> sessionAt k s' = sessionAt k s))"
proof (cases "sessionAt code s")
  case None
  then show ?thesis
    using assms by (simp add: handleDeleteSession_def authorized_cases writeJSONError_def)
next
  case (Some sess)
  have s': "s' = closeSession code s" "resp = noContent"
    using assms Some by (simp_all add: handleDeleteSession_def authorized_cases)
  obtain sid where sid: "mget (sv_sessions s) code = Some sid" "sv_sheap s sid = Some sess"
    using Some by (auto simp: sessionAt_def split: option.splits)
  have "authorized now r s' = (s', True)"
    using assms(1) authorized_cases [OF assms(1)]
    by (intro authorized_cases) (auto simp: s' authorized_def authSession_def lookup_def
        split: option.splits if_splits prod.splits)
  moreover have "mget (sv_sessions s') k = (if k = code then None else mget (sv_sessions s) k)" for k
    by (simp add: s'(1) closeSession_def Let_def sid)
  then have "sessionAt k s' = (if k = code then None else sessionAt k s)" for k
    by (simp add: sessionAt_def) (simp add: s'(1) split: option.split)
  ultimately show ?thesis
    using Some by (simp add: s'(2) noContent_def handleGetSession_def handleDeleteSession_def)
qed

definition apiReq :: "string \<Rightarrow> http_request" where
  "apiReq idle = noCookie\<lparr>rq_cookie := Some ''c'', rq_idleFor := idle\<rparr>"

lemma apiReq_authorized: "now \<le> hour \<Longrightarrow> snd (authorized now (apiReq idle) apiState)"
  by (simp add: authorized_def authSession_def lookup_def apiReq_def noCookie_def apiState_def gomap_defs)

lemma delete_session_then_gone_witness:
  "rs_status (snd (handleDeleteSession 5 ((apiReq [])\<lparr>rq_path := ''k''\<rparr>) apiState)) = 204"
proof -
  have "sessionAt ''k'' apiState \<noteq> None"
    by (simp add: sessionAt_def apiState_def gomap_defs)
  then show ?thesis
    using delete_session_then_gone [OF apiReq_authorized [of 5 "[]"] prod.collapse, of "''k''"]
    by (simp add: hour_def minute_def second_def)
qed

text \<open>
  Pruning through the API. For an authorized caller and one of the offered ages, the routes idle
  longer than that age are removed and exactly they are reported, in ascending order, each once, with
  their number; every other route stays. Any other age is refused with the list of the ages, shortest
  first, and removes nothing.
\<close>

lemma prune_reports_what_it_removes:
  assumes "snd (authorized now r s)" "mwf (sv_relays s)"
    and "(s', resp) = handlePruneRelays now r s"
  shows "case mget pruneAges (rq_idleFor r) of
      None \<Rightarrow> s' = s \<and> resp = writeJSONError 400 ''idle_for must be one of 1m, 5m, 15m, 1h, 6h, 24h''
    | Some idle \<Rightarrow>
        \<exists>removed. resp = writeJSON 200 (PrunedV (rq_idleFor r) (length removed) removed) \<and>
          sorted removed \<and> distinct removed \<and>
          (\<forall>t. t \<in> set removed \<longleftrightarrow> (\<exists>q. mget (sv_relays s) t = Some q \<and> idle < now - rr_seen q)) \<and>
          (\<forall>t. mget (sv_relays s') t = (if t \<in> set removed then None else mget (sv_relays s) t))"
proof (cases "mget pruneAges (rq_idleFor r)")
  case None
  have "joinWith '', '' sortedPruneAges = ''1m, 5m, 15m, 1h, 6h, 24h''"
    by (simp add: sortedPruneAges_def pruneAges_def gomap_defs duration_defs)
  then show ?thesis
    using assms None by (simp add: handlePruneRelays_def authorized_cases)
next
  case (Some idle)
  let ?rm = "snd (pruneRelays now idle s)"
  have "s' = fst (pruneRelays now idle s)" "resp = writeJSON 200 (PrunedV (rq_idleFor r) (length ?rm) ?rm)"
    using assms Some by (simp_all add: handlePruneRelays_def authorized_cases split: prod.splits)
  moreover have "distinct (map fst (filter (\<lambda>(tok, route). idle < now - rr_seen route) (mentries (sv_relays s))))"
    using gm.distinct_entries [OF assms(2)] by (rule distinct_map_filter)
  then have "sorted ?rm" "distinct ?rm"
    by (simp_all add: pruneRelays_def)
  moreover have "mget (sv_relays s') t = (if t \<in> set ?rm then None else mget (sv_relays s) t)" for t
    using set_pruneRelays [OF assms(2), of t now idle] calculation(1)
    by (auto simp: mget_pruneRelays [OF assms(2)] split: option.split)
  ultimately show ?thesis
    using Some set_pruneRelays [OF assms(2), of _ now idle]
    by (simp only: option.case) (intro exI [of _ ?rm], simp)
qed

lemma prune_reports_what_it_removes_witness:
  "\<exists>removed. snd (handlePruneRelays (10 * minute) (apiReq ''5m'') apiState) =
     writeJSON 200 (PrunedV ''5m'' (length removed) removed) \<and> ''a'' \<in> set removed \<and> ''n'' \<notin> set removed"
proof -
  have wf: "mwf (sv_relays apiState)"
    by (simp add: apiState_def mwf_def)
  have au: "snd (authorized (10 * minute) (apiReq ''5m'') apiState)"
    by (rule apiReq_authorized) (simp add: duration_defs)
  have idle: "rq_idleFor (apiReq ''5m'') = ''5m''" "mget pruneAges ''5m'' = Some (5 * minute)"
    by (simp_all add: apiReq_def pruneAges_def gomap_defs)
  have "\<exists>q. mget (sv_relays apiState) ''a'' = Some q \<and> 5 * minute < 10 * minute - rr_seen q"
    "\<not> (\<exists>q. mget (sv_relays apiState) ''n'' = Some q \<and> 5 * minute < 10 * minute - rr_seen q)"
    by (simp_all add: apiState_def gomap_defs duration_defs)
  with prune_reports_what_it_removes [OF au wf prod.collapse, unfolded idle option.case] show ?thesis
    by blast
qed

definition busier :: "relay_view \<Rightarrow> relay_view \<Rightarrow> bool" where
  "busier v w \<longleftrightarrow> rv_bytes w < rv_bytes v \<or> (rv_bytes v = rv_bytes w \<and> rv_seen w \<le> rv_seen v)"

lemma sorted_sort_key2:
  "sorted_wrt (\<lambda>x y. f x < f y \<or> (f x = f y \<and> g x \<le> g y)) (sort_key f (sort_key g xs))"
proof -
  have stable: "sorted (map g (filter (\<lambda>y. f y = k) (sort_key f (sort_key g xs))))" for k
    by (simp add: sort_key_stable sorted_filter)
  have "sorted_wrt (\<lambda>x y. f x < f y \<or> (f x = f y \<and> g x \<le> g y)) zs"
    if "sorted (map f zs)" "\<And>k. sorted (map g (filter (\<lambda>y. f y = k) zs))" for zs
    using that
  proof (induction zs)
    case (Cons z zs)
    have "f z < f y \<or> (f z = f y \<and> g z \<le> g y)" if "y \<in> set zs" for y
      using that Cons.prems(1) Cons.prems(2) [of "f z"] by (fastforce simp: le_less)
    moreover have "sorted (map g (filter (\<lambda>y. f y = k) zs))" for k
      using Cons.prems(2) [of k] by (simp split: if_splits)
    ultimately show ?case
      using Cons by simp
  qed simp
  then show ?thesis
    using stable by simp
qed

text \<open>
  The list of relay routes shows every route once, as it is, busiest first; of two that carried
  the same number of bytes, the one heard from last comes first.
\<close>

lemma relay_list_complete_sorted:
  "mset (snapshotRelays s) = mset (map (\<lambda>(token, route). relayView token route) (mentries (sv_relays s))) \<and>
   sorted_wrt busier (snapshotRelays s)"
proof -
  have "sorted_wrt (\<lambda>v w. - uint (rv_bytes v) < - uint (rv_bytes w) \<or>
      (- uint (rv_bytes v) = - uint (rv_bytes w) \<and> - rv_seen v \<le> - rv_seen w)) (snapshotRelays s)"
    unfolding snapshotRelays_def by (rule sorted_sort_key2)
  moreover have "(\<lambda>v w. - uint (rv_bytes v) < - uint (rv_bytes w) \<or>
      (- uint (rv_bytes v) = - uint (rv_bytes w) \<and> - rv_seen v \<le> - rv_seen w)) = busier"
    by (simp add: fun_eq_iff busier_def word_less_def word_uint_eq_iff)
  ultimately show ?thesis
    by (simp add: snapshotRelays_def)
qed

end
