(* ===== verification/Stream_Io.thy ===== *)
theory Stream_Io
  imports Go_Strings
begin

text \<open>
  Byte streams as Go's \<open>io\<close> package sees them, and the length-prefixed frames both protocols of the
  repository put on them.

  What a reader delivers is a record of the bytes still to come and the error that follows them
  (\<open>EOF\<close> for a clean end). A writer is a record of the bytes written, how many more it takes before
  its writes fail (nothing for one that does not fail), with what error, and whether it was closed.
\<close>

section \<open>Readers and writers\<close>

record in_stream =
  in_data :: bytes
  in_end :: string

definition eof :: string where
  "eof = ''EOF''"

definition unexpectedEOF :: string where
  "unexpectedEOF = ''unexpected EOF''"

definition readFull :: "nat \<Rightarrow> in_stream \<Rightarrow> (string + bytes) \<times> in_stream" where
  "readFull n s =
     (if n \<le> length (in_data s) then (Inr (take n (in_data s)), s\<lparr>in_data := drop n (in_data s)\<rparr>)
      else (Inl (if in_data s \<noteq> [] \<and> in_end s = eof then unexpectedEOF else in_end s), s\<lparr>in_data := []\<rparr>))"

record out_stream =
  out_data :: bytes
  out_room :: "nat option"
  out_err :: string
  out_closed :: bool

definition streamWrite :: "bytes \<Rightarrow> out_stream \<Rightarrow> string option \<times> out_stream" where
  "streamWrite b w =
     (case out_room w of
        None \<Rightarrow> (None, w\<lparr>out_data := out_data w @ b\<rparr>)
      | Some k \<Rightarrow>
          if length b \<le> k then (None, w\<lparr>out_data := out_data w @ b, out_room := Some (k - length b)\<rparr>)
          else (Some (out_err w), w\<lparr>out_data := out_data w @ take k b, out_room := Some 0\<rparr>))"

definition streamClose :: "out_stream \<Rightarrow> out_stream" where
  "streamClose w = w\<lparr>out_closed := True\<rparr>"

text \<open>
  A file opened for writing, by what its disk says: how many bytes it takes before writes fail, and
  with what error; or nothing.
\<close>

type_synonym disk = "(nat \<times> string) option"

definition newFile :: "disk \<Rightarrow> out_stream" where
  "newFile d =
     \<lparr> out_data = [], out_room = map_option fst d, out_err = (case d of None \<Rightarrow> [] | Some (_, e) \<Rightarrow> e),
       out_closed = False \<rparr>"

text \<open>
  \<open>io.Copy\<close> to the writer's end of trouble or the reader's; \<open>io.CopyN\<close>, which is an error unless
  \<open>n\<close> bytes came.
\<close>

definition ioCopy :: "in_stream \<Rightarrow> out_stream \<Rightarrow> out_stream" where
  "ioCopy s w = snd (streamWrite (in_data s) w)"

definition ioCopyN :: "int \<Rightarrow> in_stream \<Rightarrow> out_stream \<Rightarrow> string option \<times> in_stream \<times> out_stream" where
  "ioCopyN n s w =
     (let k = min (nat n) (length (in_data s)); r = streamWrite (take k (in_data s)) w
      in (if fst r \<noteq> None then fst r else if int k < n then Some (in_end s) else None,
          s\<lparr>in_data := drop k (in_data s)\<rparr>, snd r))"

lemmas stream_defs [go_defs] =
  newFile_def   readFull_def streamWrite_def streamClose_def ioCopy_def ioCopyN_def eof_def unexpectedEOF_def

lemma newFile_None [simp]:
  "streamWrite b (newFile None) = (None, \<lparr> out_data = b, out_room = None, out_err = [], out_closed = False \<rparr>)"
  "out_data (ioCopy s (newFile None)) = in_data s"
  by (simp_all add: streamWrite_def newFile_def ioCopy_def)

text \<open>However a disk fails, what a file holds is a beginning of what was copied to it.\<close>

lemma ioCopy_prefix: "\<exists>n. out_data (ioCopy s (newFile d)) = take n (in_data s)"
proof (cases d)
  case None
  then show ?thesis
    by (auto intro: exI [of _ "length (in_data s)"])
next
  case (Some p)
  then show ?thesis
    by (cases p) (auto simp: ioCopy_def streamWrite_def newFile_def intro: exI [of _ "length (in_data s)"])
qed

lemma readFull_append [simp]:
  "length b = n \<Longrightarrow> readFull n \<lparr>in_data = b @ rest, in_end = e\<rparr> = (Inr b, \<lparr>in_data = rest, in_end = e\<rparr>)"
  by (simp add: readFull_def)

text \<open>Both ends of a connection: what it delivers and what is written to it.\<close>

record duplex =
  dx_in :: in_stream
  dx_out :: out_stream

section \<open>Frames\<close>

text \<open>
  A frame format: the bytes \<open>enc\<close> writes for a body that is \<open>ok\<close> are what \<open>dec\<close> reads it back
  from, leaving the reader at the byte after.
\<close>

primrec readMany :: "('s \<Rightarrow> ('e + 'a) \<times> 's) \<Rightarrow> nat \<Rightarrow> 's \<Rightarrow> ('e + 'a list) \<times> 's" where
  "readMany rd 0 s = (Inr [], s)"
| "readMany rd (Suc n) s =
     (case rd s of
        (Inl e, s') \<Rightarrow> (Inl e, s')
      | (Inr b, s') \<Rightarrow>
          (case readMany rd n s' of (Inl e, s'') \<Rightarrow> (Inl e, s'') | (Inr bs, s'') \<Rightarrow> (Inr (b # bs), s'')))"

locale framing =
  fixes ok :: "'a \<Rightarrow> bool" and enc :: "'a \<Rightarrow> bytes"
    and dec :: "in_stream \<Rightarrow> (string + 'a) \<times> in_stream"
  assumes dec_enc: "ok b \<Longrightarrow> dec \<lparr>in_data = enc b @ rest, in_end = e\<rparr> = (Inr b, \<lparr>in_data = rest, in_end = e\<rparr>)"
begin

lemma read_frames:
  "list_all ok bs \<Longrightarrow>
   readMany dec (length bs) \<lparr>in_data = concat (map enc bs) @ rest, in_end = e\<rparr> =
     (Inr bs, \<lparr>in_data = rest, in_end = e\<rparr>)"
  by (induction bs) (simp_all add: dec_enc)

lemma frames_unambiguous:
  assumes "ok a" "ok b" "enc a @ x = enc b @ y"
  shows "a = b \<and> x = y"
proof -
  have "(Inr a :: string + 'a, \<lparr>in_data = x, in_end = eof\<rparr>) = (Inr b, \<lparr>in_data = y, in_end = eof\<rparr>)"
    using dec_enc [OF assms(1), of x eof] unfolding assms(3) dec_enc [OF assms(2)] by (rule sym)
  then show ?thesis
    by simp
qed

lemma frame_streams_inj:
  assumes "list_all ok as" "list_all ok bs" "length as = length bs"
    and "concat (map enc as) @ x = concat (map enc bs) @ y"
  shows "as = bs \<and> x = y"
proof -
  have "(Inr as :: string + 'a list, \<lparr>in_data = x, in_end = eof\<rparr>) = (Inr bs, \<lparr>in_data = y, in_end = eof\<rparr>)"
    using read_frames [OF assms(1), of x eof]
    unfolding assms(3,4) read_frames [OF assms(2)] by (rule sym)
  then show ?thesis
    by simp
qed

end

text \<open>
  The format both protocols use: four bytes of big-endian length, then the body, refused by the
  reader when the length exceeds a limit.
\<close>

definition frameBytes :: "bytes \<Rightarrow> bytes" where
  "frameBytes b = putUint32 (length b) @ b"

definition writeLP :: "bytes \<Rightarrow> out_stream \<Rightarrow> string option \<times> out_stream" where
  "writeLP b w =
     (case streamWrite (putUint32 (length b)) w of
        (Some e, w') \<Rightarrow> (Some e, w')
      | (None, w') \<Rightarrow> streamWrite b w')"

definition readLP :: "nat \<Rightarrow> string \<Rightarrow> in_stream \<Rightarrow> (string + bytes) \<times> in_stream" where
  "readLP limit tooLarge s =
     (case readFull 4 s of
        (Inl e, s') \<Rightarrow> (Inl e, s')
      | (Inr lp, s') \<Rightarrow> if limit < getUint32 lp then (Inl tooLarge, s') else readFull (getUint32 lp) s')"

declare frameBytes_def [go_defs] writeLP_def [go_defs] readLP_def [go_defs]

lemma writeLP_open:
  "out_room w = None \<Longrightarrow> writeLP b w = (None, w\<lparr>out_data := out_data w @ frameBytes b\<rparr>)"
  by (simp add: writeLP_def streamWrite_def frameBytes_def)

lemma readLP_frame:
  assumes "length b \<le> limit" "limit < 2 ^ 32"
  shows "readLP limit t \<lparr>in_data = frameBytes b @ rest, in_end = e\<rparr> = (Inr b, \<lparr>in_data = rest, in_end = e\<rparr>)"
proof -
  have "getUint32 (putUint32 (length b)) = length b"
    using getUint32_putUint32 [of "length b" "[]"] assms by simp
  then show ?thesis
    using assms by (simp add: readLP_def frameBytes_def)
qed

text \<open>Whatever arrives, the body a reader accepts is within the limit.\<close>

lemma readLP_bound:
  assumes "readLP limit t s = (Inr b, s')"
  shows "length b \<le> limit \<and> in_data s = take 4 (in_data s) @ b @ in_data s'"
proof -
  obtain lp s1 where 1: "readFull 4 s = (Inr lp, s1)" "getUint32 lp \<le> limit"
    "readFull (getUint32 lp) s1 = (Inr b, s')"
    using assms by (auto simp: readLP_def split: prod.splits sum.splits if_splits)
  then have "in_data s1 = drop 4 (in_data s)"
    by (auto simp: readFull_def split: if_splits)
  moreover have "b = take (getUint32 lp) (in_data s1)" "in_data s' = drop (getUint32 lp) (in_data s1)"
    "length b = getUint32 lp"
    using 1(3) by (auto simp: readFull_def split: if_splits)
  ultimately show ?thesis
    using 1(2) by (metis append_take_drop_id)
qed

end
