(* ===== verification/Mux.thy ===== *)
theory Mux
  imports Stream_Io
begin

text \<open>
  The header every tunnel stream starts with (\<open>internal/mux/mux.go\<close>). The JSON text of a header is
  what the parameters \<open>marshal\<close> and \<open>unmarshal\<close> make of it.
\<close>

definition kindTCP :: string where
  "kindTCP = ''tcp''"

definition kindFile :: string where
  "kindFile = ''file''"

definition kindExec :: string where
  "kindExec = ''exec''"

record file_header =
  fh_op :: string
  fh_path :: string
  fh_size :: int
  fh_mode :: "32 word"

record exec_header =
  eh_args :: "string list"
  eh_pty :: bool

record open_msg =
  om_kind :: string
  om_target :: string
  om_file :: "file_header option"
  om_exec :: "exec_header option"

definition openMsg0 :: open_msg where
  "openMsg0 = \<lparr> om_kind = [], om_target = [], om_file = None, om_exec = None \<rparr>"

type_synonym marshaller = "open_msg \<Rightarrow> string + bytes"
type_synonym unmarshaller = "bytes \<Rightarrow> string + open_msg"

definition maxHeader :: nat where
  "maxHeader = 64 * 1024"

definition writeHeader :: "marshaller \<Rightarrow> open_msg \<Rightarrow> out_stream \<Rightarrow> string option \<times> out_stream" where
  "writeHeader marshal m w =
     (case marshal m of
        Inl e \<Rightarrow> (Some e, w)
      | Inr b \<Rightarrow> if maxHeader < length b then (Some ''header too large'', w) else writeLP b w)"

definition readHeader :: "unmarshaller \<Rightarrow> in_stream \<Rightarrow> (string + open_msg) \<times> in_stream" where
  "readHeader unmarshal s =
     (case readLP maxHeader ''header too large'' s of
        (Inl e, s') \<Rightarrow> (Inl e, s')
      | (Inr buf, s') \<Rightarrow> (unmarshal buf, s'))"

lemmas kind_defs [go_defs] = kindTCP_def kindFile_def kindExec_def
lemmas mux_defs [go_defs] = maxHeader_def writeHeader_def readHeader_def

definition muxOk :: "bytes \<Rightarrow> bool" where
  "muxOk b \<longleftrightarrow> length b \<le> maxHeader"

interpretation mux: framing muxOk frameBytes "readLP maxHeader ''header too large''"
  by unfold_locales (simp add: muxOk_def readLP_frame maxHeader_def)

text \<open>A header that can be written is read back with what follows it untouched.\<close>

lemma writeHeader_ok:
  assumes "marshal m = Inr b" "length b \<le> maxHeader" "out_room w = None"
  shows "writeHeader marshal m w = (None, w\<lparr>out_data := out_data w @ frameBytes b\<rparr>)"
  using assms by (simp add: writeHeader_def writeLP_open)

lemma readHeader_frame:
  assumes "length b \<le> maxHeader"
  shows "readHeader unmarshal \<lparr>in_data = frameBytes b @ rest, in_end = e\<rparr> =
    (unmarshal b, \<lparr>in_data = rest, in_end = e\<rparr>)"
  using mux.dec_enc [of b rest e] assms by (simp add: readHeader_def muxOk_def)

lemma writeHeader_error:
  assumes "writeHeader marshal m w = (Some e, w')" "out_room w = None"
  shows "w' = w"
  using assms by (auto simp: writeHeader_def writeLP_open split: sum.splits if_splits)

end
