(* ===== verification/Go_Path.thy ===== *)
theory Go_Path
  imports Go_Strings "HOL-Library.Sublist"
begin

text \<open>
  The lexical path functions of Go's \<open>path\<close> and \<open>path/filepath\<close> packages as they work on Unix
  (\<open>Clean\<close>, \<open>Join\<close>, \<open>Abs\<close>, \<open>Base\<close>, \<open>Dir\<close>), and what a string prefix of cleaned absolute paths means
  for their elements.
\<close>

abbreviation slash :: char where
  "slash \<equiv> CHR ''/''"

section \<open>The functions\<close>

text \<open>One element of a path, the elements kept so far last first.\<close>

fun cleanElem :: "bool \<Rightarrow> string list \<Rightarrow> string \<Rightarrow> string list" where
  "cleanElem rooted st e =
     (if e = [] \<or> e = ''.'' then st
      else if e = ''..'' then
        (case st of
           [] \<Rightarrow> (if rooted then [] else [''..''])
         | x # xs \<Rightarrow> (if x = ''..'' then ''..'' # st else xs))
      else e # st)"

declare cleanElem.simps [simp del]

definition cleanElems :: "bool \<Rightarrow> string list \<Rightarrow> string list" where
  "cleanElems rooted es = rev (foldl (cleanElem rooted) [] es)"

definition isAbs :: "string \<Rightarrow> bool" where
  "isAbs p = hasPrefix p ''/''"

definition cleanPath :: "string \<Rightarrow> string" where
  "cleanPath p =
     (if isAbs p then slash # joinWith ''/'' (cleanElems True (splitOn slash p))
      else if cleanElems False (splitOn slash p) = [] then ''.''
      else joinWith ''/'' (cleanElems False (splitOn slash p)))"

definition joinPath :: "string \<Rightarrow> string \<Rightarrow> string" where
  "joinPath a b = (if a \<noteq> [] then cleanPath (a @ ''/'' @ b) else if b \<noteq> [] then cleanPath b else [])"

text \<open>\<open>Abs\<close>, given the working directory if it can be had.\<close>

definition absPath :: "string option \<Rightarrow> string \<Rightarrow> string option" where
  "absPath cwd p = (if isAbs p then Some (cleanPath p) else map_option (\<lambda>d. joinPath d p) cwd)"

definition basePath :: "string \<Rightarrow> string" where
  "basePath p =
     (let q = trimRightByte slash p
      in if p = [] then ''.'' else if q = [] then ''/'' else last (splitOn slash q))"

definition dirPath :: "string \<Rightarrow> string" where
  "dirPath p = cleanPath (case lastIndexByte slash p of None \<Rightarrow> [] | Some i \<Rightarrow> take (Suc i) p)"

lemmas gopath_defs [go_defs] =
  cleanElems_def isAbs_def cleanPath_def joinPath_def absPath_def basePath_def dirPath_def

section \<open>Elements of cleaned paths\<close>

text \<open>An ordinary element: neither empty nor a dot element, and without a separator.\<close>

definition plainElem :: "string \<Rightarrow> bool" where
  "plainElem e \<longleftrightarrow> e \<noteq> [] \<and> e \<noteq> ''.'' \<and> e \<noteq> ''..'' \<and> slash \<notin> set e"

lemma foldl_cleanElem_plain:
  "list_all plainElem st \<Longrightarrow> \<forall>e \<in> set es. slash \<notin> set e \<Longrightarrow>
   list_all plainElem (foldl (cleanElem True) st es)"
proof (induction es arbitrary: st)
  case (Cons e es)
  have "list_all plainElem (cleanElem True st e)"
    using Cons.prems by (cases st) (auto simp: cleanElem.simps list_all_iff plainElem_def)
  then show ?case
    using Cons by simp
qed simp

lemma cleanElems_plain: "list_all plainElem (cleanElems True (splitOn slash p))"
  using foldl_cleanElem_plain [of "[]" "splitOn slash p"] splitOn_parts [of _ slash p]
  by (auto simp: cleanElems_def)

lemma foldl_cleanElem_id:
  "list_all plainElem es \<Longrightarrow> foldl (cleanElem r) st es = rev es @ st"
  by (induction es arbitrary: st) (auto simp: cleanElem.simps plainElem_def)

lemma cleanElems_id [simp]: "list_all plainElem es \<Longrightarrow> cleanElems r es = es"
  by (simp add: cleanElems_def foldl_cleanElem_id)

lemma cleanElems_Nil [simp]: "cleanElems r ([] # es) = cleanElems r es"
  by (simp add: cleanElems_def cleanElem.simps)

text \<open>A rooted path written out from its elements.\<close>

definition rootedPath :: "string list \<Rightarrow> string" where
  "rootedPath es = slash # joinWith ''/'' es"

definition pathElems :: "string \<Rightarrow> string list" where
  "pathElems p = cleanElems True (splitOn slash p)"

lemma pathElems_plain [simp]: "list_all plainElem (pathElems p)"
  by (simp add: pathElems_def cleanElems_plain)

lemma cleanPath_rooted: "isAbs p \<Longrightarrow> cleanPath p = rootedPath (pathElems p)"
  by (simp add: cleanPath_def rootedPath_def pathElems_def)

lemma splitOn_rooted:
  "list_all plainElem es \<Longrightarrow> splitOn slash (rootedPath es) = [] # (if es = [] then [[]] else es)"
  by (auto simp: rootedPath_def splitOn_joinWith list_all_iff plainElem_def)

lemma pathElems_rooted [simp]: "list_all plainElem es \<Longrightarrow> pathElems (rootedPath es) = es"
  by (simp add: pathElems_def splitOn_rooted cleanElems_def cleanElem.simps foldl_cleanElem_id)

lemma isAbs_rooted [simp]: "isAbs (rootedPath es)"
  by (simp add: isAbs_def rootedPath_def hasPrefix_def)

lemma cleanPath_id [simp]: "list_all plainElem es \<Longrightarrow> cleanPath (rootedPath es) = rootedPath es"
  by (simp add: cleanPath_rooted)

lemma rootedPath_inj:
  "list_all plainElem es \<Longrightarrow> list_all plainElem fs \<Longrightarrow> rootedPath es = rootedPath fs \<longleftrightarrow> es = fs"
  using pathElems_rooted by metis

section \<open>String prefixes and element prefixes\<close>

lemma rootedPath_Cons:
  "rootedPath (e # es) @ ''/'' = slash # e @ (if es = [] then ''/'' else rootedPath es @ ''/'')"
  by (cases es) (simp_all add: rootedPath_def)

lemma until_slash_eq:
  assumes "x @ slash # u = y @ slash # v" "slash \<notin> set x" "slash \<notin> set y"
  shows "x = y \<and> u = v"
  using assms
proof (induction x arbitrary: y)
  case Nil
  then show ?case by (cases y) auto
next
  case (Cons a x)
  then show ?case by (cases y) auto
qed

text \<open>A path below the root starts with another and a separator exactly if its elements do.\<close>

lemma prefix_rooted:
  assumes "list_all plainElem es" "list_all plainElem fs" "es \<noteq> []" "fs \<noteq> []"
  shows "hasPrefix (rootedPath fs @ ''/'') (rootedPath es @ ''/'') \<longleftrightarrow> prefix es fs"
  using assms
proof (induction es arbitrary: fs)
  case (Cons e es)
  obtain f fs' where fs: "fs = f # fs'"
    using Cons.prems(4) by (cases fs) auto
  have sl: "slash \<notin> set e" "slash \<notin> set f"
    using Cons.prems fs by (auto simp: plainElem_def)
  show ?case
  proof (cases "es = []")
    case True
    have "hasPrefix (rootedPath fs @ ''/'') (rootedPath [e] @ ''/'') \<longleftrightarrow> e = f"
    proof
      assume "hasPrefix (rootedPath fs @ ''/'') (rootedPath [e] @ ''/'')"
      then obtain t where "rootedPath fs @ ''/'' = rootedPath [e] @ ''/'' @ t"
        by (auto simp: hasPrefix_iff)
      then have "\<exists>u. f @ slash # u = e @ slash # t"
        unfolding fs rootedPath_Cons by (auto simp: rootedPath_def split: if_splits)
      then show "e = f"
        using until_slash_eq sl by blast
    next
      assume "e = f"
      then show "hasPrefix (rootedPath fs @ ''/'') (rootedPath [e] @ ''/'')"
        unfolding fs rootedPath_Cons hasPrefix_iff by (auto simp: rootedPath_def)
    qed
    then show ?thesis
      using True fs by simp
  next
    case es: False
    have "hasPrefix (rootedPath fs @ ''/'') (rootedPath (e # es) @ ''/'') \<longleftrightarrow>
        e = f \<and> fs' \<noteq> [] \<and> hasPrefix (rootedPath fs' @ ''/'') (rootedPath es @ ''/'')"
    proof
      assume "hasPrefix (rootedPath fs @ ''/'') (rootedPath (e # es) @ ''/'')"
      then obtain t where t: "f @ (if fs' = [] then ''/'' else rootedPath fs' @ ''/'') =
          e @ rootedPath es @ ''/'' @ t"
        using es unfolding fs rootedPath_Cons hasPrefix_iff by auto
      have "e = f \<and> fs' \<noteq> [] \<and> rootedPath fs' @ ''/'' = rootedPath es @ ''/'' @ t"
      proof (cases "fs' = []")
        case True
        then show ?thesis
          using t sl until_slash_eq [of f "[]" e "joinWith ''/'' es @ ''/'' @ t"] by (simp add: rootedPath_def)
      next
        case False
        then show ?thesis
          using t sl until_slash_eq [of f "joinWith ''/'' fs' @ ''/''" e "joinWith ''/'' es @ ''/'' @ t"]
          by (simp add: rootedPath_def)
      qed
      then show "e = f \<and> fs' \<noteq> [] \<and> hasPrefix (rootedPath fs' @ ''/'') (rootedPath es @ ''/'')"
        by (auto simp: hasPrefix_iff)
    next
      assume "e = f \<and> fs' \<noteq> [] \<and> hasPrefix (rootedPath fs' @ ''/'') (rootedPath es @ ''/'')"
      then show "hasPrefix (rootedPath fs @ ''/'') (rootedPath (e # es) @ ''/'')"
        using es unfolding fs rootedPath_Cons hasPrefix_iff by auto
    qed
    also have "\<dots> \<longleftrightarrow> e = f \<and> fs' \<noteq> [] \<and> prefix es fs'"
      using Cons.IH [of fs'] Cons.prems es fs by auto
    finally show ?thesis
      using es fs by (cases fs') auto
  qed
qed simp

section \<open>Joining below a root\<close>

text \<open>
  What is reached from a directory by a relative path: the elements of the path are applied in turn,
  \<open>..\<close> dropping the last element and stopping at the root of the file system.
\<close>

definition walkFrom :: "string list \<Rightarrow> string \<Rightarrow> string list" where
  "walkFrom es rel = rev (foldl (cleanElem True) (rev es) (splitOn slash rel))"

lemma walkFrom_plain: "list_all plainElem es \<Longrightarrow> list_all plainElem (walkFrom es rel)"
  using foldl_cleanElem_plain [of "rev es" "splitOn slash rel"] splitOn_parts [of _ slash rel]
  by (simp add: walkFrom_def)

lemma splitOn_append: "splitOn c (s @ c # t) = splitOn c s @ splitOn c t"
proof (induction s)
  case (Cons x s)
  then show ?case by (cases "splitOn c s") auto
qed simp

lemma pathElems_join: "pathElems (p @ ''/'' @ rel) = walkFrom (pathElems p) rel"
  by (simp add: pathElems_def walkFrom_def cleanElems_def splitOn_append)

lemma joinPath_abs: "isAbs p \<Longrightarrow> joinPath p rel = rootedPath (walkFrom (pathElems p) rel)"
proof -
  assume "isAbs p"
  then have "p \<noteq> []" "isAbs (p @ ''/'' @ rel)"
    by (cases p; auto simp: isAbs_def hasPrefix_def)+
  then show ?thesis
    unfolding joinPath_def by (simp only: cleanPath_rooted pathElems_join if_True simp_thms)
qed

lemma absPath_abs: "isAbs p \<Longrightarrow> absPath cwd p = Some (rootedPath (pathElems p))"
  by (simp add: absPath_def cleanPath_rooted)

text \<open>From plain elements alone nothing above the directory is reached.\<close>

lemma walkFrom_below:
  "list_all plainElem es \<Longrightarrow> list_all plainElem (splitOn slash rel) \<Longrightarrow> walkFrom es rel = es @ splitOn slash rel"
  by (simp add: walkFrom_def foldl_cleanElem_id)

section \<open>Staying below a root\<close>

text \<open>Cleaning a relative path first changes nothing about where it leads.\<close>

lemma walk_cleanElem:
  assumes "\<forall>x \<in> set st. x \<noteq> [] \<and> x \<noteq> ''.''"
  shows "foldl (cleanElem True) d (rev (cleanElem False st e)) =
    cleanElem True (foldl (cleanElem True) d (rev st)) e"
  using assms by (cases st) (simp_all add: cleanElem.simps)

lemma walk_clean:
  assumes "\<forall>x \<in> set st. x \<noteq> [] \<and> x \<noteq> ''.''"
  shows "foldl (cleanElem True) d (rev (foldl (cleanElem False) st es)) =
    foldl (cleanElem True) (foldl (cleanElem True) d (rev st)) es"
  using assms
proof (induction es arbitrary: st)
  case (Cons e es)
  have "\<forall>x \<in> set (cleanElem False st e). x \<noteq> [] \<and> x \<noteq> ''.''"
    using Cons.prems by (cases st) (auto simp: cleanElem.simps)
  then show ?case
    using Cons walk_cleanElem [of st d e] by simp
qed simp

lemma foldl_cleanElem_noSlash:
  "\<forall>e \<in> set st \<union> set es. slash \<notin> set e \<Longrightarrow> \<forall>e \<in> set (foldl (cleanElem r) st es). slash \<notin> set e"
proof (induction es arbitrary: st)
  case (Cons e es)
  have "\<forall>x \<in> set (cleanElem r st e) \<union> set es. slash \<notin> set x"
    using Cons.prems by (cases st) (auto simp: cleanElem.simps)
  then show ?case
    using Cons.IH by simp
qed simp

lemma walkFrom_clean:
  assumes "list_all plainElem es" "\<not> isAbs p"
  shows "walkFrom es (cleanPath p) = walkFrom es p"
proof (cases "cleanElems False (splitOn slash p) = []")
  case True
  then show ?thesis
    using assms walk_clean [of "[]" "rev es" "splitOn slash p"]
    by (simp add: walkFrom_def cleanPath_def cleanElems_def cleanElem.simps)
next
  case False
  have "\<forall>e \<in> set (cleanElems False (splitOn slash p)). slash \<notin> set e"
    using foldl_cleanElem_noSlash [of "[]" "splitOn slash p" False] splitOn_parts [of _ slash p]
    by (auto simp: cleanElems_def)
  then have "splitOn slash (cleanPath p) = cleanElems False (splitOn slash p)"
    using False assms(2) by (simp add: cleanPath_def splitOn_joinWith)
  then show ?thesis
    using assms(1) walk_clean [of "[]" "rev es" "splitOn slash p"]
    by (simp add: walkFrom_def cleanElems_def)
qed

lemma isAbs_append: "p \<noteq> [] \<Longrightarrow> isAbs (p @ q) = isAbs p"
  by (cases p) (simp_all add: isAbs_def hasPrefix_def)

lemma not_isAbs_clean: "\<not> isAbs p \<Longrightarrow> \<not> isAbs (cleanPath p)"
proof -
  assume p: "\<not> isAbs p"
  let ?es = "cleanElems False (splitOn slash p)"
  have "foldl (cleanElem False) st es \<noteq> [] \<Longrightarrow> [] \<notin> set st \<Longrightarrow> [] \<notin> set (foldl (cleanElem False) st es)"
    for st es
  proof (induction es arbitrary: st)
    case (Cons e es)
    have "[] \<notin> set (cleanElem False st e)"
      using Cons.prems(2) by (cases st) (auto simp: cleanElem.simps)
    then show ?case
      using Cons by simp
  qed simp
  then have ne: "[] \<notin> set ?es"
    by (metis cleanElems_def empty_iff list.set(1) set_rev)
  have "\<forall>e \<in> set ?es. slash \<notin> set e"
    using foldl_cleanElem_noSlash [of "[]" "splitOn slash p" False] splitOn_parts [of _ slash p]
    by (auto simp: cleanElems_def)
  then have "\<not> isAbs (joinWith ''/'' ?es)" if "?es \<noteq> []"
    using that ne by (cases ?es; cases "hd ?es"; cases "tl ?es") (auto simp: isAbs_def hasPrefix_def)
  then show ?thesis
    using p by (auto simp: cleanPath_def) (simp add: isAbs_def hasPrefix_def)
qed

text \<open>The working directory, when there is one, is an absolute path.\<close>

definition cwdOk :: "string option \<Rightarrow> bool" where
  "cwdOk cwd \<longleftrightarrow> (case cwd of None \<Rightarrow> True | Some d \<Rightarrow> isAbs d)"

text \<open>
  A root and a path joined to it, both made absolute: the elements of the result are those of the
  root, walked from by the path.
\<close>

lemma abs_join:
  assumes "absPath cwd root = Some r" "root \<noteq> []" "\<And>d. cwd = Some d \<Longrightarrow> isAbs d"
  shows "r = rootedPath (pathElems r) \<and>
    absPath cwd (cleanPath (joinPath root rel)) = Some (rootedPath (walkFrom (pathElems r) rel))"
proof (cases "isAbs root")
  case True
  then show ?thesis
    using assms(1) walkFrom_plain [of "pathElems root" rel]
    by (auto simp: absPath_abs joinPath_abs)
next
  case False
  then obtain d where d: "cwd = Some d" "isAbs d" "r = rootedPath (walkFrom (pathElems d) root)"
    using assms(1,3) by (auto simp: absPath_def joinPath_abs)
  have pl: "list_all plainElem (walkFrom (pathElems d) root)"
    by (simp add: walkFrom_plain)
  have na: "\<not> isAbs (root @ ''/'' @ rel)"
    using False assms(2) isAbs_append [of root] by simp
  have "walkFrom (pathElems d) (cleanPath (cleanPath (root @ ''/'' @ rel))) = walkFrom (pathElems d) (root @ ''/'' @ rel)"
    using na not_isAbs_clean walkFrom_clean [OF pathElems_plain] by metis
  also have "\<dots> = walkFrom (walkFrom (pathElems d) root) rel"
    by (simp add: walkFrom_def splitOn_append)
  finally show ?thesis
    using d pl na not_isAbs_clean [OF not_isAbs_clean [OF na]] assms(2)
    by (simp add: absPath_def joinPath_abs) (simp add: joinPath_def)
qed

text \<open>The two ways the programs compare a path with its root come to the same.\<close>

lemma prefix_checks_agree:
  "hasPrefix p (r @ ''/'') \<or> p = r \<longleftrightarrow> hasPrefix (p @ ''/'') (r @ ''/'') \<or> p = r"
proof -
  have "hasPrefix p (r @ ''/'')" if p: "hasPrefix (p @ ''/'') (r @ ''/'')" "p \<noteq> r"
  proof -
    obtain t where t: "p @ ''/'' = (r @ ''/'') @ t"
      using p(1) unfolding hasPrefix_iff by blast
    then show ?thesis
    proof (cases t rule: rev_cases)
      case (snoc t' x)
      then have "p = (r @ ''/'') @ t'"
        using t by (metis append_assoc butlast_snoc)
      then show ?thesis
        unfolding hasPrefix_iff by blast
    qed (use p(2) in simp)
  qed
  moreover have "hasPrefix (p @ ''/'') (r @ ''/'')" if "hasPrefix p (r @ ''/'')"
    using that unfolding hasPrefix_iff by (metis append_assoc)
  ultimately show ?thesis
    by blast
qed

text \<open>Whether they let a path pass: at or below the root, except that below the file system's root nothing is.\<close>

lemma below_root_iff:
  assumes "list_all plainElem R" "list_all plainElem W"
  shows "hasPrefix (rootedPath W @ ''/'') (rootedPath R @ ''/'') \<or> rootedPath W = rootedPath R \<longleftrightarrow>
    W = R \<or> (R \<noteq> [] \<and> prefix R W)"
proof -
  have hd: "rootedPath es \<noteq> [] \<and> hd (tl (rootedPath es @ ''/'')) \<noteq> slash" if "list_all plainElem es" "es \<noteq> []" for es
    using that by (cases es; cases "hd es"; cases "tl es") (auto simp: rootedPath_def plainElem_def)
  have two: "hasPrefix (rootedPath es @ ''/'') (rootedPath fs @ ''/'') \<Longrightarrow>
      hd (tl (rootedPath es @ ''/'')) = hd (tl (rootedPath fs @ ''/''))" for es fs
    by (auto simp: hasPrefix_iff rootedPath_def)
      (metis append_Cons append_Nil hd_append2 list.distinct(1) list.sel(1) neq_Nil_conv)
  have e: "hd (tl (rootedPath [] @ ''/'')) = slash"
    by (simp add: rootedPath_def)
  consider "R = []" "W = []" | "R = []" "W \<noteq> []" | "R \<noteq> []" "W = []" | "R \<noteq> []" "W \<noteq> []"
    by blast
  then show ?thesis
  proof cases
    case 2
    then show ?thesis using hd [OF assms(2)] two [of W "[]"] e rootedPath_inj [OF assms(2,1)] by auto
  next
    case 3
    then show ?thesis using hd [OF assms(1)] two [of "[]" R] e rootedPath_inj [OF assms(2,1)] by auto
  next
    case 4
    then show ?thesis using prefix_rooted [OF assms] rootedPath_inj [OF assms(2,1)] by auto
  qed auto
qed

end
