(* ===== verification/Host_App.thy ===== *)
theory Host_App
  imports Mux Go_Path
begin

text \<open>
  The machine that is reached (\<open>internal/app/host.go\<close>, \<open>splice.go\<close>): what it does for one stream,
  under the policy it was started with. The result of a handler is the list of what it did outside
  the stream, in order, and the stream it leaves. The world is a record of what the calls return.
\<close>

section \<open>The policy\<close>

record host_policy =
  hp_allowDial :: bool
  hp_allow :: "string list"
  hp_allowExec :: bool
  hp_fileRoot :: string

definition dialAllowed :: "host_policy \<Rightarrow> string \<Rightarrow> bool" where
  "dialAllowed p target =
     (if \<not> hp_allowDial p then False
      else if hp_allow p = [] then True
      else list_ex (\<lambda>a. a = target) (hp_allow p))"

section \<open>Effects and the world\<close>

text \<open>
  \<open>Dialed\<close> carries the connection as it is left, if the dial worked; \<open>Ran\<close> the command line and
  its standard input; \<open>Opened\<close> a file read; \<open>Created\<close> a file written, with its mode and, if it
  could be opened, its new content.
\<close>

datatype host_effect =
    Dialed string "duplex option"
  | Ran "string list" bytes
  | Opened string
  | Created string nat "bytes option"

text \<open>
  What a dial gives, what a command writes for its input, what a file holds, whether a file can be
  created and how much of it can be written, and the working directory.
\<close>

record host_world =
  hw_dial :: "string \<Rightarrow> string + duplex"
  hw_run :: "string list \<Rightarrow> bytes \<Rightarrow> bytes"
  hw_open :: "string \<Rightarrow> string + bytes"
  hw_create :: "string \<Rightarrow> nat \<Rightarrow> string option"
  hw_disk :: "string \<Rightarrow> disk"
  hw_cwd :: "string option"

section \<open>Handlers\<close>

text \<open>
  \<open>splice\<close>: two copies side by side, each followed by closing the side it wrote. The result is the
  two connections when both are done; what a failed copy left unread goes with the connection.
\<close>

definition splice :: "duplex \<Rightarrow> duplex \<Rightarrow> duplex \<times> duplex" where
  "splice s c =
     (s\<lparr>dx_in := (dx_in s)\<lparr>in_data := []\<rparr>, dx_out := streamClose (ioCopy (dx_in c) (dx_out s))\<rparr>,
      c\<lparr>dx_in := (dx_in c)\<lparr>in_data := []\<rparr>, dx_out := streamClose (ioCopy (dx_in s) (dx_out c))\<rparr>)"

definition hostTCP :: "host_world \<Rightarrow> host_policy \<Rightarrow> string \<Rightarrow> duplex \<Rightarrow> host_effect list \<times> duplex" where
  "hostTCP w pol target s =
     (if \<not> dialAllowed pol target then ([], s)
      else
        (case hw_dial w target of
           Inl e \<Rightarrow> ([Dialed target None], s)
         | Inr c \<Rightarrow> let (s', c') = splice s c in ([Dialed target (Some c')], s')))"

definition hostExec :: "host_world \<Rightarrow> host_policy \<Rightarrow> exec_header option \<Rightarrow> duplex \<Rightarrow> host_effect list \<times> duplex" where
  "hostExec w pol h s =
     (case h of
        None \<Rightarrow> ([], s)
      | Some x \<Rightarrow>
          if \<not> hp_allowExec pol \<or> eh_args x = [] then ([], s)
          else
            let input = in_data (dx_in s)
            in ([Ran (eh_args x) input],
                s\<lparr>dx_in := (dx_in s)\<lparr>in_data := []\<rparr>,
                  dx_out := snd (streamWrite (hw_run w (eh_args x) input) (dx_out s))\<rparr>))"

text \<open>The path a request names, if it is within the root. The errors of \<open>Abs\<close> are dropped.\<close>

definition hostPath :: "string option \<Rightarrow> string \<Rightarrow> string \<Rightarrow> string option" where
  "hostPath cwd fileRoot path =
     (let clean = cleanPath (joinPath fileRoot path);
          root = (case absPath cwd fileRoot of None \<Rightarrow> [] | Some r \<Rightarrow> r);
          full = (case absPath cwd clean of None \<Rightarrow> [] | Some a \<Rightarrow> a)
      in if \<not> hasPrefix (full @ ''/'') (root @ ''/'') \<and> full \<noteq> root then None else Some full)"

definition hostFile :: "host_world \<Rightarrow> host_policy \<Rightarrow> file_header option \<Rightarrow> duplex \<Rightarrow> host_effect list \<times> duplex" where
  "hostFile w pol h s =
     (case h of
        None \<Rightarrow> ([], s)
      | Some f \<Rightarrow>
          if hp_fileRoot pol = [] then ([], s)
          else
            (case hostPath (hw_cwd w) (hp_fileRoot pol) (fh_path f) of
               None \<Rightarrow> ([], s)
             | Some full \<Rightarrow>
                 if fh_op f = ''get'' then
                   (case hw_open w full of
                      Inl e \<Rightarrow> ([Opened full], s)
                    | Inr content \<Rightarrow> ([Opened full], s\<lparr>dx_out := snd (streamWrite content (dx_out s))\<rparr>))
                 else if fh_op f = ''put'' then
                   (let mode = (if fh_mode f = 0 then 420 else unat (fh_mode f))
                    in (case hw_create w full mode of
                          Some e \<Rightarrow> ([Created full mode None], s)
                        | None \<Rightarrow>
                            ([Created full mode (Some (out_data (ioCopy (dx_in s) (newFile (hw_disk w full)))))],
                             s\<lparr>dx_in := (dx_in s)\<lparr>in_data := []\<rparr>\<rparr>)))
                 else ([], s)))"

definition handleStream :: "unmarshaller \<Rightarrow> host_world \<Rightarrow> host_policy \<Rightarrow> duplex \<Rightarrow> host_effect list \<times> duplex" where
  "handleStream unmarshal w pol s =
     apsnd (\<lambda>d. d\<lparr>dx_out := streamClose (dx_out d)\<rparr>)
        (case readHeader unmarshal (dx_in s) of
           (Inl e, s') \<Rightarrow> ([], s\<lparr>dx_in := s'\<rparr>)
         | (Inr hdr, s') \<Rightarrow>
             if om_kind hdr = kindTCP then hostTCP w pol (om_target hdr) (s\<lparr>dx_in := s'\<rparr>)
             else if om_kind hdr = kindFile then hostFile w pol (om_file hdr) (s\<lparr>dx_in := s'\<rparr>)
             else if om_kind hdr = kindExec then hostExec w pol (om_exec hdr) (s\<lparr>dx_in := s'\<rparr>)
             else ([], s\<lparr>dx_in := s'\<rparr>))"

text \<open>\<open>ServeHost\<close>: every accepted stream is handled, until accepting fails.\<close>

fun serveHost :: "unmarshaller \<Rightarrow> host_world \<Rightarrow> host_policy \<Rightarrow> (string + duplex) list \<Rightarrow> string option \<times> host_effect list" where
  "serveHost unmarshal w pol [] = (None, [])"
| "serveHost unmarshal w pol (Inl e # rest) = (Some e, [])"
| "serveHost unmarshal w pol (Inr s # rest) =
     apsnd (append (fst (handleStream unmarshal w pol s))) (serveHost unmarshal w pol rest)"

lemmas host_defs [go_defs] =
  dialAllowed_def splice_def hostTCP_def hostExec_def hostPath_def hostFile_def handleStream_def

section \<open>Confinement of paths\<close>

lemma dialAllowed_iff: "dialAllowed p t \<longleftrightarrow> hp_allowDial p \<and> (hp_allow p = [] \<or> t \<in> set (hp_allow p))"
  by (auto simp: dialAllowed_def list_ex_iff)

lemma hostPath_iff:
  assumes "absPath cwd fileRoot = Some root" "fileRoot \<noteq> []" "cwdOk cwd"
  shows "hostPath cwd fileRoot path =
    (let R = pathElems root; W = walkFrom R path
     in if W = R \<or> (R \<noteq> [] \<and> prefix R W) then Some (rootedPath W) else None)"
proof -
  have cwd: "cwd = Some d \<Longrightarrow> isAbs d" for d
    using assms(3) by (simp add: cwdOk_def)
  note j = abs_join [OF assms(1,2) cwd, of path]
  let ?R = "pathElems root" and ?W = "walkFrom (pathElems root) path"
  have "list_all plainElem ?R" "list_all plainElem ?W"
    by (simp_all add: walkFrom_plain)
  note below = below_root_iff [OF this]
  have r: "root = rootedPath ?R"
    using j by blast
  have "hostPath cwd fileRoot path =
      (if hasPrefix (rootedPath ?W @ ''/'') (root @ ''/'') \<or> rootedPath ?W = root then Some (rootedPath ?W) else None)"
    unfolding hostPath_def Let_def by (simp add: assms(1) j [THEN conjunct2])
  also have "\<dots> = (if ?W = ?R \<or> (?R \<noteq> [] \<and> prefix ?R ?W) then Some (rootedPath ?W) else None)"
    using below r by metis
  finally show ?thesis
    by (simp add: Let_def)
qed

end
