(* ===== verification/Local_App.thy ===== *)
theory Local_App
  imports Host_App Go_Net
begin

text \<open>
  The connecting side (\<open>internal/app/client.go\<close>, \<open>socks.go\<close>): forwards, the SOCKS5 proxy, remote
  commands and file transfers, each over one stream of the tunnel. What opening a stream gives is an
  argument: the error of waiting for a connection, and the error or the stream of opening it.
\<close>

section \<open>Opening a stream\<close>

definition tcpMsg :: "string \<Rightarrow> open_msg" where
  "tcpMsg target = openMsg0\<lparr>om_kind := kindTCP, om_target := target\<rparr>"

text \<open>A header on a fresh stream; the stream is given up when the header cannot be written.\<close>

definition openWith :: "marshaller \<Rightarrow> open_msg \<Rightarrow> string + duplex \<Rightarrow> string + duplex" where
  "openWith marshal m opened =
     (case opened of
        Inl e \<Rightarrow> Inl e
      | Inr s \<Rightarrow>
          (case writeHeader marshal m (dx_out s) of
             (Some e, _) \<Rightarrow> Inl e
           | (None, w) \<Rightarrow> Inr (s\<lparr>dx_out := w\<rparr>)))"

definition openTCP :: "marshaller \<Rightarrow> string option \<Rightarrow> string + duplex \<Rightarrow> string \<Rightarrow> string + duplex" where
  "openTCP marshal connErr opened target =
     (case connErr of
        Some e \<Rightarrow> Inl e
      | None \<Rightarrow> openWith marshal (tcpMsg target) opened)"

section \<open>Local forwards\<close>

text \<open>\<open>quote\<close> is \<open>strconv.Quote\<close>, which writes the specification into the error.\<close>

definition parseForward :: "(string \<Rightarrow> string) \<Rightarrow> string \<Rightarrow> string + string \<times> string" where
  "parseForward quote spec =
     (case splitOn (CHR '':'') spec of
        [a, b, c] \<Rightarrow> Inr (joinHostPort ''127.0.0.1'' a, joinHostPort b c)
      | [a, b, c, d] \<Rightarrow> Inr (joinHostPort a b, joinHostPort c d)
      | _ \<Rightarrow> Inl (''bad forward spec '' @ quote spec @ '' (want localport:host:port)''))"

text \<open>
  One accepted connection: the stream and the connection as \<open>splice\<close> leaves them, nothing when no
  stream could be opened. In both cases the connection is closed in the end.
\<close>

definition forwardConn ::
  "marshaller \<Rightarrow> string option \<Rightarrow> string + duplex \<Rightarrow> string \<Rightarrow> duplex \<Rightarrow> (duplex \<times> duplex) option" where
  "forwardConn marshal connErr opened target c =
     (case openTCP marshal connErr opened target of
        Inl e \<Rightarrow> None
      | Inr s \<Rightarrow> Some (splice s c))"

text \<open>
  \<open>LocalForward\<close>: an accept that fails ends it. An accepted connection comes with what opening its
  stream gives.
\<close>

type_synonym accepted = "duplex \<times> string option \<times> (string + duplex)"

fun acceptLoop :: "(accepted \<Rightarrow> 'r) \<Rightarrow> (string + accepted) list \<Rightarrow> string option \<times> 'r list" where
  "acceptLoop run [] = (None, [])"
| "acceptLoop run (Inl e # rest) = (Some e, [])"
| "acceptLoop run (Inr a # rest) = apsnd (Cons (run a)) (acceptLoop run rest)"

definition localForward ::
  "(string \<Rightarrow> string) \<Rightarrow> marshaller \<Rightarrow> string \<Rightarrow> (string \<Rightarrow> string option) \<Rightarrow> (string + accepted) list \<Rightarrow>
     string option \<times> (duplex \<times> duplex) option list" where
  "localForward quote marshal spec listenErr accepts =
     (case parseForward quote spec of
        Inl e \<Rightarrow> (Some e, [])
      | Inr (localAddr, target) \<Rightarrow>
          (case listenErr localAddr of
             Some e \<Rightarrow> (Some e, [])
           | None \<Rightarrow> acceptLoop (\<lambda>(c, ce, op). forwardConn marshal ce op target c) accepts))"

section \<open>Commands and files\<close>

text \<open>\<open>Exec\<close>: the stream after the command's input was sent, and what is printed.\<close>

definition execRemote :: "marshaller \<Rightarrow> string + duplex \<Rightarrow> string list \<Rightarrow> in_stream \<Rightarrow> string + out_stream \<times> bytes" where
  "execRemote marshal opened args stdin =
     (case openWith marshal (openMsg0\<lparr>om_kind := kindExec, om_exec := Some \<lparr>eh_args = args, eh_pty = False\<rparr>\<rparr>) opened of
        Inl e \<Rightarrow> Inl e
      | Inr s \<Rightarrow> Inr (streamClose (ioCopy stdin (dx_out s)), in_data (dx_in s)))"

definition getMsg :: "string \<Rightarrow> open_msg" where
  "getMsg path =
     openMsg0\<lparr>om_kind := kindFile,
       om_file := Some \<lparr>fh_op = ''get'', fh_path = path, fh_size = 0, fh_mode = 0\<rparr>\<rparr>"

text \<open>
  \<open>FileGet\<close>: the new content of the local file, if it could be created, and the error. \<open>d\<close> is what
  the local file takes.
\<close>

definition fileGet ::
  "marshaller \<Rightarrow> string + duplex \<Rightarrow> string \<Rightarrow> string option \<Rightarrow> disk \<Rightarrow> bytes option \<times> string option" where
  "fileGet marshal opened remotePath createErr d =
     (case openWith marshal (getMsg remotePath) opened of
        Inl e \<Rightarrow> (None, Some e)
      | Inr s \<Rightarrow>
          (case createErr of
             Some e \<Rightarrow> (None, Some e)
           | None \<Rightarrow>
               (case streamWrite (in_data (dx_in s)) (newFile d) of
                  (Some e, f) \<Rightarrow> (Some (out_data f), Some e)
                | (None, f) \<Rightarrow>
                    (Some (out_data f), if in_end (dx_in s) = eof then None else Some (in_end (dx_in s))))))"

text \<open>A local file as \<open>FilePut\<close> finds it: its content and permission bits.\<close>

definition putMsg :: "string \<Rightarrow> bytes \<Rightarrow> 32 word \<Rightarrow> open_msg" where
  "putMsg path content perm =
     openMsg0\<lparr>om_kind := kindFile,
       om_file := Some \<lparr>fh_op = ''put'', fh_path = path, fh_size = int (length content), fh_mode = perm\<rparr>\<rparr>"

definition filePut ::
  "marshaller \<Rightarrow> string + (bytes \<times> 32 word) \<Rightarrow> string + duplex \<Rightarrow> string \<Rightarrow> string + out_stream" where
  "filePut marshal file opened remotePath =
     (case file of
        Inl e \<Rightarrow> Inl e
      | Inr (content, perm) \<Rightarrow>
          (case openWith marshal (putMsg remotePath content perm) opened of
             Inl e \<Rightarrow> Inl e
           | Inr s \<Rightarrow>
               (case streamWrite content (dx_out s) of
                  (Some e, _) \<Rightarrow> Inl e
                | (None, w) \<Rightarrow> Inr (streamClose w))))"

section \<open>The SOCKS5 proxy\<close>

definition byte :: "nat \<Rightarrow> char" where
  "byte n = char_of n"

definition greetingReply :: bytes where
  "greetingReply = map byte [5, 0]"

definition commandReply :: bytes where
  "commandReply = map byte [5, 7, 0, 1, 0, 0, 0, 0, 0, 0]"

definition successReply :: bytes where
  "successReply = map byte [5, 0, 0, 1, 0, 0, 0, 0, 0, 0]"

definition getUint16 :: "bytes \<Rightarrow> nat" where
  "getUint16 b = 256 * of_char (b ! 0) + of_char (b ! 1)"

text \<open>The address of a request, by its type.\<close>

definition socksHost :: "nat \<Rightarrow> in_stream \<Rightarrow> (string + string) \<times> in_stream" where
  "socksHost atyp s =
     (if atyp = 1 then apfst (map_sum id ipString) (readFull 4 s)
      else if atyp = 3 then
        (case readFull 1 s of
           (Inl e, s') \<Rightarrow> (Inl e, s')
         | (Inr l, s') \<Rightarrow> readFull (of_char (l ! 0)) s')
      else if atyp = 4 then apfst (map_sum id ipString) (readFull 16 s)
      else (Inl ''bad atyp'', s))"

text \<open>From the request on, once the greeting was answered.\<close>

definition socksRequest :: "in_stream \<Rightarrow> out_stream \<Rightarrow> (string + string) \<times> in_stream \<times> out_stream" where
  "socksRequest s w =
     (case readFull 4 s of
        (Inl e, s') \<Rightarrow> (Inl e, s', w)
      | (Inr b, s') \<Rightarrow>
          if of_char (b ! 1) \<noteq> (1 :: nat) then (Inl (''unsupported command '' @ itoa (of_char (b ! 1))), s', snd (streamWrite commandReply w))
          else
            (case socksHost (of_char (b ! 3)) s' of
               (Inl e, s'') \<Rightarrow> (Inl e, s'', w)
             | (Inr host, s'') \<Rightarrow>
                 (case readFull 2 s'' of
                    (Inl e, s3) \<Rightarrow> (Inl e, s3, w)
                  | (Inr p, s3) \<Rightarrow>
                      (Inr (joinHostPort host (itoa (int (getUint16 p)))), s3,
                       snd (streamWrite successReply w)))))"

definition socksHandshake :: "in_stream \<Rightarrow> out_stream \<Rightarrow> (string + string) \<times> in_stream \<times> out_stream" where
  "socksHandshake s w =
     (case readFull 2 s of
        (Inl e, s') \<Rightarrow> (Inl e, s', w)
      | (Inr b, s') \<Rightarrow>
          if of_char (b ! 0) \<noteq> (5 :: nat) then (Inl ''not socks5'', s', w)
          else
            (case readFull (of_char (b ! 1)) s' of
               (Inl e, s'') \<Rightarrow> (Inl e, s'', w)
             | (Inr ms, s'') \<Rightarrow>
                 (case streamWrite greetingReply w of
                    (Some e, w') \<Rightarrow> (Inl e, s'', w')
                  | (None, w') \<Rightarrow> socksRequest s'' w')))"

text \<open>\<open>serveSOCKS\<close>: the stream and the connection as \<open>splice\<close> leaves them, or just the connection.\<close>

definition serveSOCKS :: "marshaller \<Rightarrow> string option \<Rightarrow> string + duplex \<Rightarrow> duplex \<Rightarrow> duplex option \<times> duplex" where
  "serveSOCKS marshal connErr opened c =
     (let (res, s, w) = socksHandshake (dx_in c) (dx_out c); c' = c\<lparr>dx_in := s, dx_out := w\<rparr>;
          closed = c'\<lparr>dx_out := streamClose w\<rparr>
      in (case res of
            Inl e \<Rightarrow> (None, closed)
          | Inr target \<Rightarrow>
              (case openTCP marshal connErr opened target of
                 Inl e \<Rightarrow> (None, closed)
               | Inr st \<Rightarrow> apfst Some (splice st c'))))"

definition socksAddr :: "string \<Rightarrow> string" where
  "socksAddr localAddr = (if splitHostPort localAddr = None then joinHostPort ''127.0.0.1'' localAddr else localAddr)"

definition socksProxy ::
  "marshaller \<Rightarrow> string \<Rightarrow> (string \<Rightarrow> string option) \<Rightarrow> (string + accepted) list \<Rightarrow>
     string option \<times> (duplex option \<times> duplex) list" where
  "socksProxy marshal localAddr listenErr accepts =
     (case listenErr (socksAddr localAddr) of
        Some e \<Rightarrow> (Some e, [])
      | None \<Rightarrow> acceptLoop (\<lambda>(c, ce, op). serveSOCKS marshal ce op c) accepts)"

lemmas local_defs [go_defs] =
  openMsg0_def tcpMsg_def openWith_def openTCP_def parseForward_def forwardConn_def localForward_def
  execRemote_def getMsg_def fileGet_def putMsg_def filePut_def byte_def greetingReply_def
  commandReply_def successReply_def getUint16_def socksHost_def socksRequest_def socksHandshake_def
  serveSOCKS_def socksAddr_def socksProxy_def

end
