(* ===== verification/Json_String.thy ===== *)
theory Json_String
  imports Go_Utf8 Go_Hex
begin

text \<open>
  JSON strings as \<open>encoding/json\<close> writes and reads them: the escapes of the encoder (HTML characters and
  the two separators U+2028, U+2029 included), the scanner's view of a quoted string, and the decoding
  of its escapes. What was quoted is read back with every ill-formed byte replaced by U+FFFD.
\<close>

section \<open>Strings\<close>

abbreviation bslash :: char where "bslash \<equiv> CHR 0x5C"
abbreviation dquote :: char where "dquote \<equiv> CHR 0x22"

text \<open>One ASCII byte of a string (HTML characters are escaped), and one rune of it.\<close>

definition quoteByte :: "char \<Rightarrow> string" where
  "quoteByte c =
     (let n = (of_char c :: nat) in
      if c = bslash \<or> c = dquote then [bslash, c]
      else if n = 8 then [bslash, CHR ''b'']
      else if n = 12 then [bslash, CHR ''f'']
      else if n = 10 then [bslash, CHR ''n'']
      else if n = 13 then [bslash, CHR ''r'']
      else if n = 9 then [bslash, CHR ''t'']
      else if n < 32 \<or> c = CHR ''<'' \<or> c = CHR ''>'' \<or> c = CHR ''&'' then [bslash, CHR ''u'', CHR ''0'', CHR ''0''] @ hexEncode [c]
      else [c])"

definition quoteSpan :: "nat \<times> string \<Rightarrow> string" where
  "quoteSpan rb =
     (case rb of (r, b) \<Rightarrow>
        if r < 0x80 then quoteByte (char_of r)
        else if r = runeError \<and> length b = 1 then bslash # ''ufffd''
        else if r = 0x2028 \<or> r = 0x2029 then bslash # ''u202'' @ [hexDigitLower (r mod 16)]
        else b)"

definition quoteBody :: "string \<Rightarrow> string" where
  "quoteBody s = concat (map quoteSpan (spans s))"

definition jsonString :: "string \<Rightarrow> string" where
  "jsonString s = dquote # quoteBody s @ [dquote]"

text \<open>The value of a hexadecimal digit; an escape \<open>u\<close> with its four digits; the other escapes.\<close>

definition hexVal :: "char \<Rightarrow> nat option" where
  "hexVal c =
     (let n = of_char c in
      if 48 \<le> n \<and> n \<le> 57 then Some (n - 48)
      else if 97 \<le> n \<and> n \<le> 102 then Some (n - 87)
      else if 65 \<le> n \<and> n \<le> 70 then Some (n - 55)
      else None)"

fun getu4 :: "string \<Rightarrow> nat option" where
  "getu4 (b # u # h1 # h2 # h3 # h4 # t) =
     (if b = bslash \<and> u = CHR ''u'' then
        (case (hexVal h1, hexVal h2, hexVal h3, hexVal h4) of
           (Some a, Some b, Some c, Some d) \<Rightarrow> Some (a * 4096 + b * 256 + c * 16 + d)
         | _ \<Rightarrow> None)
      else None)"
| "getu4 _ = None"

definition simpleEsc :: "char \<Rightarrow> char option" where
  "simpleEsc c =
     (if c = dquote \<or> c = bslash \<or> c = CHR ''/'' then Some c
      else if c = CHR ''b'' then Some (CHR 0x08)
      else if c = CHR ''f'' then Some (CHR 0x0C)
      else if c = CHR ''n'' then Some (CHR 0x0A)
      else if c = CHR ''r'' then Some (CHR 0x0D)
      else if c = CHR ''t'' then Some (CHR 0x09)
      else None)"

text \<open>What is inside the quotes, as it stands, and what follows the closing one.\<close>

function scanStr :: "string \<Rightarrow> (string \<times> string) option" where
  "scanStr s =
     (case s of
        [] \<Rightarrow> None
      | c # cs \<Rightarrow>
          if c = dquote then Some ([], cs)
          else if c = bslash then
            (if getu4 s \<noteq> None then map_option (apfst (append (take 6 s))) (scanStr (drop 6 s))
             else (case cs of
                     [] \<Rightarrow> None
                   | e # es \<Rightarrow>
                       if simpleEsc e = None then None
                       else map_option (apfst (append [c, e])) (scanStr es)))
          else if (of_char c :: nat) < 32 then None
          else map_option (apfst (Cons c)) (scanStr cs))"
  by pat_completeness auto
termination
  by (relation "measure length") auto

definition utf16Decode :: "nat \<Rightarrow> nat \<Rightarrow> nat option" where
  "utf16Decode a b =
     (if 0xD800 \<le> a \<and> a < 0xDC00 \<and> 0xDC00 \<le> b \<and> b < 0xE000
      then Some ((a - 0xD800) * 1024 + (b - 0xDC00) + 0x10000)
      else None)"

lemma decodeRune_pos [simp]: "s \<noteq> [] \<Longrightarrow> 0 < snd (decodeRune s)"
  using decodeRune_size [of s] by simp

function unquote :: "string \<Rightarrow> string" where
  "unquote s =
     (case s of
        [] \<Rightarrow> []
      | c # cs \<Rightarrow>
          if c = bslash then
            (case getu4 s of
               Some r \<Rightarrow>
                 if 0xD800 \<le> r \<and> r < 0xE000 then
                   (case map_option (utf16Decode r) (getu4 (drop 6 s)) of
                      Some (Some d) \<Rightarrow> encodeRune d @ unquote (drop 12 s)
                    | _ \<Rightarrow> encodeRune runeError @ unquote (drop 6 s))
                 else encodeRune r @ unquote (drop 6 s)
             | None \<Rightarrow>
                 (case cs of
                    [] \<Rightarrow> []
                  | e # es \<Rightarrow> (case simpleEsc e of None \<Rightarrow> [] | Some x \<Rightarrow> x # unquote es)))
          else if (of_char c :: nat) < 0x80 then c # unquote cs
          else encodeRune (fst (decodeRune s)) @ unquote (drop (snd (decodeRune s)) s))"
  by pat_completeness auto
termination
  by (relation "measure length") auto

declare scanStr.simps [simp del] unquote.simps [simp del]

lemma scanStr_Nil [simp]: "scanStr [] = None"
  by (simp add: scanStr.simps)

lemma scanStr_dquote [simp]: "scanStr (dquote # t) = Some ([], t)"
  by (simp add: scanStr.simps)

lemma getu4_bslash: "getu4 s = Some r \<Longrightarrow> \<exists>t. s = bslash # t"
  by (cases s rule: getu4.cases) (simp_all split: if_splits)

lemma scanStr_u:
  "getu4 s = Some r \<Longrightarrow> scanStr s = map_option (apfst (append (take 6 s))) (scanStr (drop 6 s))"
  using getu4_bslash [of s r] by (subst scanStr.simps) auto

lemma scanStr_esc:
  "getu4 (bslash # e # t) = None \<Longrightarrow>
   scanStr (bslash # e # t) = (if simpleEsc e = None then None else map_option (apfst (append [bslash, e])) (scanStr t))"
  by (subst scanStr.simps) simp

lemma scanStr_plain:
  "c \<noteq> bslash \<Longrightarrow> c \<noteq> dquote \<Longrightarrow>
   scanStr (c # t) = (if (of_char c :: nat) < 32 then None else map_option (apfst (Cons c)) (scanStr t))"
  by (subst scanStr.simps) simp

lemma scanStr_shorter: "scanStr s = Some (b, t) \<Longrightarrow> length t < length s"
proof (induction s arbitrary: b rule: scanStr.induct)
  case (1 s)
  show ?case
  proof (cases s)
    case (Cons c cs)
    consider "c = dquote" | r where "c = bslash" "getu4 s = Some r" | "c = bslash" "getu4 s = None"
      | "c \<noteq> dquote" "c \<noteq> bslash"
      by blast
    then show ?thesis
    proof cases
      case 2
      then show ?thesis
        using 1(1) [OF Cons _ 2(1)] 1(4) Cons by (fastforce simp: scanStr_u)
    next
      case 3
      then show ?thesis
        using 1(2) [OF Cons _ 3(1)] 1(4) Cons by (cases cs) (fastforce simp: scanStr_esc scanStr.simps [of "[bslash]"] split: if_splits)+
    next
      case 4
      then show ?thesis
        using 1(3) [OF Cons 4] 1(4) Cons by (fastforce simp: scanStr_plain split: if_splits)
    qed (use 1(4) Cons in simp)
  qed (use 1(4) in simp)
qed

section \<open>A string read back\<close>

lemma ranges:
  "b1 mod 64 + 0x80 = b1" if "0x80 \<le> b1" "b1 \<le> 0xBF" for b1 :: nat
  using that by (simp add: mod_of_range)

text \<open>A well-formed rune was read from its encoding.\<close>

lemma decode_take:
  assumes "decodeRune s = (r, n)" "s \<noteq> []" "\<not> (r = runeError \<and> n = 1)"
  shows "take n s = encodeRune r"
proof -
  obtain c0 t0 where s: "s = c0 # t0"
    using assms(2) by (cases s) auto
  let ?p = "of_char c0 :: nat"
  have sc: "scalarRune r"
    using scalarRune_decode [of s] assms(1) by simp
  show ?thesis
  proof (cases "?p < 0x80")
    case True
    then show ?thesis
      using assms(1) s by (auto simp: decodeRune_def encodeRune_1)
  next
    case False
    then obtain m lo hi where ar: "acceptRange ?p = Some (m, lo, hi)"
      using assms(1,3) s by (cases "acceptRange ?p") (auto simp: decodeRune_def)
    obtain c1 t1 where t0: "t0 = c1 # t1"
      using assms(1,3) s ar False by (cases t0) (auto simp: decodeRune_def)
    let ?b = "of_char c1 :: nat"
    have b: "lo \<le> ?b" "?b \<le> hi" "m \<le> length s"
      using assms(1,3) s t0 ar False by (auto simp: decodeRune_def split: if_splits)
    show ?thesis
      using ar
    proof (cases rule: acceptRange_cases)
      case two
      then have rn: "r = ?p mod 32 * 64 + ?b mod 64" "n = 2"
        using assms(1) s t0 ar False b by (auto simp: decodeRune_def)
      have "?p mod 32 + 0xC0 = ?p"
        using two mod_add_multiple [of "?p - 0xC0" 32 6] by simp
      moreover have "?b mod 64 + 0x80 = ?b"
        using two b by (intro ranges) auto
      moreover have "2 \<le> ?p mod 32"
        using two mod_add_multiple [of "?p - 0xC0" 32 6] by simp
      ultimately show ?thesis
        using rn s t0 encodeRune_2 [of "?p mod 32" "?b mod 64"] by (simp add: add.commute)
    next
      case three
      then obtain c2 t2 where t1: "t1 = c2 # t2"
        using b s t0 by (cases t1) auto
      let ?c = "of_char c2 :: nat"
      have c: "0x80 \<le> ?c" "?c \<le> 0xBF" and rn: "r = ?p mod 16 * 4096 + ?b mod 64 * 64 + ?c mod 64" "n = 3"
        using three assms(1,3) s t0 t1 ar False b by (auto simp: decodeRune_def contByte_def split: if_splits)
      have q: "?p mod 16 + 0xE0 = ?p" "?b mod 64 + 0x80 = ?b" "?c mod 64 + 0x80 = ?c"
        using three b c by (auto simp: mod_of_range)
      have "0x800 \<le> r"
      proof (cases "?p = 0xE0")
        case True
        then have "32 \<le> ?b mod 64"
          using three b q(2) by auto
        then show ?thesis
          unfolding rn by linarith
      next
        case False
        then have "1 \<le> ?p mod 16"
          using three(4) q(1) by linarith
        then show ?thesis
          unfolding rn by linarith
      qed
      moreover have "r = (?p mod 16 * 64 + ?b mod 64) * 64 + ?c mod 64"
        unfolding rn by simp
      ultimately have "encodeRune r = map char_of [0xE0 + ?p mod 16, 0x80 + ?b mod 64, 0x80 + ?c mod 64]"
        by (intro encodeRune_3) (use sc in simp_all)
      then show ?thesis
        using q rn s t0 t1 by (simp add: add.commute)
    next
      case four
      then obtain c2 c3 t2 where t1: "t1 = c2 # c3 # t2"
        using b s t0 by (cases t1; cases "tl t1") auto
      let ?c = "of_char c2 :: nat" and ?d = "of_char c3 :: nat"
      have c: "0x80 \<le> ?c" "?c \<le> 0xBF" "0x80 \<le> ?d" "?d \<le> 0xBF"
        and rn: "r = ?p mod 8 * 262144 + ?b mod 64 * 4096 + ?c mod 64 * 64 + ?d mod 64" "n = 4"
        using four assms(1,3) s t0 t1 ar False b by (auto simp: decodeRune_def contByte_def split: if_splits)
      have q: "?p mod 8 + 0xF0 = ?p" "?b mod 64 + 0x80 = ?b" "?c mod 64 + 0x80 = ?c" "?d mod 64 + 0x80 = ?d"
        using four b c by (auto simp: mod_of_range)
      have "0x10000 \<le> r"
      proof (cases "?p = 0xF0")
        case True
        then have "16 \<le> ?b mod 64"
          using four b q(2) by auto
        then show ?thesis
          unfolding rn by linarith
      next
        case False
        then have "1 \<le> ?p mod 8"
          using four(4) q(1) by linarith
        then show ?thesis
          unfolding rn by linarith
      qed
      moreover have "r = ((?p mod 8 * 64 + ?b mod 64) * 64 + ?c mod 64) * 64 + ?d mod 64"
        unfolding rn by simp
      ultimately have "encodeRune r = map char_of [0xF0 + ?p mod 8, 0x80 + ?b mod 64, 0x80 + ?c mod 64, 0x80 + ?d mod 64]"
        by (intro encodeRune_4) (use sc in simp_all)
      then show ?thesis
        using q rn s t0 t1 by (simp add: add.commute)
    qed
  qed
qed

text \<open>A string with every ill-formed byte replaced by U+FFFD; well-formed strings are unchanged.\<close>

definition validText :: "string \<Rightarrow> string" where
  "validText s = utf8 (runes s)"

definition validUtf8 :: "string \<Rightarrow> bool" where
  "validUtf8 s \<longleftrightarrow> validText s = s"

lemma spans_item:
  "(r, b) \<in> set (spans s) \<Longrightarrow> scalarRune r \<and> (b = encodeRune r \<or> r = runeError \<and> length b = 1)"
proof (induction s rule: spans.induct)
  case (1 s)
  show ?case
  proof (cases "s = []")
    case False
    then consider "(r, b) = (fst (decodeRune s), take (snd (decodeRune s)) s)"
      | "(r, b) \<in> set (spans (drop (snd (decodeRune s)) s))"
      using 1(2) by (auto simp: spans.simps [of s])
    then show ?thesis
    proof cases
      case 1
      have "take (snd (decodeRune s)) s = encodeRune (fst (decodeRune s))"
        if "\<not> (fst (decodeRune s) = runeError \<and> snd (decodeRune s) = 1)"
        using decode_take [of s] False that by (cases "decodeRune s") simp
      then show ?thesis
        using 1 False scalarRune_decode [of s] decodeRune_size [OF False] by auto
    qed (use 1(1) False in simp)
  qed (use 1(2) in simp)
qed

lemma hexVal_digit [simp]: "n < 16 \<Longrightarrow> hexVal (hexDigitLower n) = Some n"
  by (auto simp: hexVal_def hexDigitLower_def Let_def)

lemma hexVal_0 [simp]: "hexVal (CHR ''0'') = Some 0" "hexVal (CHR ''2'') = Some 2"
  by (simp_all add: hexVal_def Let_def)

lemma getu4_hex:
  "getu4 (bslash # CHR ''u'' # CHR ''0'' # CHR ''0'' # hexEncode [c] @ t) = Some (of_char c)"
proof -
  have "of_char c div 16 < (16 :: nat)"
    using of_char_le [of c] by simp
  then show ?thesis
    by (simp add: hexEncode_def)
qed

lemma getu4_simple: "e \<noteq> CHR ''u'' \<Longrightarrow> getu4 (bslash # e # t) = None"
  by (cases "bslash # e # t" rule: getu4.cases) auto

lemma unquote_Nil [simp]: "unquote [] = []"
  by (simp add: unquote.simps)

lemma unquote_u:
  assumes "getu4 s = Some r" "\<not> (0xD800 \<le> r \<and> r < 0xE000)"
  shows "unquote s = encodeRune r @ unquote (drop 6 s)"
  using assms getu4_bslash [OF assms(1)] by (subst unquote.simps) auto

lemma unquote_esc:
  "e \<noteq> CHR ''u'' \<Longrightarrow> simpleEsc e = Some x \<Longrightarrow> unquote (bslash # e # t) = x # unquote t"
  by (subst unquote.simps) (simp add: getu4_simple)

lemma unquote_ascii:
  "c \<noteq> bslash \<Longrightarrow> (of_char c :: nat) < 0x80 \<Longrightarrow> unquote (c # t) = c # unquote t"
  by (subst unquote.simps) simp

text \<open>A piece of a quoted string that stands for one rune.\<close>

definition chunk :: "string \<Rightarrow> string \<Rightarrow> bool" where
  "chunk p q \<longleftrightarrow>
     (\<forall>t. scanStr (p @ t) = map_option (apfst (append p)) (scanStr t)) \<and> (\<forall>t. unquote (p @ t) = q @ unquote t)"

lemma chunk_hex:
  assumes "getu4 (bslash # CHR ''u'' # h @ t) = Some r" "length h = 4" "\<not> (0xD800 \<le> r \<and> r < 0xE000)"
    "\<And>t. getu4 (bslash # CHR ''u'' # h @ t) = Some r"
  shows "chunk (bslash # CHR ''u'' # h) (encodeRune r)"
  using assms(2,3) scanStr_u [OF assms(4)] unquote_u [OF assms(4)]
  by (auto simp: chunk_def take_append_exact drop_append_exact)

lemma chunk_esc:
  "e \<noteq> CHR ''u'' \<Longrightarrow> simpleEsc e = Some x \<Longrightarrow> chunk [bslash, e] [x]"
  by (simp add: chunk_def scanStr_esc getu4_simple unquote_esc)

lemma encode_ascii: "(of_char c :: nat) < 0x80 \<Longrightarrow> encodeRune (of_char c) = [c]"
  by (simp add: encodeRune_1)

lemma chunk_byte:
  assumes "(of_char c :: nat) < 0x80"
  shows "chunk (quoteByte c) [c]"
proof -
  let ?n = "of_char c :: nat"
  have "?n = of_char d \<Longrightarrow> c = d" for d
    by simp
  note ch = this [of "CHR 0x08"] this [of "CHR 0x0C"] this [of "CHR 0x0A"] this [of "CHR 0x0D"] this [of "CHR 0x09"]
  have hex: "chunk (bslash # CHR ''u'' # CHR ''0'' # CHR ''0'' # hexEncode [c]) [c]"
    using chunk_hex [of "CHR ''0'' # CHR ''0'' # hexEncode [c]" "[]" ?n] getu4_hex [of c] assms
    by (simp add: encode_ascii) (simp add: hexEncode_def)
  consider "c = bslash \<or> c = dquote" | "?n = 8" | "?n = 12" | "?n = 10" | "?n = 13" | "?n = 9"
    | "c \<noteq> bslash" "c \<noteq> dquote" "?n \<notin> {8, 9, 10, 12, 13}"
    by blast
  then show ?thesis
  proof cases
    case 1
    then show ?thesis
      by (auto simp: quoteByte_def intro!: chunk_esc) (auto simp: simpleEsc_def)
  next
    case 7
    then show ?thesis
      using hex assms
      by (auto simp: quoteByte_def Let_def) (auto simp: chunk_def scanStr_plain unquote_ascii apfst_def map_prod_def)
  qed (use ch in \<open>auto simp: quoteByte_def simpleEsc_def intro!: chunk_esc\<close>)
qed

lemma front:
  "map_option (apfst (append [])) x = x"
  "map_option (apfst (append (p @ q))) x = map_option (apfst (append p)) (map_option (apfst (append q)) x)"
  by (cases x; auto)+

lemma scanStr_high:
  "list_all (\<lambda>c. 0x80 \<le> (of_char c :: nat)) b \<Longrightarrow> scanStr (b @ t) = map_option (apfst (append b)) (scanStr t)"
proof (induction b)
  case Nil
  show ?case by (cases "scanStr t") auto
next
  case (Cons c b)
  then have "c \<noteq> bslash" "c \<noteq> dquote"
    by auto
  with Cons show ?case
    by (cases "scanStr t") (auto simp: scanStr_plain)
qed

lemma encode_high_bytes:
  assumes "scalarRune r" "0x80 \<le> r"
  shows "list_all (\<lambda>c. 0x80 \<le> (of_char c :: nat)) (encodeRune r)"
  using assms(1)
proof (cases rule: scalarRune_cases)
  case (three a b c)
  then show ?thesis
    unfolding encodeRune_3 [OF three(4,1-3,7) assms(1)] by simp
next
  case (four a b c d)
  then show ?thesis
    unfolding encodeRune_4 [OF four(5,2-4,8) assms(1)] by simp
qed (use assms(2) in \<open>simp_all add: encodeRune_2\<close>)

lemma chunk_rune:
  assumes "scalarRune r" "0x80 \<le> r"
  shows "chunk (encodeRune r) (encodeRune r)"
proof -
  obtain c b where e: "encodeRune r = c # b"
    by (meson encodeRune_ne_Nil neq_Nil_conv)
  have "0x80 \<le> (of_char c :: nat)"
    using encode_high_bytes [OF assms] e by simp
  then have "unquote (encodeRune r @ t) = encodeRune r @ unquote t" for t
    using decode_encode [OF assms(1), of t] e by (subst unquote.simps) auto
  then show ?thesis
    using scanStr_high [OF encode_high_bytes [OF assms]] by (simp add: chunk_def)
qed

lemma hexEncode_hex4: "length h = 4 \<Longrightarrow> getu4 (bslash # CHR ''u'' # h @ t) = getu4 (bslash # CHR ''u'' # h)"
  by (auto simp: length_Suc_conv numeral_eq_Suc)

lemma chunk_span:
  assumes "(r, b) \<in> set (spans s)"
  shows "chunk (quoteSpan (r, b)) (encodeRune r)"
proof -
  have sc: "scalarRune r" "b = encodeRune r \<or> r = runeError \<and> length b = 1"
    using spans_item [OF assms] by auto
  have u: "chunk (bslash # CHR ''u'' # h) (encodeRune r)"
    if "length h = 4" "getu4 (bslash # CHR ''u'' # h) = Some r" for h
    by (rule chunk_hex) (use sc(1) that hexEncode_hex4 [of h] in \<open>auto simp: scalarRune_def\<close>)
  consider "r < 0x80" | "0x80 \<le> r" "r = runeError \<and> length b = 1"
    | "r = 0x2028 \<or> r = 0x2029" | "0x80 \<le> r" "\<not> (r = runeError \<and> length b = 1)" "r \<noteq> 0x2028" "r \<noteq> 0x2029"
    by linarith
  then show ?thesis
  proof cases
    case 1
    then show ?thesis
      using chunk_byte [of "char_of r"] by (simp add: quoteSpan_def encodeRune_1)
  next
    case 2
    then show ?thesis
      using u [of "''fffd''"] by (simp add: quoteSpan_def runeError_def hexVal_def)
  next
    case 3
    then show ?thesis
      using u [of "''202'' @ [hexDigitLower (r mod 16)]"] by (auto simp: quoteSpan_def runeError_def)
  next
    case 4
    then show ?thesis
      using chunk_rune [OF sc(1)] sc(2) by (auto simp: quoteSpan_def)
  qed
qed

lemma chunks:
  assumes "\<forall>(r, b) \<in> set xs. chunk (quoteSpan (r, b)) (encodeRune r)"
  shows "chunk (concat (map quoteSpan xs)) (utf8 (map fst xs))"
  using assms
proof (induction xs)
  case Nil
  then show ?case
    by (simp add: chunk_def front)
next
  case (Cons x xs)
  then show ?case
    by (cases x) (simp add: chunk_def front(2))
qed

text \<open>The quoted string is scanned to its end, and stands for the string made well-formed.\<close>

lemma jsonString_back:
  "scanStr (quoteBody s @ dquote # t) = Some (quoteBody s, t)" "unquote (quoteBody s) = validText s"
proof -
  have "chunk (quoteBody s) (validText s)"
    unfolding quoteBody_def validText_def runes_def by (rule chunks) (auto dest: chunk_span)
  then have "\<And>t. scanStr (quoteBody s @ t) = map_option (apfst (append (quoteBody s))) (scanStr t)"
    "unquote (quoteBody s @ []) = validText s @ unquote []"
    unfolding chunk_def by blast+
  then show "scanStr (quoteBody s @ dquote # t) = Some (quoteBody s, t)" "unquote (quoteBody s) = validText s"
    by simp_all
qed

text \<open>A quoted string is at most six times as long, and two quotes.\<close>

lemma quoteByte_length: "length (quoteByte c) \<le> 6"
  by (simp add: quoteByte_def hexEncode_def Let_def)

lemma quoteSpan_length:
  assumes "(r, b) \<in> set (spans s)"
  shows "length (quoteSpan (r, b)) \<le> 6 * length b"
proof -
  have "0 < length b"
    using spans_item [OF assms] encodeRune_ne_Nil [of r] by (cases b) auto
  then have "length (quoteByte (char_of r)) \<le> 6 * length b" "6 \<le> 6 * length b"
    using quoteByte_length [of "char_of r"] by linarith+
  then show ?thesis
    unfolding quoteSpan_def prod.case by (simp del: mult_Suc_right)
qed

lemma quoteBody_length: "length (quoteBody s) \<le> 6 * length s"
proof -
  have "length (concat (map quoteSpan xs)) \<le> 6 * length (concat (map snd xs))"
    if "\<forall>(r, b) \<in> set xs. length (quoteSpan (r, b)) \<le> 6 * length b" for xs
    using that by (induction xs) auto
  then show ?thesis
    using quoteSpan_length concat_spans [of s] unfolding quoteBody_def by (metis (mono_tags, lifting) case_prodI2)
qed

lemma jsonString_length: "length (jsonString s) \<le> 6 * length s + 2"
  using quoteBody_length [of s] by (simp add: jsonString_def)

end
