(* ===== verification/Go_Json.thy ===== *)
theory Go_Json
  imports Json_String
begin

text \<open>
  The texts \<open>encoding/json\<close> writes and reads: values as trees (an object is the list of its members in
  order), the encoder, and the decoder as Go's scanner has it, a machine that takes one token at a time
  and keeps a stack of open arrays and objects, at most 10000 deep. What is encoded is read back, its
  strings made well-formed.
\<close>

datatype jv =
    VNull
  | VBool bool
  | VNum string
  | VStr string
  | VArr "jv list"
  | VObj "(string \<times> jv) list"

section \<open>Writing\<close>

fun encodeJson :: "jv \<Rightarrow> string" where
  "encodeJson VNull = ''null''"
| "encodeJson (VBool b) = (if b then ''true'' else ''false'')"
| "encodeJson (VNum s) = s"
| "encodeJson (VStr s) = jsonString s"
| "encodeJson (VArr vs) = ''['' @ joinWith '','' (map encodeJson vs) @ '']''"
| "encodeJson (VObj ps) =
     CHR 0x7B # joinWith '','' (map (\<lambda>(k, v). jsonString k @ '':'' @ encodeJson v) ps) @ [CHR 0x7D]"

section \<open>Tokens\<close>

datatype token =
    TOpenO | TCloseO | TOpenA | TCloseA | TColon | TComma
  | TStr string | TNum string | TTrue | TFalse | TNull

definition punct :: "char \<Rightarrow> token option" where
  "punct c =
     (if c = CHR 0x7B then Some TOpenO else if c = CHR 0x7D then Some TCloseO
      else if c = CHR ''['' then Some TOpenA else if c = CHR '']'' then Some TCloseA
      else if c = CHR '':'' then Some TColon else if c = CHR '','' then Some TComma
      else None)"

definition jsonSpace :: "char \<Rightarrow> bool" where
  "jsonSpace c \<longleftrightarrow> c = CHR '' '' \<or> c = CHR 0x09 \<or> c = CHR 0x0A \<or> c = CHR 0x0D"

definition literalAt :: "string \<Rightarrow> (token \<times> string) option" where
  "literalAt s =
     (if hasPrefix s ''true'' then Some (TTrue, drop 4 s)
      else if hasPrefix s ''false'' then Some (TFalse, drop 5 s)
      else if hasPrefix s ''null'' then Some (TNull, drop 4 s)
      else None)"

text \<open>A number: an optional sign, digits without a leading zero, a fraction, an exponent.\<close>

definition digitsThen :: "string \<Rightarrow> string \<Rightarrow> (string \<times> string) option" where
  "digitsThen before s =
     (if takeWhile isDigit s = [] then None else Some (before @ takeWhile isDigit s, dropWhile isDigit s))"

definition scanExp :: "string \<times> string \<Rightarrow> (string \<times> string) option" where
  "scanExp ns =
     (case ns of (n, s) \<Rightarrow>
       (case s of
          [] \<Rightarrow> Some (n, s)
        | e # t \<Rightarrow>
            if e = CHR ''e'' \<or> e = CHR ''E'' then
              (if hasPrefix t ''+'' \<or> hasPrefix t ''-'' then digitsThen (n @ [e, hd t]) (tl t)
               else digitsThen (n @ [e]) t)
            else Some (n, s)))"

definition scanFrac :: "string \<times> string \<Rightarrow> (string \<times> string) option" where
  "scanFrac ns =
     (case ns of (n, s) \<Rightarrow>
        if hasPrefix s ''.'' then Option.bind (digitsThen (n @ ''.'') (tl s)) scanExp else scanExp (n, s))"

definition scanInt :: "string \<Rightarrow> string \<Rightarrow> (string \<times> string) option" where
  "scanInt sg s =
     (if hasPrefix s ''0'' then Some (sg @ ''0'', tl s) else digitsThen sg s)"

definition scanNum :: "string \<Rightarrow> (string \<times> string) option" where
  "scanNum s =
     Option.bind (if hasPrefix s ''-'' then scanInt ''-'' (tl s) else scanInt [] s) scanFrac"

lemma digitsThen_shorter: "digitsThen n s = Some (m, t) \<Longrightarrow> length t < length s"
  by (cases s) (auto simp: digitsThen_def split: if_splits intro: le_imp_less_Suc length_dropWhile_le)

lemma scanExp_shorter: "scanExp (n, s) = Some (m, t) \<Longrightarrow> length t \<le> length s"
  by (cases s) (auto simp: scanExp_def split: if_splits dest!: digitsThen_shorter)

lemma scanNum_shorter:
  assumes "scanNum s = Some (m, t)"
  shows "length t < length s"
proof -
  obtain n u where u: "scanFrac (n, u) = Some (m, t)"
    "(if hasPrefix s ''-'' then scanInt ''-'' (tl s) else scanInt [] s) = Some (n, u)"
    using assms by (auto simp: scanNum_def bind_eq_Some_conv)
  have "length t \<le> length u"
    using u(1) by (cases u) (fastforce simp: scanFrac_def bind_eq_Some_conv split: if_splits
        dest: scanExp_shorter digitsThen_shorter)+
  moreover have "length u < length s"
    using u(2) by (cases s) (auto simp: scanInt_def hasPrefix_def split: if_splits dest!: digitsThen_shorter)
  ultimately show ?thesis
    by linarith
qed

function lexJson :: "string \<Rightarrow> token list option" where
  "lexJson s =
     (case s of
        [] \<Rightarrow> Some []
      | c # cs \<Rightarrow>
          if jsonSpace c then lexJson cs
          else if c = dquote then
            (case scanStr cs of
               None \<Rightarrow> None
             | Some (b, t) \<Rightarrow> map_option (Cons (TStr (unquote b))) (lexJson t))
          else
            (case punct c of
               Some k \<Rightarrow> map_option (Cons k) (lexJson cs)
             | None \<Rightarrow>
                 (case literalAt s of
                    Some (k, t) \<Rightarrow> map_option (Cons k) (lexJson t)
                  | None \<Rightarrow>
                      (case scanNum s of
                         None \<Rightarrow> None
                       | Some (n, t) \<Rightarrow> map_option (Cons (TNum n)) (lexJson t)))))"
  by pat_completeness auto
termination
  by (relation "measure length")
    (auto dest: scanStr_shorter scanNum_shorter simp: literalAt_def hasPrefix_def split: if_splits)

declare lexJson.simps [simp del]

section \<open>Reading\<close>

text \<open>What is open around the place the scanner is at, and what it waits for.\<close>

datatype frame = FArr "jv list" | FObj "(string \<times> jv) list" string

datatype jstate =
    NeedValue "frame list"
  | NeedElem "frame list"
  | NeedKey0 "frame list"
  | NeedKey "(string \<times> jv) list" "frame list"
  | NeedColon "(string \<times> jv) list" string "frame list"
  | HaveValue jv "frame list"

definition maxNesting :: nat where
  "maxNesting = 10000"

definition beginValue :: "token \<Rightarrow> frame list \<Rightarrow> jstate option" where
  "beginValue k fs =
     (case k of
        TStr s \<Rightarrow> Some (HaveValue (VStr s) fs)
      | TNum n \<Rightarrow> Some (HaveValue (VNum n) fs)
      | TTrue \<Rightarrow> Some (HaveValue (VBool True) fs)
      | TFalse \<Rightarrow> Some (HaveValue (VBool False) fs)
      | TNull \<Rightarrow> Some (HaveValue VNull fs)
      | TOpenA \<Rightarrow> if length fs < maxNesting then Some (NeedElem fs) else None
      | TOpenO \<Rightarrow> if length fs < maxNesting then Some (NeedKey0 fs) else None
      | _ \<Rightarrow> None)"

fun jsonStep :: "token \<Rightarrow> jstate \<Rightarrow> jstate option" where
  "jsonStep k (NeedValue fs) = beginValue k fs"
| "jsonStep k (NeedElem fs) =
     (if k = TCloseA then Some (HaveValue (VArr []) fs) else beginValue k (FArr [] # fs))"
| "jsonStep k (NeedKey0 fs) =
     (case k of TCloseO \<Rightarrow> Some (HaveValue (VObj []) fs) | TStr s \<Rightarrow> Some (NeedColon [] s fs) | _ \<Rightarrow> None)"
| "jsonStep k (NeedKey ps fs) = (case k of TStr s \<Rightarrow> Some (NeedColon ps s fs) | _ \<Rightarrow> None)"
| "jsonStep k (NeedColon ps s fs) = (if k = TColon then Some (NeedValue (FObj ps s # fs)) else None)"
| "jsonStep k (HaveValue v []) = None"
| "jsonStep k (HaveValue v (FArr vs # fs)) =
     (case k of
        TComma \<Rightarrow> Some (NeedValue (FArr (v # vs) # fs))
      | TCloseA \<Rightarrow> Some (HaveValue (VArr (rev (v # vs))) fs)
      | _ \<Rightarrow> None)"
| "jsonStep k (HaveValue v (FObj ps s # fs)) =
     (case k of
        TComma \<Rightarrow> Some (NeedKey ((s, v) # ps) fs)
      | TCloseO \<Rightarrow> Some (HaveValue (VObj (rev ((s, v) # ps))) fs)
      | _ \<Rightarrow> None)"

fun runJson :: "jstate \<Rightarrow> token list \<Rightarrow> jstate option" where
  "runJson st [] = Some st"
| "runJson st (k # ks) = (case jsonStep k st of None \<Rightarrow> None | Some st' \<Rightarrow> runJson st' ks)"

definition parseJson :: "string \<Rightarrow> jv option" where
  "parseJson s =
     (case Option.bind (lexJson s) (runJson (NeedValue [])) of
        Some (HaveValue v []) \<Rightarrow> Some v
      | _ \<Rightarrow> None)"

section \<open>What is written is read\<close>

text \<open>Integers are the only numbers the program's types have.\<close>

fun intsOnly :: "jv \<Rightarrow> bool" where
  "intsOnly (VNum s) = (\<exists>i. s = itoa i)"
| "intsOnly (VArr vs) = list_all intsOnly vs"
| "intsOnly (VObj ps) = list_all (\<lambda>(k, v). intsOnly v) ps"
| "intsOnly v = True"

fun within :: "nat \<Rightarrow> jv \<Rightarrow> bool" where
  "within n (VArr vs) = (0 < n \<and> list_all (within (n - 1)) vs)"
| "within n (VObj ps) = (0 < n \<and> list_all (\<lambda>(k, v). within (n - 1) v) ps)"
| "within n v = True"

fun validValue :: "jv \<Rightarrow> jv" where
  "validValue (VStr s) = VStr (validText s)"
| "validValue (VArr vs) = VArr (map validValue vs)"
| "validValue (VObj ps) = VObj (map (\<lambda>(k, v). (validText k, validValue v)) ps)"
| "validValue v = v"

text \<open>The tokens of a value's text, and what can follow a value.\<close>

fun tokensOf :: "jv \<Rightarrow> token list" where
  "tokensOf VNull = [TNull]"
| "tokensOf (VBool b) = [if b then TTrue else TFalse]"
| "tokensOf (VNum s) = [TNum s]"
| "tokensOf (VStr s) = [TStr (validText s)]"
| "tokensOf (VArr vs) = TOpenA # joinWith [TComma] (map tokensOf vs) @ [TCloseA]"
| "tokensOf (VObj ps) =
     TOpenO # joinWith [TComma] (map (\<lambda>(k, v). TStr (validText k) # TColon # tokensOf v) ps) @ [TCloseO]"

definition closes :: "string \<Rightarrow> bool" where
  "closes t \<longleftrightarrow> (case t of [] \<Rightarrow> True | c # _ \<Rightarrow> c = CHR '','' \<or> c = CHR '']'' \<or> c = CHR 0x7D \<or> jsonSpace c)"

lemma natToDec_hd: "0 < n \<Longrightarrow> hd (natToDec n) \<noteq> CHR ''0''"
proof (induction n rule: natToDec.induct)
  case (1 n)
  show ?case
  proof (cases "n < 10")
    case True
    have "of_char (digitChar n) = (48 + n :: nat)"
      using True by simp
    then have "digitChar n \<noteq> CHR ''0''"
      using 1(2) by auto
    with True show ?thesis
      by (simp add: natToDec.simps [of n])
  next
    case False
    with 1 show ?thesis
      by (simp add: natToDec.simps [of n])
  qed
qed

lemma closes_stops:
  "closes t \<Longrightarrow> takeWhile isDigit t = [] \<and> dropWhile isDigit t = t"
  by (cases t) (auto simp: closes_def isDigit_def jsonSpace_def)

lemma digits_split:
  assumes "list_all isDigit ds" "closes t"
  shows "takeWhile isDigit (ds @ t) = ds" "dropWhile isDigit (ds @ t) = t"
  using assms(1) closes_stops [OF assms(2)]
  by (simp_all add: list_all_iff takeWhile_append2 dropWhile_append2)

lemma scanFrac_closes: "closes t \<Longrightarrow> scanFrac (n, t) = Some (n, t)"
  by (cases t) (auto simp: scanFrac_def scanExp_def closes_def hasPrefix_def jsonSpace_def)

lemma scanInt_natToDec:
  assumes "closes t"
  shows "scanInt sg (natToDec n @ t) = Some (sg @ natToDec n, t)"
proof (cases "n = 0")
  case True
  have "natToDec 0 = ''0''"
    by (subst natToDec.simps) (simp add: digitChar_def char_of_eq_iff)
  with True show ?thesis
    by (simp add: scanInt_def hasPrefix_def)
next
  case False
  obtain c ds where c: "natToDec n = c # ds"
    by (meson natToDec_ne_Nil neq_Nil_conv)
  then have "\<not> hasPrefix (natToDec n @ t) ''0''"
    using natToDec_hd [of n] False by (simp add: hasPrefix_def)
  then show ?thesis
    using digits_split [OF natToDec_digits assms] by (simp add: scanInt_def digitsThen_def)
qed

lemma scanNum_itoa: "closes t \<Longrightarrow> scanNum (itoa i @ t) = Some (itoa i, t)"
proof -
  assume t: "closes t"
  have "\<not> hasPrefix (natToDec n @ t) ''-''" for n
    using natToDec_set [of "hd (natToDec n)" n] isDigit_neq(2)
    by (cases "natToDec n") (auto simp: hasPrefix_def dest: natToDec_ne_Nil [THEN notE])
  then show ?thesis
    using t by (simp add: scanNum_def itoa_def scanInt_natToDec scanFrac_closes) (simp add: hasPrefix_def)
qed

lemma lexJson_Nil [simp]: "lexJson [] = Some []"
  by (simp add: lexJson.simps)

lemma lexJson_punct:
  "punct c = Some k \<Longrightarrow> lexJson (c # s) = map_option (Cons k) (lexJson s)"
  by (subst lexJson.simps) (auto simp: punct_def jsonSpace_def split: if_splits)

lemma lexJson_string: "lexJson (jsonString s @ t) = map_option (Cons (TStr (validText s))) (lexJson t)"
  unfolding jsonString_def by (subst lexJson.simps) (simp add: jsonString_back jsonSpace_def)

lemma lexJson_num:
  assumes "closes t"
  shows "lexJson (itoa i @ t) = map_option (Cons (TNum (itoa i))) (lexJson t)"
proof -
  obtain c cs where c: "itoa i = c # cs"
    by (cases "itoa i") (auto simp: itoa_def split: if_splits)
  then have "isDigit c \<or> c = CHR ''-''"
    using natToDec_set [of c] by (auto simp: itoa_def split: if_splits) (metis list.set_intros(1))
  then have "\<not> jsonSpace c" "c \<noteq> dquote" "punct c = None" "literalAt (c # cs @ t) = None"
    by (auto simp: jsonSpace_def punct_def literalAt_def hasPrefix_def isDigit_def)
  then show ?thesis
    using scanNum_itoa [OF assms, of i] unfolding c by (subst lexJson.simps) simp
qed

lemma lexJson_literal:
  "lexJson (''null'' @ t) = map_option (Cons TNull) (lexJson t)"
  "lexJson (''true'' @ t) = map_option (Cons TTrue) (lexJson t)"
  "lexJson (''false'' @ t) = map_option (Cons TFalse) (lexJson t)"
  by (subst lexJson.simps, simp add: literalAt_def punct_def jsonSpace_def hasPrefix_def)+

lemma append_one: "append [k] = Cons k"
  by (simp add: fun_eq_iff)

lemma lexJson_joined:
  assumes "\<forall>(p, q) \<in> set xs. \<forall>t. closes t \<longrightarrow> lexJson (p @ t) = map_option (append q) (lexJson t)" "closes t"
  shows "lexJson (joinWith '','' (map fst xs) @ t) =
    map_option (append (joinWith [TComma] (map snd xs))) (lexJson t)"
  using assms(1)
proof (induction xs)
  case Nil
  then show ?case
    by (cases "lexJson t") auto
next
  case (Cons x xs)
  then have x: "closes u \<Longrightarrow> lexJson (fst x @ u) = map_option (append (snd x)) (lexJson u)" for u
    by (cases x) simp
  show ?case
  proof (cases "xs = []")
    case True
    then show ?thesis
      using x assms(2) by simp
  next
    case False
    have "closes ('','' @ joinWith '','' (map fst xs) @ t)"
      by (simp add: closes_def)
    then have "lexJson (joinWith '','' (map fst (x # xs)) @ t) =
        map_option (append (snd x)) (lexJson ('','' @ joinWith '','' (map fst xs) @ t))"
      using False x [of "'','' @ joinWith '','' (map fst xs) @ t"] by (simp add: joinWith_Cons)
    also have "lexJson ('','' @ joinWith '','' (map fst xs) @ t) =
        map_option (Cons TComma) (map_option (append (joinWith [TComma] (map snd xs))) (lexJson t))"
      using Cons by (simp add: lexJson_punct punct_def)
    finally show ?thesis
      using False by (cases "lexJson t") (simp_all add: joinWith_Cons)
  qed
qed

lemma lexJson_encode:
  "intsOnly v \<Longrightarrow> closes t \<Longrightarrow> lexJson (encodeJson v @ t) = map_option (append (tokensOf v)) (lexJson t)"
proof (induction v arbitrary: t)
  case (VNum s)
  then show ?case
    by (auto simp: lexJson_num)
next
  case (VStr s)
  then show ?case
    by (simp add: lexJson_string)
next
  case (VArr vs)
  have "closes ('']'' @ t)"
    by (simp add: closes_def)
  moreover have "\<forall>(p, q) \<in> set (map (\<lambda>v. (encodeJson v, tokensOf v)) vs).
      \<forall>t. closes t \<longrightarrow> lexJson (p @ t) = map_option (append q) (lexJson t)"
    using VArr by (auto simp: list_all_iff)
  ultimately have "lexJson (joinWith '','' (map encodeJson vs) @ '']'' @ t) =
      map_option (append (joinWith [TComma] (map tokensOf vs))) (lexJson ('']'' @ t))"
    using lexJson_joined [of "map (\<lambda>v. (encodeJson v, tokensOf v)) vs" "'']'' @ t"] by (simp add: comp_def)
  then show ?case
    by (cases "lexJson t") (simp_all add: lexJson_punct punct_def)
next
  case (VObj ps)
  let ?e = "\<lambda>(k, v). (jsonString k @ '':'' @ encodeJson v, TStr (validText k) # TColon # tokensOf v)"
  have "lexJson (jsonString k @ '':'' @ encodeJson v @ u) =
      map_option (append (TStr (validText k) # TColon # tokensOf v)) (lexJson u)"
    if "(k, v) \<in> set ps" "closes u" for k v u
  proof -
    have "lexJson (encodeJson v @ u) = map_option (append (tokensOf v)) (lexJson u)"
      using VObj that by (intro VObj.IH [OF that(1)]) (auto simp: list_all_iff)
    then show ?thesis
      by (cases "lexJson u") (simp_all add: lexJson_string lexJson_punct punct_def)
  qed
  then have all: "\<forall>(p, q) \<in> set (map ?e ps). \<forall>t. closes t \<longrightarrow> lexJson (p @ t) = map_option (append q) (lexJson t)"
    by auto
  have cl: "closes (CHR 0x7D # t)"
    by (simp add: closes_def)
  have maps: "map fst (map ?e ps) = map (\<lambda>(k, v). jsonString k @ '':'' @ encodeJson v) ps"
    "map snd (map ?e ps) = map (\<lambda>(k, v). TStr (validText k) # TColon # tokensOf v) ps"
    by auto
  note lexJson_joined [OF all cl, unfolded maps]
  then show ?case
    by (cases "lexJson t") (simp_all add: lexJson_punct punct_def)
qed (use lexJson_literal in \<open>simp_all add: append_one\<close>)

lemma runJson_elem:
  "runJson (NeedElem fs) (tokensOf v @ ks) = runJson (NeedValue (FArr [] # fs)) (tokensOf v @ ks)"
  by (cases v) simp_all

lemma runJson_array:
  assumes "\<forall>v \<in> set (v # vs). \<forall>fs ks. length fs = n \<longrightarrow>
      runJson (NeedValue fs) (tokensOf v @ ks) = runJson (HaveValue (validValue v) fs) ks"
    and "Suc (length fs) = n"
  shows "runJson (NeedValue (FArr acc # fs)) (joinWith [TComma] (map tokensOf (v # vs)) @ TCloseA # ks) =
    runJson (HaveValue (VArr (rev acc @ map validValue (v # vs))) fs) ks"
  using assms
proof (induction vs arbitrary: v acc)
  case (Cons u vs)
  have "runJson (NeedValue (FArr acc # fs)) (tokensOf v @ TComma # joinWith [TComma] (map tokensOf (u # vs)) @ TCloseA # ks) =
      runJson (NeedValue (FArr (validValue v # acc) # fs)) (joinWith [TComma] (map tokensOf (u # vs)) @ TCloseA # ks)"
    using Cons.prems by simp
  then show ?case
    using Cons.IH [of u "validValue v # acc"] Cons.prems by simp
qed simp

lemma runJson_object:
  assumes "\<forall>(k, v) \<in> set (p # ps). \<forall>fs ks. length fs = n \<longrightarrow>
      runJson (NeedValue fs) (tokensOf v @ ks) = runJson (HaveValue (validValue v) fs) ks"
    and "Suc (length fs) = n"
  shows "runJson (NeedKey acc fs)
      (joinWith [TComma] (map (\<lambda>(k, v). TStr (validText k) # TColon # tokensOf v) (p # ps)) @ TCloseO # ks) =
    runJson (HaveValue (VObj (rev acc @ map (\<lambda>(k, v). (validText k, validValue v)) (p # ps))) fs) ks"
  using assms
proof (induction ps arbitrary: p acc)
  case (Cons q ps)
  let ?t = "\<lambda>(k, v). TStr (validText k) # TColon # tokensOf v" and ?c = "\<lambda>(k, v). (validText k, validValue v)"
  have "runJson (NeedKey acc fs) (?t p @ TComma # joinWith [TComma] (map ?t (q # ps)) @ TCloseO # ks) =
      runJson (NeedKey (?c p # acc) fs) (joinWith [TComma] (map ?t (q # ps)) @ TCloseO # ks)"
    using Cons.prems by (cases p) simp
  then show ?case
    using Cons.IH [of q "?c p # acc"] Cons.prems by simp
qed (auto split: prod.split)

lemma runJson_tokens:
  "within (maxNesting - length fs) v \<Longrightarrow>
   runJson (NeedValue fs) (tokensOf v @ ks) = runJson (HaveValue (validValue v) fs) ks"
proof (induction v arbitrary: fs ks)
  case (VArr vs)
  then have d: "length fs < maxNesting"
    by simp
  show ?case
  proof (cases vs)
    case Nil
    then show ?thesis
      using d by (simp add: beginValue_def)
  next
    case (Cons v us)
    have "\<forall>v \<in> set (v # us). \<forall>gs ks. length gs = Suc (length fs) \<longrightarrow>
        runJson (NeedValue gs) (tokensOf v @ ks) = runJson (HaveValue (validValue v) gs) ks"
      using VArr Cons by (auto simp: list_all_iff)
    then have "runJson (NeedValue (FArr [] # fs)) (joinWith [TComma] (map tokensOf vs) @ TCloseA # ks) =
        runJson (HaveValue (VArr (map validValue vs)) fs) ks"
      using runJson_array [of v us "Suc (length fs)" fs "[]" ks] Cons by simp
    moreover have "runJson (NeedElem fs) (joinWith [TComma] (map tokensOf vs) @ TCloseA # ks) =
        runJson (NeedValue (FArr [] # fs)) (joinWith [TComma] (map tokensOf vs) @ TCloseA # ks)"
      unfolding Cons using runJson_elem [of fs v] by (cases us) simp_all
    ultimately show ?thesis
      using d by (simp add: beginValue_def)
  qed
next
  case (VObj ps)
  then have d: "length fs < maxNesting"
    by simp
  let ?t = "\<lambda>(k, v). TStr (validText k) # TColon # tokensOf v"
  show ?case
  proof (cases ps)
    case Nil
    then show ?thesis
      using d by (simp add: beginValue_def)
  next
    case (Cons p qs)
    have "\<forall>(k, v) \<in> set (p # qs). \<forall>gs ks. length gs = Suc (length fs) \<longrightarrow>
        runJson (NeedValue gs) (tokensOf v @ ks) = runJson (HaveValue (validValue v) gs) ks"
      using VObj Cons by (fastforce simp: list_all_iff)
    then have "runJson (NeedKey [] fs) (joinWith [TComma] (map ?t ps) @ TCloseO # ks) =
        runJson (HaveValue (VObj (map (\<lambda>(k, v). (validText k, validValue v)) ps)) fs) ks"
      using runJson_object [of p qs "Suc (length fs)" fs "[]" ks] Cons by simp
    moreover have "runJson (NeedKey0 fs) (joinWith [TComma] (map ?t ps) @ TCloseO # ks) =
        runJson (NeedKey [] fs) (joinWith [TComma] (map ?t ps) @ TCloseO # ks)"
      unfolding Cons by (cases p; cases qs) simp_all
    ultimately show ?thesis
      using d by (simp add: beginValue_def)
  qed
qed (simp_all add: beginValue_def)

text \<open>The text of a value is read as the value, its strings made well-formed.\<close>

lemma parseJson_encode:
  assumes "intsOnly v" "within maxNesting v"
  shows "parseJson (encodeJson v) = Some (validValue v)"
  using lexJson_encode [OF assms(1), of "[]"] runJson_tokens [of "[]" v "[]"] assms(2)
  by (simp add: parseJson_def closes_def)

lemma lexJson_spaces: "list_all jsonSpace ws \<Longrightarrow> lexJson ws = Some []"
  by (induction ws) (simp, subst lexJson.simps, simp)

lemma parseJson_encode_spaces:
  assumes "intsOnly v" "within maxNesting v" "list_all jsonSpace ws"
  shows "parseJson (encodeJson v @ ws) = Some (validValue v)"
proof -
  have "closes ws"
    using assms(3) by (cases ws) (simp_all add: closes_def)
  then have "lexJson (encodeJson v @ ws) = Some (tokensOf v @ [])"
    using lexJson_encode [OF assms(1)] lexJson_spaces [OF assms(3)] by simp
  then show ?thesis
    using runJson_tokens [of "[]" v "[]"] assms(2) by (simp add: parseJson_def)
qed

section \<open>Indented texts\<close>

text \<open>\<open>json.MarshalIndent\<close> with no prefix and an indent of two blanks.\<close>

definition newline :: "nat \<Rightarrow> string" where
  "newline d = CHR 0x0A # replicate (2 * d) (CHR '' '')"

fun indentJson :: "nat \<Rightarrow> jv \<Rightarrow> string" where
  "indentJson d (VArr vs) =
     (if vs = [] then ''[]''
      else ''['' @ joinWith '','' (map (\<lambda>v. newline (Suc d) @ indentJson (Suc d) v) vs) @ newline d @ '']'')"
| "indentJson d (VObj ps) =
     (if ps = [] then [CHR 0x7B, CHR 0x7D]
      else CHR 0x7B # joinWith '','' (map (\<lambda>(k, v). newline (Suc d) @ jsonString k @ '': '' @ indentJson (Suc d) v) ps) @
        newline d @ [CHR 0x7D])"
| "indentJson d v = encodeJson v"

lemma lexJson_skip: "list_all jsonSpace ws \<Longrightarrow> lexJson (ws @ t) = lexJson t"
  by (induction ws) (simp, subst lexJson.simps, simp)

lemma newline_spaces: "list_all jsonSpace (newline d)"
  by (simp add: newline_def jsonSpace_def list_all_iff)

lemma lexJson_newline: "lexJson (newline d @ t) = lexJson t"
  by (rule lexJson_skip [OF newline_spaces])

lemma closes_newline: "closes (newline d @ t)"
  by (simp add: closes_def newline_def jsonSpace_def)

lemma lexJson_indent:
  "intsOnly v \<Longrightarrow> closes t \<Longrightarrow> lexJson (indentJson d v @ t) = map_option (append (tokensOf v)) (lexJson t)"
proof (induction v arbitrary: d t)
  case (VArr vs)
  show ?case
  proof (cases "vs = []")
    case True
    then show ?thesis
      by (cases "lexJson t") (simp_all add: lexJson_punct punct_def)
  next
    case False
    let ?e = "\<lambda>v. (newline (Suc d) @ indentJson (Suc d) v, tokensOf v)"
    have all: "\<forall>(p, q) \<in> set (map ?e vs). \<forall>t. closes t \<longrightarrow> lexJson (p @ t) = map_option (append q) (lexJson t)"
      using VArr by (auto simp: list_all_iff lexJson_newline)
    have maps: "map fst (map ?e vs) = map (\<lambda>v. newline (Suc d) @ indentJson (Suc d) v) vs" "map snd (map ?e vs) = map tokensOf vs"
      by simp_all
    note lexJson_joined [OF all closes_newline [of d "'']'' @ t"], unfolded maps]
    then show ?thesis
      using False by (cases "lexJson t") (simp_all add: lexJson_punct punct_def lexJson_newline)
  qed
next
  case (VObj ps)
  show ?case
  proof (cases "ps = []")
    case True
    then show ?thesis
      by (cases "lexJson t") (simp_all add: lexJson_punct punct_def)
  next
    case False
    let ?e = "\<lambda>(k, v). (newline (Suc d) @ jsonString k @ '': '' @ indentJson (Suc d) v, TStr (validText k) # TColon # tokensOf v)"
    have one: "lexJson (newline (Suc d) @ jsonString k @ '': '' @ indentJson (Suc d) v @ u) =
        map_option (append (TStr (validText k) # TColon # tokensOf v)) (lexJson u)"
      if "(k, v) \<in> set ps" "closes u" for k v u
    proof -
      have "lexJson (indentJson (Suc d) v @ u) = map_option (append (tokensOf v)) (lexJson u)"
        using VObj that by (intro VObj.IH [OF that(1)]) (auto simp: list_all_iff)
      moreover have "lexJson ('' '' @ indentJson (Suc d) v @ u) = lexJson (indentJson (Suc d) v @ u)"
        by (rule lexJson_skip) (simp add: jsonSpace_def)
      ultimately show ?thesis
        by (cases "lexJson u") (simp_all add: lexJson_newline lexJson_string lexJson_punct punct_def)
    qed
    have all: "\<forall>(p, q) \<in> set (map ?e ps). \<forall>t. closes t \<longrightarrow> lexJson (p @ t) = map_option (append q) (lexJson t)"
      using one by auto
    have maps: "map fst (map ?e ps) = map (\<lambda>(k, v). newline (Suc d) @ jsonString k @ '': '' @ indentJson (Suc d) v) ps"
      "map snd (map ?e ps) = map (\<lambda>(k, v). TStr (validText k) # TColon # tokensOf v) ps"
      by auto
    note lexJson_joined [OF all closes_newline [of d "CHR 0x7D # t"], unfolded maps]
    then show ?thesis
      using False by (cases "lexJson t") (simp_all add: lexJson_punct punct_def lexJson_newline)
  qed
qed (use lexJson_encode in \<open>simp_all del: encodeJson.simps tokensOf.simps\<close>)

lemma parseJson_indent:
  assumes "intsOnly v" "within maxNesting v" "list_all jsonSpace ws"
  shows "parseJson (indentJson d v @ ws) = Some (validValue v)"
proof -
  have "closes ws"
    using assms(3) by (cases ws) (simp_all add: closes_def)
  then have "lexJson (indentJson d v @ ws) = Some (tokensOf v @ [])"
    using lexJson_indent [OF assms(1)] lexJson_spaces [OF assms(3)] by simp
  then show ?thesis
    using runJson_tokens [of "[]" v "[]"] assms(2) by (simp add: parseJson_def)
qed

section \<open>How long a text is\<close>

lemma natToDec_length: "n < 10 ^ k \<Longrightarrow> 0 < k \<Longrightarrow> length (natToDec n) \<le> k"
proof (induction n arbitrary: k rule: natToDec.induct)
  case (1 n)
  show ?case
  proof (cases "n < 10")
    case True
    then show ?thesis
      using 1(3) by (simp add: natToDec.simps [of n])
  next
    case False
    obtain j where k: "k = Suc j"
      using 1(3) by (cases k) auto
    have "0 < j"
      using False 1(2) by (cases j) (auto simp: k)
    moreover have "n div 10 < 10 ^ j"
      using 1(2) by (simp add: k less_mult_imp_div_less mult.commute)
    ultimately show ?thesis
      using 1(1) [OF False] False by (simp add: natToDec.simps [of n] k)
  qed
qed

lemma itoa_length: "- (2 ^ 63) \<le> i \<Longrightarrow> i < 2 ^ 63 \<Longrightarrow> length (itoa i) \<le> 20"
proof -
  assume i: "- (2 ^ 63) \<le> i" "i < 2 ^ 63"
  then have "nat i < 10 ^ 19" "nat (- i) < 10 ^ 19"
    by (simp_all add: nat_less_iff)
  then show ?thesis
    using natToDec_length [of "nat i" 19] natToDec_length [of "nat (- i)" 19] by (auto simp: itoa_def)
qed

lemma joinWith_length: "length (joinWith '','' xs) \<le> sum_list (map length xs) + length xs"
  by (induction "'','' :: string" xs rule: joinWith.induct) simp_all

lemma encodeJson_length:
  "length (encodeJson (VObj ps)) \<le> 2 + sum_list (map (\<lambda>(k, v). 6 * length k + 4 + length (encodeJson v)) ps)"
proof -
  let ?e = "\<lambda>(k, v). jsonString k @ '':'' @ encodeJson v"
  have "sum_list (map length (map ?e ps)) + length ps \<le>
      sum_list (map (\<lambda>(k, v). 6 * length k + 4 + length (encodeJson v)) ps)"
  proof (induction ps)
    case (Cons p ps)
    then show ?case
      using jsonString_length [of "fst p"] by (cases p) simp
  qed simp
  then show ?thesis
    using joinWith_length [of "map ?e ps"] by simp
qed

end
