(* ===== verification/Json_Struct.thy ===== *)
theory Json_Struct
  imports Go_Json Go_Text
begin

text \<open>
  How \<open>json.Unmarshal\<close> fills a struct: the members of the object are taken in order, each goes to the
  field of its name - exactly, else up to case -, unknown ones are skipped, \<open>null\<close> leaves a field as it
  is, and a value of the wrong kind or out of a field's range is an error. The text of the error is the
  parameter \<open>bad\<close>.
\<close>

type_synonym 's field = "string \<times> (jv \<Rightarrow> 's \<Rightarrow> 's option)"

text \<open>
  The least rune of the same letter, for the letters that occur in field names (all ASCII): besides the
  other case, the long s and the Kelvin sign.
\<close>

definition foldRune :: "nat \<Rightarrow> nat" where
  "foldRune r =
     (if 97 \<le> r \<and> r \<le> 122 then r - 32 else if r = 0x17F then 83 else if r = 0x212A then 75 else r)"

definition foldName :: "string \<Rightarrow> nat list" where
  "foldName s = map foldRune (runes s)"

definition fieldFor :: "'s field list \<Rightarrow> string \<Rightarrow> (jv \<Rightarrow> 's \<Rightarrow> 's option) option" where
  "fieldFor fields key =
     (case map_of fields key of
        Some f \<Rightarrow> Some f
      | None \<Rightarrow> map_option snd (find (\<lambda>(n, f). foldName n = foldName key) fields))"

fun decodeMembers :: "'s field list \<Rightarrow> (string \<times> jv) list \<Rightarrow> 's \<Rightarrow> 's option" where
  "decodeMembers fields [] s = Some s"
| "decodeMembers fields ((k, v) # ps) s =
     (case fieldFor fields k of
        None \<Rightarrow> decodeMembers fields ps s
      | Some f \<Rightarrow> (case f v s of None \<Rightarrow> None | Some s' \<Rightarrow> decodeMembers fields ps s'))"

definition decodeStruct :: "'s field list \<Rightarrow> jv \<Rightarrow> 's \<Rightarrow> 's option" where
  "decodeStruct fields v s =
     (case v of VNull \<Rightarrow> Some s | VObj ps \<Rightarrow> decodeMembers fields ps s | _ \<Rightarrow> None)"

definition unmarshalInto :: "(jv \<Rightarrow> 's \<Rightarrow> 's option) \<Rightarrow> 's \<Rightarrow> (bytes \<Rightarrow> string) \<Rightarrow> bytes \<Rightarrow> string + 's" where
  "unmarshalInto dec zero bad b =
     (case Option.bind (parseJson b) (\<lambda>v. dec v zero) of None \<Rightarrow> Inl (bad b) | Some s \<Rightarrow> Inr s)"

section \<open>Kinds of fields\<close>

text \<open>\<open>get\<close> and \<open>upd\<close> are the field's selector and update.\<close>

definition stringValue :: "jv \<Rightarrow> string \<Rightarrow> string option" where
  "stringValue v old = (case v of VStr s \<Rightarrow> Some s | VNull \<Rightarrow> Some old | _ \<Rightarrow> None)"

definition boolValue :: "jv \<Rightarrow> bool \<Rightarrow> bool option" where
  "boolValue v old = (case v of VBool b \<Rightarrow> Some b | VNull \<Rightarrow> Some old | _ \<Rightarrow> None)"

definition int64Value :: "jv \<Rightarrow> int \<Rightarrow> int option" where
  "int64Value v old = (case v of VNum n \<Rightarrow> atoi n | VNull \<Rightarrow> Some old | _ \<Rightarrow> None)"

definition uint32Value :: "jv \<Rightarrow> 32 word \<Rightarrow> 32 word option" where
  "uint32Value v old =
     (case v of
        VNum n \<Rightarrow> if n \<noteq> [] \<and> list_all isDigit n \<and> decToNat n < 2 ^ 32 then Some (of_nat (decToNat n)) else None
      | VNull \<Rightarrow> Some old
      | _ \<Rightarrow> None)"

text \<open>
  A slice: its old elements are written over, further ones start at their zero value. (The elements a
  slice was cut short of by an earlier member of the same name are not kept here; Go would show them
  again if a third one lengthened it.)
\<close>

definition sliceValue :: "(jv \<Rightarrow> 'a \<Rightarrow> 'a option) \<Rightarrow> 'a \<Rightarrow> jv \<Rightarrow> 'a list \<Rightarrow> 'a list option" where
  "sliceValue dec zero v old =
     (case v of
        VNull \<Rightarrow> Some []
      | VArr vs \<Rightarrow>
          those (map (\<lambda>(w, x). dec w x) (zip vs (old @ replicate (length vs - length old) zero)))
      | _ \<Rightarrow> None)"

text \<open>A pointer: allocated if there is none, and dropped by \<open>null\<close>.\<close>

definition pointerValue :: "(jv \<Rightarrow> 'a \<Rightarrow> 'a option) \<Rightarrow> 'a \<Rightarrow> jv \<Rightarrow> 'a option \<Rightarrow> 'a option option" where
  "pointerValue dec zero v old =
     (if v = VNull then Some None
      else map_option Some (dec v (case old of None \<Rightarrow> zero | Some x \<Rightarrow> x)))"

definition fieldUpdate :: "('s \<Rightarrow> 'a) \<Rightarrow> (('a \<Rightarrow> 'a) \<Rightarrow> 's \<Rightarrow> 's) \<Rightarrow> (jv \<Rightarrow> 'a \<Rightarrow> 'a option) \<Rightarrow> jv \<Rightarrow> 's \<Rightarrow> 's option" where
  "fieldUpdate get upd dec v s = map_option (\<lambda>x. upd (\<lambda>_. x) s) (dec v (get s))"

definition field :: "string \<Rightarrow> ('s \<Rightarrow> 'a) \<Rightarrow> (('a \<Rightarrow> 'a) \<Rightarrow> 's \<Rightarrow> 's) \<Rightarrow> (jv \<Rightarrow> 'a \<Rightarrow> 'a option) \<Rightarrow> 's field" where
  "field name get upd dec = (name, fieldUpdate get upd dec)"

section \<open>What is written for a field\<close>

text \<open>With \<open>omitempty\<close> the zero value leaves the member out.\<close>

definition member :: "string \<Rightarrow> jv \<Rightarrow> (string \<times> jv) list" where
  "member k v = [(k, v)]"

definition omitempty :: "bool \<Rightarrow> string \<Rightarrow> jv \<Rightarrow> (string \<times> jv) list" where
  "omitempty zero k v = (if zero then [] else [(k, v)])"

definition intText :: "int \<Rightarrow> jv" where
  "intText i = VNum (itoa i)"

definition wordText :: "32 word \<Rightarrow> jv" where
  "wordText w = VNum (itoa (uint w))"

text \<open>A slice without elements is taken for the nil slice, which is written \<open>null\<close>.\<close>

definition sliceText :: "('a \<Rightarrow> jv) \<Rightarrow> 'a list \<Rightarrow> jv" where
  "sliceText enc xs = (if xs = [] then VNull else VArr (map enc xs))"

section \<open>The first value of a text\<close>

text \<open>\<open>Decode\<close> of a \<open>json.Decoder\<close>: the first value of a text, whatever follows it.\<close>

definition nextToken :: "string \<Rightarrow> (token \<times> string) option" where
  "nextToken s =
     (case dropWhile jsonSpace s of
        [] \<Rightarrow> None
      | c # cs \<Rightarrow>
          if c = dquote then map_option (apfst (\<lambda>b. TStr (unquote b))) (scanStr cs)
          else
            (case punct c of
               Some k \<Rightarrow> Some (k, cs)
             | None \<Rightarrow>
                 (case literalAt (c # cs) of
                    Some kt \<Rightarrow> Some kt
                  | None \<Rightarrow> map_option (apfst TNum) (scanNum (c # cs)))))"

lemma nextToken_shorter: "nextToken s = Some (k, t) \<Longrightarrow> length t < length s"
proof -
  assume k: "nextToken s = Some (k, t)"
  have le: "length (dropWhile jsonSpace s) \<le> length s"
    by (rule length_dropWhile_le)
  show ?thesis
  proof (cases "dropWhile jsonSpace s")
    case Nil
    then show ?thesis
      using k unfolding nextToken_def Nil by simp
  next
    case (Cons c cs)
    have "length t < length (c # cs)"
    proof (cases "c = dquote")
      case True
      then obtain b where "scanStr cs = Some (b, t)"
        using k Cons by (auto simp: nextToken_def)
      then show ?thesis
        using scanStr_shorter [of cs b t] by simp
    next
      case False
      then show ?thesis
        using k Cons scanNum_shorter [of "c # cs" _ t]
        by (auto simp: nextToken_def literalAt_def hasPrefix_def split: option.splits if_splits)
    qed
    then show ?thesis
      using le Cons by simp
  qed
qed

function decodeFrom :: "jstate \<Rightarrow> string \<Rightarrow> jv option" where
  "decodeFrom st s =
     (case st of
        HaveValue v [] \<Rightarrow> Some v
      | _ \<Rightarrow>
          (case nextToken s of
             None \<Rightarrow> None
           | Some (k, t) \<Rightarrow>
               (case jsonStep k st of None \<Rightarrow> None | Some st' \<Rightarrow> decodeFrom st' t)))"
  by pat_completeness auto
termination
  by (relation "measure (\<lambda>(st, s). length s)") (auto dest: nextToken_shorter)

declare decodeFrom.simps [simp del]

text \<open>A text that is one value is read as that value.\<close>

lemma lexJson_next:
  "lexJson s = Some (k # ks) \<Longrightarrow> \<exists>t. nextToken s = Some (k, t) \<and> lexJson t = Some ks"
proof (induction s)
  case Nil
  then show ?case
    by simp
next
  case (Cons c cs)
  show ?case
  proof (cases "jsonSpace c")
    case True
    then have "lexJson (c # cs) = lexJson cs"
      by (subst lexJson.simps) simp
    moreover have "nextToken (c # cs) = nextToken cs"
      by (simp add: nextToken_def True)
    ultimately show ?thesis
      using Cons by simp
  next
    case False
    then show ?thesis
      using Cons.prems
      by (subst (asm) lexJson.simps) (auto simp: nextToken_def split: if_splits option.splits prod.splits)
  qed
qed

lemma decodeFrom_run:
  "lexJson s = Some ks \<Longrightarrow> runJson st ks = Some (HaveValue v []) \<Longrightarrow> decodeFrom st s = Some v"
proof (induction ks arbitrary: st s)
  case Nil
  then show ?case
    by (subst decodeFrom.simps) simp
next
  case (Cons k ks)
  obtain t where t: "nextToken s = Some (k, t)" "lexJson t = Some ks"
    using lexJson_next [OF Cons.prems(1)] by blast
  obtain st' where st': "jsonStep k st = Some st'" "runJson st' ks = Some (HaveValue v [])"
    using Cons.prems(2) by (auto split: option.splits)
  have "\<forall>w. st \<noteq> HaveValue w []"
    using st'(1) by auto
  then show ?case
    using t(1) st'(1) Cons.IH [OF t(2) st'(2)]
    by (subst decodeFrom.simps) (auto split: jstate.split list.split)
qed

lemma decodeFrom_encode:
  assumes "intsOnly v" "within maxNesting v" "list_all jsonSpace ws"
  shows "decodeFrom (NeedValue []) (encodeJson v @ ws) = Some (validValue v)"
proof -
  have "closes ws"
    using assms(3) by (cases ws) (simp_all add: closes_def)
  then have "lexJson (encodeJson v @ ws) = Some (tokensOf v @ [])"
    using lexJson_encode [OF assms(1)] lexJson_spaces [OF assms(3)] by simp
  then show ?thesis
    using runJson_tokens [of "[]" v "[]"] assms(2) by (intro decodeFrom_run) auto
qed

section \<open>Round trips\<close>

lemma validText_ascii [simp]: "isAscii s \<Longrightarrow> validText s = s"
proof (induction s)
  case (Cons c s)
  then have "runes (c # s) = of_char c # runes s" "(of_char c :: nat) < 0x80"
    by (simp_all add: runes_of_ascii isAscii_def)
  then show ?case
    using Cons by (simp add: validText_def encode_ascii isAscii_def)
qed (simp add: validText_def runes_def)

lemma validText_Nil [simp]: "validText [] = []"
  by (simp add: isAscii_def)

lemma validText_validText [simp]: "validText (validText s) = validText s"
  by (simp add: validText_def runes_utf8 scalarRune_runes)

lemma validText_empty [simp]: "validText s = [] \<longleftrightarrow> s = []"
  by (auto simp: validText_def runes_def spans.simps [of s])

lemma decodeMembers_append:
  "decodeMembers fields (ps @ qs) s = Option.bind (decodeMembers fields ps s) (decodeMembers fields qs)"
  by (induction fields ps s rule: decodeMembers.induct) (auto split: option.split)

lemma decodeMembers_member:
  assumes "map_of fields k = Some f"
  shows "decodeMembers fields (member k v @ ps) s = Option.bind (f v s) (decodeMembers fields ps)"
    "decodeMembers fields (omitempty z k v @ ps) s =
      (if z then decodeMembers fields ps s else Option.bind (f v s) (decodeMembers fields ps))"
  using assms by (auto simp: member_def omitempty_def fieldFor_def split: option.split)

lemma int64Value_text: "- (2 ^ 63) \<le> i \<Longrightarrow> i < 2 ^ 63 \<Longrightarrow> int64Value (intText i) old = Some i"
  by (simp add: int64Value_def intText_def atoi_itoa)

lemma uint32Value_text [simp]: "uint32Value (wordText w) old = Some w"
proof -
  have "itoa (uint w) = natToDec (unat w)"
    using uint_ge_0 [of w] by (simp add: itoa_def)
  moreover have "unat w < 2 ^ 32"
    using unsigned_less [of w] by simp
  ultimately show ?thesis
    using natToDec_digits by (simp add: uint32Value_def wordText_def)
qed

lemma those_map_Some: "\<forall>x \<in> set xs. f x = Some (g x) \<Longrightarrow> those (map f xs) = Some (map g xs)"
  by (induction xs) simp_all

lemma sliceValue_text:
  assumes "\<And>x old. x \<in> set xs \<Longrightarrow> dec (enc x) old = Some (g x)"
  shows "sliceValue dec zero (sliceText enc xs) [] = Some (map g xs)"
proof -
  have "those (map (\<lambda>(w, x). dec w x) (zip (map enc xs) (replicate (length xs) zero))) = Some (map g xs)"
    using assms by (induction xs) simp_all
  then show ?thesis
    by (simp add: sliceValue_def sliceText_def)
qed

lemma unmarshal_encode:
  assumes "intsOnly v" "within maxNesting v" "dec (validValue v) zero = Some x"
  shows "unmarshalInto dec zero bad (encodeJson v) = Inr x"
  using assms by (simp add: unmarshalInto_def parseJson_encode)

section \<open>Types with a JSON form\<close>

text \<open>
  What a struct type promises: its value is written without anything but integers for numbers and not
  too deep, and what was written is read, into a zero value, as the value made well-formed.
\<close>

locale json_type =
  fixes enc :: "'s \<Rightarrow> jv" and dec :: "jv \<Rightarrow> 's \<Rightarrow> 's option" and zero :: 's
    and clean :: "'s \<Rightarrow> 's" and ok :: "'s \<Rightarrow> bool"
  assumes ints: "ok x \<Longrightarrow> intsOnly (enc x)"
    and shallow: "ok x \<Longrightarrow> within maxNesting (enc x)"
    and dec_enc: "ok x \<Longrightarrow> dec (validValue (enc x)) zero = Some (clean x)"
begin

lemma read_back: "ok x \<Longrightarrow> unmarshalInto dec zero bad (encodeJson (enc x)) = Inr (clean x)"
  using ints shallow dec_enc by (simp add: unmarshal_encode)

end

definition int64 :: "int \<Rightarrow> bool" where
  "int64 i \<longleftrightarrow> - (2 ^ 63) \<le> i \<and> i < 2 ^ 63"

lemma members_valid [simp]:
  "map (\<lambda>(k, v). (validText k, validValue v)) (member k v) = member (validText k) (validValue v)"
  "map (\<lambda>(k, v). (validText k, validValue v)) (omitempty z k v) = omitempty z (validText k) (validValue v)"
  by (simp_all add: member_def omitempty_def)

lemma texts_valid [simp]: "validValue (intText i) = intText i" "validValue (wordText w) = wordText w"
  by (simp_all add: intText_def wordText_def)

lemma members_all [simp]:
  "list_all P (member k v) \<longleftrightarrow> P (k, v)" "list_all P (omitempty z k v) \<longleftrightarrow> z \<or> P (k, v)"
  by (simp_all add: member_def omitempty_def)

lemma texts_ok [simp]:
  "intsOnly (intText i)" "intsOnly (wordText w)" "within n (intText i)" "within n (wordText w)"
  by (auto simp: intText_def wordText_def)

lemma values_valid [simp]:
  "stringValue (VStr s) t = Some s" "boolValue (VBool b) c = Some b"
  "int64 i \<Longrightarrow> int64Value (intText i) j = Some i"
  by (simp_all add: stringValue_def boolValue_def int64Value_text int64_def)

lemma isAscii_code: "isAscii [] \<longleftrightarrow> True" "isAscii (c # s) \<longleftrightarrow> (of_char c :: nat) < 0x80 \<and> isAscii s"
  by (simp_all add: isAscii_def)

lemmas decode_struct = decodeStruct_def decodeMembers_member field_def fieldUpdate_def isAscii_code

lemma decode_last:
  "map_of fs k = Some f \<Longrightarrow> decodeMembers fs (member k v) s = f v s"
  "map_of fs k = Some f \<Longrightarrow> decodeMembers fs (omitempty z k v) s = (if z then Some s else f v s)"
  by (auto simp: member_def omitempty_def fieldFor_def split: option.split)

lemma member_length:
  "sum_list (map f (member k v)) = f (k, v)" "sum_list (map f (omitempty z k v)) \<le> (f (k, v) :: nat)"
  by (simp_all add: member_def omitempty_def)

lemma wordText_length: "length (encodeJson (wordText w)) \<le> 20"
  using itoa_length [of "uint w"] uint_lt2p [of w] uint_ge_0 [of w] by (simp add: wordText_def)

lemma intText_length: "int64 i \<Longrightarrow> length (encodeJson (intText i)) \<le> 20"
  using itoa_length [of i] by (simp add: intText_def int64_def)

text \<open>
  A member that may be left out, whichever it is: the field then has its zero value anyway. For structs
  of many such members.
\<close>

lemma decode_optional:
  assumes "map_of fs k = Some (fieldUpdate get upd dec)" "z \<longrightarrow> upd (\<lambda>_. x) s = s" "\<not> z \<longrightarrow> dec v (get s) = Some x"
  shows "decodeMembers fs (omitempty z k v @ ps) s = decodeMembers fs ps (upd (\<lambda>_. x) s)"
  using assms by (auto simp: decodeMembers_member fieldUpdate_def)

end
