(* ===== verification/Mux_Json.thy ===== *)
theory Mux_Json
  imports Json_Struct Mux
begin

text \<open>
  The JSON of a stream's header (\<open>OpenMsg\<close>, \<open>FileHeader\<close> and \<open>ExecHeader\<close> with their tags in
  \<open>internal/mux/mux.go\<close>): its text, what a text is read as, and that a header arrives.
\<close>

definition file0 :: file_header where
  "file0 = \<lparr> fh_op = [], fh_path = [], fh_size = 0, fh_mode = 0 \<rparr>"

definition exec0 :: exec_header where
  "exec0 = \<lparr> eh_args = [], eh_pty = False \<rparr>"

definition encFileHeader :: "file_header \<Rightarrow> jv" where
  "encFileHeader h =
     VObj (member ''op'' (VStr (fh_op h)) @ member ''path'' (VStr (fh_path h)) @
       member ''size'' (intText (fh_size h)) @ member ''mode'' (wordText (fh_mode h)))"

definition fileHeaderFields :: "file_header field list" where
  "fileHeaderFields =
     [field ''op'' fh_op fh_op_update stringValue, field ''path'' fh_path fh_path_update stringValue,
      field ''size'' fh_size fh_size_update int64Value, field ''mode'' fh_mode fh_mode_update uint32Value]"

definition encExecHeader :: "exec_header \<Rightarrow> jv" where
  "encExecHeader h =
     VObj (member ''args'' (sliceText VStr (eh_args h)) @ omitempty (\<not> eh_pty h) ''pty'' (VBool (eh_pty h)))"

definition execHeaderFields :: "exec_header field list" where
  "execHeaderFields =
     [field ''args'' eh_args eh_args_update (sliceValue stringValue []),
      field ''pty'' eh_pty eh_pty_update boolValue]"

definition encOpenMsg :: "open_msg \<Rightarrow> jv" where
  "encOpenMsg m =
     VObj (member ''kind'' (VStr (om_kind m)) @
       omitempty (om_target m = []) ''target'' (VStr (om_target m)) @
       (case om_file m of None \<Rightarrow> [] | Some h \<Rightarrow> member ''file'' (encFileHeader h)) @
       (case om_exec m of None \<Rightarrow> [] | Some h \<Rightarrow> member ''exec'' (encExecHeader h)))"

definition openMsgFields :: "open_msg field list" where
  "openMsgFields =
     [field ''kind'' om_kind om_kind_update stringValue, field ''target'' om_target om_target_update stringValue,
      field ''file'' om_file om_file_update (pointerValue (decodeStruct fileHeaderFields) file0),
      field ''exec'' om_exec om_exec_update (pointerValue (decodeStruct execHeaderFields) exec0)]"

definition cleanFile :: "file_header \<Rightarrow> file_header" where
  "cleanFile h = h\<lparr>fh_op := validText (fh_op h), fh_path := validText (fh_path h)\<rparr>"

definition cleanExec :: "exec_header \<Rightarrow> exec_header" where
  "cleanExec h = h\<lparr>eh_args := map validText (eh_args h)\<rparr>"

definition cleanOpen :: "open_msg \<Rightarrow> open_msg" where
  "cleanOpen m =
     m\<lparr>om_kind := validText (om_kind m), om_target := validText (om_target m),
       om_file := map_option cleanFile (om_file m), om_exec := map_option cleanExec (om_exec m)\<rparr>"

definition openFits :: "open_msg \<Rightarrow> bool" where
  "openFits m \<longleftrightarrow> (case om_file m of None \<Rightarrow> True | Some h \<Rightarrow> int64 (fh_size h))"

definition headerText :: marshaller where
  "headerText m = Inr (encodeJson (encOpenMsg m))"

definition readHeaderText :: "(bytes \<Rightarrow> string) \<Rightarrow> unmarshaller" where
  "readHeaderText bad = unmarshalInto (decodeStruct openMsgFields) openMsg0 bad"

section \<open>A header arrives\<close>

interpretation file_header: json_type encFileHeader "decodeStruct fileHeaderFields" file0 cleanFile "\<lambda>h. int64 (fh_size h)"
proof
  fix h :: file_header
  assume "int64 (fh_size h)"
  then show "decodeStruct fileHeaderFields (validValue (encFileHeader h)) file0 = Some (cleanFile h)"
    by (cases h) (simp add: encFileHeader_def decode_struct decode_last fileHeaderFields_def cleanFile_def file0_def)
qed (simp_all add: encFileHeader_def maxNesting_def)

lemma args_valid: "validValue (sliceText VStr xs) = sliceText (VStr \<circ> validText) xs"
  by (simp add: sliceText_def)

lemma args_back: "sliceValue stringValue [] (sliceText (VStr \<circ> validText) xs) [] = Some (map validText xs)"
  unfolding sliceValue_def sliceText_def by (induction xs) (auto simp: sliceText_def split: if_splits)

lemma args_ok: "intsOnly (sliceText VStr xs)" "0 < n \<Longrightarrow> within n (sliceText VStr xs)"
  by (simp_all add: sliceText_def list.pred_map comp_def list.pred_True)

interpretation exec_header: json_type encExecHeader "decodeStruct execHeaderFields" exec0 cleanExec "\<lambda>h. True"
proof
  fix h :: exec_header
  show "decodeStruct execHeaderFields (validValue (encExecHeader h)) exec0 = Some (cleanExec h)"
    by (cases h) (simp add: encExecHeader_def args_valid args_back decode_struct decode_last execHeaderFields_def
        cleanExec_def exec0_def)
qed (simp_all add: encExecHeader_def maxNesting_def args_ok)

lemma pointerValue_none: "v \<noteq> VNull \<Longrightarrow> pointerValue dec zero v None = map_option Some (dec v zero)"
  by (simp add: pointerValue_def)

lemma struct_objects [simp]:
  "validValue (encFileHeader h) \<noteq> VNull" "validValue (encExecHeader e) \<noteq> VNull"
  by (simp_all add: encFileHeader_def encExecHeader_def)

lemma option_members [simp]:
  "map f (case x of None \<Rightarrow> [] | Some h \<Rightarrow> g h) = (case x of None \<Rightarrow> [] | Some h \<Rightarrow> map f (g h))"
  "list_all P (case x of None \<Rightarrow> [] | Some h \<Rightarrow> g h) = (case x of None \<Rightarrow> True | Some h \<Rightarrow> list_all P (g h))"
  by (simp_all split: option.split)

lemma sub_within: "within 9999 (encFileHeader h)" "within 9999 (encExecHeader e)"
  by (simp_all add: encFileHeader_def encExecHeader_def args_ok)

interpretation open_msg: json_type encOpenMsg "decodeStruct openMsgFields" openMsg0 cleanOpen openFits
proof
  fix m :: open_msg
  assume fits: "openFits m"
  show "intsOnly (encOpenMsg m)" "within maxNesting (encOpenMsg m)"
    using fits file_header.ints exec_header.ints sub_within
    by (auto simp: encOpenMsg_def openFits_def maxNesting_def split: option.split)
  have f: "decodeStruct fileHeaderFields (validValue (encFileHeader h)) file0 = Some (cleanFile h)" if "om_file m = Some h" for h
    using fits that by (intro file_header.dec_enc) (simp add: openFits_def)
  show "decodeStruct openMsgFields (validValue (encOpenMsg m)) openMsg0 = Some (cleanOpen m)"
    using f exec_header.dec_enc
    by (cases m; cases "om_file m"; cases "om_exec m")
      (simp_all add: encOpenMsg_def decode_struct decode_last openMsgFields_def cleanOpen_def openMsg0_def pointerValue_none)
qed

text \<open>
  A stream's header arrives. Whatever header the client of a stream writes, the host reads the same,
  its strings made well-formed UTF-8; a header whose strings are well-formed arrives unchanged.
\<close>

lemma header_arrives:
  assumes "openFits m"
  shows "\<exists>b. headerText m = Inr b \<and> readHeaderText bad b = Inr (cleanOpen m)"
  using open_msg.read_back [OF assms, of bad] by (simp add: headerText_def readHeaderText_def)

lemma header_arrives_witness:
  "\<exists>b. headerText (openMsg0\<lparr>om_kind := kindExec, om_exec := Some \<lparr> eh_args = [''ls'', [CHR 0xFF]], eh_pty = False \<rparr>\<rparr>) = Inr b \<and>
     readHeaderText (\<lambda>b. []) b =
       Inr (openMsg0\<lparr>om_kind := kindExec, om_exec := Some \<lparr> eh_args = [''ls'', encodeRune runeError], eh_pty = False \<rparr>\<rparr>)"
proof -
  let ?m = "openMsg0\<lparr>om_kind := kindExec, om_exec := Some \<lparr> eh_args = [''ls'', [CHR 0xFF]], eh_pty = False \<rparr>\<rparr>"
  have "validText [CHR 0xFF] = encodeRune runeError"
    by (simp add: validText_def runes_def spans.simps decodeRune_def acceptRange_def)
  then have "cleanOpen ?m = openMsg0\<lparr>om_kind := kindExec,
      om_exec := Some \<lparr> eh_args = [''ls'', encodeRune runeError], eh_pty = False \<rparr>\<rparr>"
    by (simp add: cleanOpen_def cleanExec_def openMsg0_def kindExec_def isAscii_code)
  then show ?thesis
    using header_arrives [of ?m "\<lambda>b. []"] by (simp add: openFits_def openMsg0_def)
qed

lemma cleanOpen_id:
  "openFits m \<Longrightarrow> cleanOpen m = m \<Longrightarrow> readHeaderText bad (encodeJson (encOpenMsg m)) = Inr m"
  using open_msg.read_back [of m bad] by (simp add: readHeaderText_def)

end
