(* ===== verification/Tunnel_Props.thy ===== *)
theory Tunnel_Props
  imports Local_App Mux_Json
begin

text \<open>
  The tunnel from one end to the other: what a host does for its client and no more, which files a
  root lets through, forwards, SOCKS requests and file transfers through both sides.
\<close>

section \<open>The host's policy\<close>

definition inRoot :: "host_policy \<Rightarrow> string option \<Rightarrow> string \<Rightarrow> bool" where
  "inRoot pol cwd p \<longleftrightarrow> hp_fileRoot pol \<noteq> [] \<and>
     (\<exists>R W. absPath cwd (hp_fileRoot pol) = Some (rootedPath R) \<and> list_all plainElem W \<and>
        p = rootedPath W \<and> prefix R W)"

definition permitted :: "host_policy \<Rightarrow> string option \<Rightarrow> host_effect \<Rightarrow> bool" where
  "permitted pol cwd e =
     (case e of
        Dialed t c \<Rightarrow> hp_allowDial pol \<and> (hp_allow pol = [] \<or> t \<in> set (hp_allow pol))
      | Ran args input \<Rightarrow> hp_allowExec pol \<and> args \<noteq> []
      | Opened p \<Rightarrow> inRoot pol cwd p
      | Created p mode content \<Rightarrow> inRoot pol cwd p)"

lemma hostPath_inRoot:
  assumes "hostPath cwd (hp_fileRoot pol) path = Some p" "hp_fileRoot pol \<noteq> []" "cwdOk cwd"
    and "absPath cwd (hp_fileRoot pol) \<noteq> None"
  shows "inRoot pol cwd p"
proof -
  obtain r where r: "absPath cwd (hp_fileRoot pol) = Some r"
    using assms(4) by blast
  have "cwd = Some d \<Longrightarrow> isAbs d" for d
    using assms(3) by (simp add: cwdOk_def)
  then have "r = rootedPath (pathElems r)"
    using abs_join [OF r assms(2)] by blast
  moreover have "p = rootedPath (walkFrom (pathElems r) path)" "prefix (pathElems r) (walkFrom (pathElems r) path)"
    using assms(1) unfolding hostPath_iff [OF r assms(2,3)] by (auto simp: Let_def split: if_splits)
  ultimately show ?thesis
    unfolding inRoot_def using assms(2) r walkFrom_plain [OF pathElems_plain] by metis
qed

lemma hostTCP_permitted: "list_all (permitted pol cwd) (fst (hostTCP w pol target s))"
  by (auto simp: hostTCP_def permitted_def dialAllowed_iff split: sum.splits prod.splits)

lemma hostExec_permitted: "list_all (permitted pol cwd) (fst (hostExec w pol h s))"
  by (auto simp: hostExec_def permitted_def Let_def split: option.splits)

lemma hostFile_permitted:
  assumes "cwdOk (hw_cwd w)" "hp_fileRoot pol \<noteq> [] \<Longrightarrow> absPath (hw_cwd w) (hp_fileRoot pol) \<noteq> None"
  shows "list_all (permitted pol (hw_cwd w)) (fst (hostFile w pol h s))"
  using hostPath_inRoot [of "hw_cwd w" pol, OF _ _ assms]
  by (auto simp: hostFile_def permitted_def Let_def split: option.splits sum.splits)

lemma handleStream_permitted:
  assumes "cwdOk (hw_cwd w)" "hp_fileRoot pol \<noteq> [] \<Longrightarrow> absPath (hw_cwd w) (hp_fileRoot pol) \<noteq> None"
  shows "list_all (permitted pol (hw_cwd w)) (fst (handleStream unmarshal w pol s))"
  using hostTCP_permitted hostExec_permitted hostFile_permitted [OF assms]
  by (simp add: handleStream_def Let_def split: prod.split sum.split)

lemma serveHost_permitted:
  assumes "cwdOk (hw_cwd w)" "hp_fileRoot pol \<noteq> [] \<Longrightarrow> absPath (hw_cwd w) (hp_fileRoot pol) \<noteq> None"
  shows "list_all (permitted pol (hw_cwd w)) (snd (serveHost unmarshal w pol streams))"
proof (induction streams)
  case (Cons x rest)
  then show ?case
    using handleStream_permitted [OF assms] by (cases x) simp_all
qed simp

text \<open>
  C3: A host does only what its policy permits. For any streams a client opens, whatever their bytes,
  every dial goes to a permitted target, commands run only if that was allowed, and every file opened
  or created lies, element by element and with no \<open>..\<close> left, at or below the file root.
\<close>

theorem host_stays_in_policy:
  assumes "cwdOk (hw_cwd w)" "hp_fileRoot pol \<noteq> [] \<Longrightarrow> absPath (hw_cwd w) (hp_fileRoot pol) \<noteq> None"
  shows "list_all (permitted pol (hw_cwd w)) (snd (serveHost unmarshal w pol streams))"
  by (rule serveHost_permitted [OF assms])

definition tpPolicy :: host_policy where
  "tpPolicy = \<lparr> hp_allowDial = True, hp_allow = [''db:5432''], hp_allowExec = False, hp_fileRoot = ''/srv'' \<rparr>"

definition freshOut :: out_stream where
  "freshOut = \<lparr> out_data = [], out_room = None, out_err = [], out_closed = False \<rparr>"

definition bytesIn :: "bytes \<Rightarrow> in_stream" where
  "bytesIn b = \<lparr> in_data = b, in_end = eof \<rparr>"

definition tpWorld :: host_world where
  "tpWorld = \<lparr> hw_dial = (\<lambda>t. Inr \<lparr> dx_in = bytesIn ''pong'', dx_out = freshOut \<rparr>), hw_run = (\<lambda>a i. []),
     hw_open = (\<lambda>p. Inr ''data''), hw_create = (\<lambda>p m. None), hw_disk = (\<lambda>p. None), hw_cwd = None \<rparr>"

theorem host_stays_in_policy_witness:
  "list_all (permitted tpPolicy None)
     (snd (serveHost (\<lambda>b. Inr (getMsg ''../etc/passwd'')) tpWorld tpPolicy
       [Inr \<lparr> dx_in = bytesIn (frameBytes ''x''), dx_out = freshOut \<rparr>]))"
proof -
  have "cwdOk (hw_cwd tpWorld)" "absPath (hw_cwd tpWorld) (hp_fileRoot tpPolicy) \<noteq> None"
    by (simp_all add: cwdOk_def tpWorld_def absPath_def isAbs_def hasPrefix_def tpPolicy_def)
  note * = host_stays_in_policy [OF this(1) this(2), where unmarshal = "\<lambda>b. Inr (getMsg ''../etc/passwd'')"
      and streams = "[Inr \<lparr> dx_in = bytesIn (frameBytes ''x''), dx_out = freshOut \<rparr>]"]
  have "hw_cwd tpWorld = None"
    by (simp add: tpWorld_def)
  with * show ?thesis
    by metis
qed

section \<open>A forward, end to end\<close>

text \<open>What is written before a stream is opened, and the header on it.\<close>

lemma openWith_header:
  assumes "openWith marshal m (Inr s) = Inr s1" "dx_out s = freshOut"
  shows "\<exists>b. marshal m = Inr b \<and> length b \<le> maxHeader \<and> s1 = s\<lparr>dx_out := freshOut\<lparr>out_data := frameBytes b\<rparr>\<rparr>"
proof -
  have "out_room (dx_out s) = None"
    by (simp add: assms(2) freshOut_def)
  with assms show ?thesis
    by (auto simp: openWith_def writeHeader_def writeLP_open freshOut_def split: sum.splits prod.splits if_splits)
qed

lemma ioCopy_fresh: "out_room w = None \<Longrightarrow> ioCopy s w = w\<lparr>out_data := out_data w @ in_data s\<rparr>"
  by (simp add: ioCopy_def streamWrite_def)

text \<open>The headers of the client's calls are read as they were written, if their strings are well-formed.\<close>

lemma kinds_valid [simp]: "validText kindTCP = kindTCP" "validText kindFile = kindFile"
  by (simp_all add: kind_defs isAscii_code)

lemma tcp_header_back:
  assumes "validUtf8 target" "headerText (tcpMsg target) = Inr b"
  shows "readHeaderText bad b = Inr (tcpMsg target)"
  using assms cleanOpen_id [of "tcpMsg target" bad]
  by (simp add: headerText_def openFits_def tcpMsg_def openMsg0_def cleanOpen_def validUtf8_def)

lemma tcp_header_length: "length (encodeJson (encOpenMsg (tcpMsg target))) \<le> 6 * length target + 200"
proof -
  let ?f = "\<lambda>(k, v). 6 * length k + 4 + length (encodeJson v)"
  note encodeJson_length [of "member ''kind'' (VStr kindTCP) @ omitempty (target = []) ''target'' (VStr target)",
      unfolded map_append sum_list_append]
  moreover have "sum_list (map ?f (member ''kind'' (VStr kindTCP))) \<le> 60"
    using jsonString_length [of kindTCP] by (simp add: member_def kind_defs)
  moreover have "sum_list (map ?f (omitempty (target = []) ''target'' (VStr target))) \<le> 60 + 6 * length target"
    using jsonString_length [of target] by (simp add: omitempty_def)
  ultimately show ?thesis
    by (simp add: encOpenMsg_def tcpMsg_def openMsg0_def)
qed

text \<open>The host's side of a TCP stream whose header arrived.\<close>

lemma handleStream_tcp:
  assumes "unmarshal b = Inr m" "length b \<le> maxHeader" "om_kind m = kindTCP" "om_target m = target"
    and "dx_in h = \<lparr> in_data = frameBytes b @ x, in_end = e \<rparr>" "dx_out h = freshOut"
    and "hw_dial w target = Inr d" "dx_out d = freshOut"
  shows "handleStream unmarshal w pol h =
    (if dialAllowed pol target then
       ([Dialed target (Some \<lparr> dx_in = (dx_in d)\<lparr>in_data := []\<rparr>,
                              dx_out = freshOut\<lparr>out_data := x, out_closed := True\<rparr> \<rparr>)],
        \<lparr> dx_in = \<lparr> in_data = [], in_end = e \<rparr>,
          dx_out = freshOut\<lparr>out_data := in_data (dx_in d), out_closed := True\<rparr> \<rparr>)
     else ([], \<lparr> dx_in = \<lparr> in_data = x, in_end = e \<rparr>, dx_out = freshOut\<lparr>out_closed := True\<rparr> \<rparr>))"
  using assms
  by (auto simp: handleStream_def readHeader_frame hostTCP_def splice_def ioCopy_fresh streamClose_def
      freshOut_def Let_def)

lemma forward_end_to_end:
  assumes "openTCP marshal None (Inr s) target = Inr s1" "dx_out s = freshOut"
    and "\<And>b. marshal (tcpMsg target) = Inr b \<Longrightarrow> unmarshal b = Inr (tcpMsg target)"
    and "splice s1 c = (s2, c2)" "dx_out c = freshOut"
    and "dx_in h = bytesIn (out_data (dx_out s2))" "dx_out h = freshOut"
    and "hw_dial w target = Inr d" "dx_out d = freshOut"
    and "handleStream unmarshal w pol h = (effects, h2)" "dx_in s = bytesIn (out_data (dx_out h2))"
  shows "if dialAllowed pol target then
      (\<exists>d2. effects = [Dialed target (Some d2)] \<and>
         dx_out d2 = freshOut\<lparr>out_data := in_data (dx_in c), out_closed := True\<rparr>) \<and>
      dx_out c2 = freshOut\<lparr>out_data := in_data (dx_in d), out_closed := True\<rparr>
    else effects = [] \<and> dx_out c2 = freshOut\<lparr>out_closed := True\<rparr>"
proof -
  obtain b where b: "marshal (tcpMsg target) = Inr b" "length b \<le> maxHeader"
    "s1 = s\<lparr>dx_out := freshOut\<lparr>out_data := frameBytes b\<rparr>\<rparr>"
    using openWith_header [of marshal "tcpMsg target" s s1] assms(1,2) by (auto simp: openTCP_def)
  have "out_data (dx_out s2) = frameBytes b @ in_data (dx_in c)"
    using assms(4) b(3) by (auto simp: splice_def ioCopy_fresh streamClose_def freshOut_def)
  then have "dx_in h = \<lparr> in_data = frameBytes b @ in_data (dx_in c), in_end = eof \<rparr>"
    using assms(6) by (simp add: bytesIn_def)
  from handleStream_tcp [where unmarshal = unmarshal and m = "tcpMsg target" and target = target,
      OF assms(3) [OF b(1)] b(2) _ _ this assms(7-9)]
  have h: "handleStream unmarshal w pol h =
      (if dialAllowed pol target then
         ([Dialed target (Some \<lparr> dx_in = (dx_in d)\<lparr>in_data := []\<rparr>,
             dx_out = freshOut\<lparr>out_data := in_data (dx_in c), out_closed := True\<rparr> \<rparr>)],
          \<lparr> dx_in = \<lparr> in_data = [], in_end = eof \<rparr>,
            dx_out = freshOut\<lparr>out_data := in_data (dx_in d), out_closed := True\<rparr> \<rparr>)
       else ([], \<lparr> dx_in = \<lparr> in_data = in_data (dx_in c), in_end = eof \<rparr>,
                   dx_out = freshOut\<lparr>out_closed := True\<rparr> \<rparr>))"
    by (simp add: tcpMsg_def openMsg0_def)
  have "dx_out c2 = freshOut\<lparr>out_data := out_data (dx_out h2), out_closed := True\<rparr>"
    using assms(4,5,11) b(3) by (auto simp: splice_def ioCopy_fresh streamClose_def freshOut_def bytesIn_def)
  then show ?thesis
    using h assms(10) by (auto simp: freshOut_def)
qed

text \<open>
  C14: A forwarded connection, end to end. When the client has opened a stream for a target and both
  copies have run, the host reads the header from what the client wrote and, if its policy allows the
  target, dials exactly that target: the target receives exactly the bytes the local connection
  sent, the local connection receives exactly the bytes the target sent, and each side then sees the
  end. If the policy does not allow it, the host does nothing and sends nothing back.
\<close>

theorem tunnel_end_to_end:
  assumes "openTCP headerText None (Inr s) target = Inr s1" "dx_out s = freshOut" "validUtf8 target"
    and "splice s1 c = (s2, c2)" "dx_out c = freshOut"
    and "dx_in h = bytesIn (out_data (dx_out s2))" "dx_out h = freshOut"
    and "hw_dial w target = Inr d" "dx_out d = freshOut"
    and "handleStream (readHeaderText bad) w pol h = (effects, h2)" "dx_in s = bytesIn (out_data (dx_out h2))"
  shows "if dialAllowed pol target then
      (\<exists>d2. effects = [Dialed target (Some d2)] \<and>
         dx_out d2 = freshOut\<lparr>out_data := in_data (dx_in c), out_closed := True\<rparr>) \<and>
      dx_out c2 = freshOut\<lparr>out_data := in_data (dx_in d), out_closed := True\<rparr>
    else effects = [] \<and> dx_out c2 = freshOut\<lparr>out_closed := True\<rparr>"
  by (rule forward_end_to_end [OF assms(1,2) tcp_header_back [OF assms(3)] assms(4-11)])

text \<open>The header of the examples, which is short.\<close>

definition tpHeader :: bytes where
  "tpHeader = encodeJson (encOpenMsg (tcpMsg ''db:5432''))"

lemma tp_header:
  "headerText (tcpMsg ''db:5432'') = Inr tpHeader" "readHeaderText bad tpHeader = Inr (tcpMsg ''db:5432'')"
  "length tpHeader \<le> maxHeader"
proof -
  have v: "validUtf8 ''db:5432''"
    by (simp add: validUtf8_def isAscii_code)
  show h: "headerText (tcpMsg ''db:5432'') = Inr tpHeader"
    by (simp add: headerText_def tpHeader_def)
  show "readHeaderText bad tpHeader = Inr (tcpMsg ''db:5432'')"
    by (rule tcp_header_back [OF v h])
  show "length tpHeader \<le> maxHeader"
    using tcp_header_length [of "''db:5432''"] by (simp add: tpHeader_def maxHeader_def)
qed

theorem tunnel_end_to_end_witness:
  "\<exists>effects d2. fst (handleStream (readHeaderText (\<lambda>b. [])) tpWorld tpPolicy
       \<lparr> dx_in = bytesIn (frameBytes tpHeader @ ''ping''), dx_out = freshOut \<rparr>) = effects \<and>
     effects = [Dialed ''db:5432'' (Some d2)] \<and> out_data (dx_out d2) = ''ping''"
proof -
  let ?s = "\<lparr> dx_in = bytesIn ''pong'', dx_out = freshOut \<rparr>"
  let ?s1 = "?s\<lparr>dx_out := freshOut\<lparr>out_data := frameBytes tpHeader\<rparr>\<rparr>"
  let ?c = "\<lparr> dx_in = bytesIn ''ping'', dx_out = freshOut \<rparr>"
  let ?u = "readHeaderText (\<lambda>b. [])"
  let ?h = "\<lparr> dx_in = bytesIn (frameBytes tpHeader @ ''ping''), dx_out = freshOut \<rparr>"
  have 1: "openTCP headerText None (Inr ?s) ''db:5432'' = Inr ?s1"
    using tp_header(3) by (simp add: openTCP_def openWith_def writeHeader_def tp_header(1) writeLP_open freshOut_def)
  obtain s2 c2 where 2: "splice ?s1 ?c = (s2, c2)"
    by fastforce
  then have 3: "bytesIn (out_data (dx_out s2)) = bytesIn (frameBytes tpHeader @ ''ping'')"
    by (auto simp: splice_def ioCopy_fresh streamClose_def freshOut_def bytesIn_def)
  have ok: "dialAllowed tpPolicy ''db:5432''"
    by (simp add: dialAllowed_def tpPolicy_def)
  obtain effects h2 where 4: "handleStream ?u tpWorld tpPolicy ?h = (effects, h2)"
    by fastforce
  have 5: "hw_dial tpWorld ''db:5432'' = Inr ?s"
    by (simp add: tpWorld_def)
  have "h2 = \<lparr> dx_in = bytesIn [], dx_out = freshOut\<lparr>out_data := ''pong'', out_closed := True\<rparr> \<rparr>"
    using handleStream_tcp [where unmarshal = ?u and b = tpHeader and h = ?h and x = "''ping''" and e = eof
        and w = tpWorld and target = "''db:5432''" and d = ?s and pol = tpPolicy, OF tp_header(2,3)] 4 5 ok
    by (simp add: tcpMsg_def bytesIn_def)
  then have 6: "dx_in ?s = bytesIn (out_data (dx_out h2))"
    by simp
  have v: "validUtf8 ''db:5432''"
    by (simp add: validUtf8_def isAscii_code)
  have "\<exists>d2. effects = [Dialed ''db:5432'' (Some d2)] \<and>
      dx_out d2 = freshOut\<lparr>out_data := ''ping'', out_closed := True\<rparr>"
    using tunnel_end_to_end [OF 1 _ v 2 _ _ _ 5 _ 4 6] ok 3 by (simp add: bytesIn_def)
  then show ?thesis
    using 4 by auto
qed

section \<open>Files, put and got back\<close>

lemma handleStream_file:
  assumes "unmarshal b = Inr m" "length b \<le> maxHeader" "om_kind m = kindFile" "om_file m = Some f"
    and "dx_in h = \<lparr> in_data = frameBytes b @ x, in_end = e \<rparr>"
    and "hp_fileRoot pol \<noteq> []" "hostPath (hw_cwd w) (hp_fileRoot pol) (fh_path f) = Some p"
  shows "fst (handleStream unmarshal w pol h) =
      (if fh_op f = ''get'' then [Opened p]
       else if fh_op f = ''put'' then
         (let mode = (if fh_mode f = 0 then 420 else unat (fh_mode f))
          in [Created p mode (if hw_create w p mode = None then Some (out_data (ioCopy \<lparr> in_data = x, in_end = e \<rparr> (newFile (hw_disk w p)))) else None)])
       else [])"
    and "fh_op f = ''get'' \<Longrightarrow> dx_out h = freshOut \<Longrightarrow>
      out_data (dx_out (snd (handleStream unmarshal w pol h))) =
        (case hw_open w p of Inl e \<Rightarrow> [] | Inr content \<Rightarrow> content)"
  using assms
  by (auto simp: handleStream_def readHeader_frame hostFile_def kind_defs streamClose_def streamWrite_def
      freshOut_def Let_def split: option.splits sum.splits)

lemma file_both_ways:
  assumes "filePut marshal (Inr (content, perm)) (Inr s) path = Inr out" "dx_out s = freshOut"
    and "fileGet marshal (Inr t) path None None = (got, err)" "dx_out t = freshOut"
    and "\<And>b. marshal (putMsg path content perm) = Inr b \<Longrightarrow> unmarshal b = Inr (putMsg path content perm)"
    and "\<And>b. marshal (getMsg path) = Inr b \<Longrightarrow> unmarshal b = Inr (getMsg path)"
    and "hp_fileRoot pol \<noteq> []" "hostPath (hw_cwd w) (hp_fileRoot pol) path = Some p"
    and "mode = (if perm = 0 then 420 else unat perm)"
    and "hw_create w p mode = None" "hw_disk w p = None" "hw_open w p = Inr content"
    and "dx_in h = bytesIn (out_data out)"
    and "openWith marshal (getMsg path) (Inr t) = Inr t1"
    and "dx_in h' = bytesIn (out_data (dx_out t1))" "dx_out h' = freshOut"
    and "dx_in t = bytesIn (out_data (dx_out (snd (handleStream unmarshal w pol h'))))"
  shows "fst (handleStream unmarshal w pol h) = [Created p mode (Some content)] \<and>
    got = Some content \<and> err = None"
proof
  obtain s1 where s1: "openWith marshal (putMsg path content perm) (Inr s) = Inr s1"
    using assms(1) by (auto simp: filePut_def split: sum.splits)
  then obtain b where b: "marshal (putMsg path content perm) = Inr b" "length b \<le> maxHeader"
    "s1 = s\<lparr>dx_out := freshOut\<lparr>out_data := frameBytes b\<rparr>\<rparr>"
    using openWith_header [OF s1 assms(2)] by blast
  then have "out_data out = frameBytes b @ content"
    using assms(1) s1 by (auto simp: filePut_def streamWrite_def streamClose_def freshOut_def)
  then have "dx_in h = \<lparr> in_data = frameBytes b @ content, in_end = eof \<rparr>"
    using assms(13) by (simp add: bytesIn_def)
  from handleStream_file(1) [where unmarshal = unmarshal and m = "putMsg path content perm",
      OF assms(5) [OF b(1)] b(2) _ _ this assms(7)] assms(8-11)
  show "fst (handleStream unmarshal w pol h) = [Created p mode (Some content)]"
    by (cases "perm = 0") (simp_all add: putMsg_def kind_defs Let_def)
next
  obtain b where b: "marshal (getMsg path) = Inr b" "length b \<le> maxHeader"
    "t1 = t\<lparr>dx_out := freshOut\<lparr>out_data := frameBytes b\<rparr>\<rparr>"
    using openWith_header [OF assms(14) assms(4)] by blast
  then have "dx_in h' = \<lparr> in_data = frameBytes b @ [], in_end = eof \<rparr>"
    using assms(15) by (simp add: bytesIn_def)
  from handleStream_file(2) [where unmarshal = unmarshal and m = "getMsg path",
      OF assms(6) [OF b(1)] b(2) _ _ this assms(7)] assms(8,12,16)
  have "out_data (dx_out (snd (handleStream unmarshal w pol h'))) = content"
    by (simp add: getMsg_def kind_defs)
  then show "got = Some content \<and> err = None"
    using assms(3,14,17) b(3) by (auto simp: fileGet_def bytesIn_def)
qed

lemma file_headers_back:
  assumes "validUtf8 path"
  shows "headerText (getMsg path) = Inr b \<Longrightarrow> readHeaderText bad b = Inr (getMsg path)"
    "int (length content) < 2 ^ 63 \<Longrightarrow> headerText (putMsg path content perm) = Inr b \<Longrightarrow>
       readHeaderText bad b = Inr (putMsg path content perm)"
  using assms cleanOpen_id [of "getMsg path" bad] cleanOpen_id [of "putMsg path content perm" bad]
  by (simp_all add: headerText_def openFits_def getMsg_def putMsg_def openMsg0_def cleanOpen_def cleanFile_def
      validUtf8_def int64_def isAscii_code)

text \<open>
  C23: A file put and fetched back. If \<open>FilePut\<close> succeeds and the host's root lets the path through
  and the file can be created, the host writes exactly the local file's content, with its permission
  bits, to the path under its root, unless its disk fails; and a \<open>FileGet\<close> of the same path from a host where that file has
  that content leaves exactly the content in the local file, without an error.
\<close>

theorem put_get_roundtrip:
  assumes "filePut headerText (Inr (content, perm)) (Inr s) path = Inr out" "dx_out s = freshOut"
    and "fileGet headerText (Inr t) path None None = (got, err)" "dx_out t = freshOut"
    and "validUtf8 path" "int (length content) < 2 ^ 63"
    and "hp_fileRoot pol \<noteq> []" "hostPath (hw_cwd w) (hp_fileRoot pol) path = Some p"
    and "mode = (if perm = 0 then 420 else unat perm)"
    and "hw_create w p mode = None" "hw_disk w p = None" "hw_open w p = Inr content"
    and "dx_in h = bytesIn (out_data out)"
    and "openWith headerText (getMsg path) (Inr t) = Inr t1"
    and "dx_in h' = bytesIn (out_data (dx_out t1))" "dx_out h' = freshOut"
    and "dx_in t = bytesIn (out_data (dx_out (snd (handleStream (readHeaderText bad) w pol h'))))"
  shows "fst (handleStream (readHeaderText bad) w pol h) = [Created p mode (Some content)] \<and>
    got = Some content \<and> err = None"
  by (rule file_both_ways [OF assms(1-4) file_headers_back(2) [OF assms(5,6)] file_headers_back(1) [OF assms(5)] assms(7-17)])

text \<open>The two headers of the example, which are short.\<close>

definition wtPut :: bytes where
  "wtPut = encodeJson (encOpenMsg (putMsg ''f'' ''data'' 0))"

definition wtGet :: bytes where
  "wtGet = encodeJson (encOpenMsg (getMsg ''f''))"

lemma wt_headers:
  "headerText (putMsg ''f'' ''data'' 0) = Inr wtPut" "headerText (getMsg ''f'') = Inr wtGet"
  "readHeaderText bad wtGet = Inr (getMsg ''f'')" "length wtPut \<le> maxHeader" "length wtGet \<le> maxHeader"
proof -
  have v: "validUtf8 ''f''"
    by (simp add: validUtf8_def isAscii_code)
  show "headerText (putMsg ''f'' ''data'' 0) = Inr wtPut" and g: "headerText (getMsg ''f'') = Inr wtGet"
    by (simp_all add: headerText_def wtPut_def wtGet_def)
  show "readHeaderText bad wtGet = Inr (getMsg ''f'')"
    by (rule file_headers_back(1) [OF v g])
  show "length wtPut \<le> maxHeader" "length wtGet \<le> maxHeader"
    using jsonString_length [of "''kind''"] jsonString_length [of "''file''"] jsonString_length [of "''op''"]
      jsonString_length [of "''put''"] jsonString_length [of "''get''"] jsonString_length [of "''path''"]
      jsonString_length [of "''f''"] jsonString_length [of "''size''"] jsonString_length [of "''mode''"]
    by (simp_all add: wtPut_def wtGet_def maxHeader_def putMsg_def getMsg_def openMsg0_def encOpenMsg_def encFileHeader_def
        member_def omitempty_def intText_def wordText_def kind_defs itoa_def natToDec.simps)
qed

lemma wt_path: "hostPath (hw_cwd tpWorld) (hp_fileRoot tpPolicy) ''f'' = Some ''/srv/f''"
  by (simp add: hostPath_def tpWorld_def tpPolicy_def gopath_defs cleanElem.simps hasPrefix_def Let_def)

lemma wt_open:
  "headerText m = Inr b \<Longrightarrow> length b \<le> maxHeader \<Longrightarrow>
   openWith headerText m (Inr \<lparr> dx_in = i, dx_out = freshOut \<rparr>) =
     Inr \<lparr> dx_in = i, dx_out = freshOut\<lparr>out_data := frameBytes b\<rparr> \<rparr>"
  by (simp add: openWith_def writeHeader_def writeLP_open freshOut_def)

theorem put_get_roundtrip_witness:
  "fst (handleStream (readHeaderText (\<lambda>b. [])) tpWorld tpPolicy
     \<lparr> dx_in = bytesIn (frameBytes wtPut @ ''data''), dx_out = freshOut \<rparr>) = [Created ''/srv/f'' 420 (Some ''data'')]"
proof -
  let ?u = "readHeaderText (\<lambda>b. [])"
  let ?s = "\<lparr> dx_in = bytesIn [], dx_out = freshOut \<rparr>"
  let ?t = "\<lparr> dx_in = bytesIn ''data'', dx_out = freshOut \<rparr>"
  let ?h' = "\<lparr> dx_in = bytesIn (frameBytes wtGet), dx_out = freshOut \<rparr>"
  let ?h = "\<lparr> dx_in = bytesIn (frameBytes wtPut @ ''data''), dx_out = freshOut \<rparr>"
  note open_put = wt_open [OF wt_headers(1,4)] and open_get = wt_open [OF wt_headers(2,5)]
  have v: "validUtf8 ''f''"
    by (simp add: validUtf8_def isAscii_code)
  have 1: "filePut headerText (Inr (''data'', 0)) (Inr ?s) ''f'' =
      Inr (freshOut\<lparr>out_data := frameBytes wtPut @ ''data'', out_closed := True\<rparr>)"
    by (simp add: filePut_def open_put) (simp add: streamWrite_def streamClose_def freshOut_def)
  obtain got err where 2: "fileGet headerText (Inr ?t) ''f'' None None = (got, err)"
    by fastforce
  have 3: "openWith headerText (getMsg ''f'') (Inr ?t) = Inr (?t\<lparr>dx_out := freshOut\<lparr>out_data := frameBytes wtGet\<rparr>\<rparr>)"
    by (simp add: open_get)
  have 4: "out_data (dx_out (snd (handleStream ?u tpWorld tpPolicy ?h'))) = ''data''"
    using handleStream_file(2) [where unmarshal = ?u and b = wtGet and m = "getMsg ''f''" and h = ?h'
        and x = "[]" and e = eof and pol = tpPolicy and w = tpWorld and p = "''/srv/f''", OF wt_headers(3,5)] wt_path
    by (simp add: getMsg_def kind_defs bytesIn_def tpPolicy_def tpWorld_def)
  have "fst (handleStream ?u tpWorld tpPolicy ?h) = [Created ''/srv/f'' 420 (Some ''data'')] \<and>
      got = Some ''data'' \<and> err = None"
    by (rule put_get_roundtrip [OF 1 _ 2 _ v _ _ wt_path _ _ _ _ _ 3, where h' = ?h'])
      (simp_all add: tpPolicy_def tpWorld_def 4 [unfolded tpWorld_def tpPolicy_def])
  then show ?thesis
    by blast
qed

text \<open>
  A refused download looks like an empty file: the host sends nothing back and ends the stream, and the
  local file is truncated and no error reported.
\<close>

lemma refused_get_empties_file:
  assumes "unmarshal b = Inr (getMsg path)" "length b \<le> maxHeader"
    and "dx_in h = bytesIn (frameBytes b)" "dx_out h = freshOut"
    and "hp_fileRoot pol = [] \<or> hostPath (hw_cwd w) (hp_fileRoot pol) path = None"
    and "dx_in t = bytesIn (out_data (dx_out (snd (handleStream unmarshal w pol h))))"
    and "openWith marshal (getMsg path) (Inr t) = Inr t1"
  shows "fst (handleStream unmarshal w pol h) = [] \<and> fileGet marshal (Inr t) path None None = (Some [], None)"
proof -
  have h: "dx_in h = \<lparr> in_data = frameBytes b @ [], in_end = eof \<rparr>"
    using assms(3) by (simp add: bytesIn_def)
  have "fst (handleStream unmarshal w pol h) = [] \<and> out_data (dx_out (snd (handleStream unmarshal w pol h))) = []"
    using assms(1,2,4,5) h
    by (auto simp: handleStream_def readHeader_frame hostFile_def getMsg_def kind_defs streamClose_def freshOut_def
        simp del: append_Nil2)
  moreover have "dx_in t1 = dx_in t"
    using assms(7) by (auto simp: openWith_def split: prod.splits option.splits)
  ultimately show ?thesis
    using assms(6,7) by (simp add: fileGet_def bytesIn_def)
qed

section \<open>SOCKS5\<close>

text \<open>The wire form of an address, the host it stands for, and a whole CONNECT exchange.\<close>

datatype socks_addr = V4 bytes | Domain bytes | V6 bytes

fun addrWf :: "socks_addr \<Rightarrow> bool" where
  "addrWf (V4 a) = (length a = 4)"
| "addrWf (Domain d) = (length d < 256)"
| "addrWf (V6 a) = (length a = 16)"

fun addrBytes :: "socks_addr \<Rightarrow> bytes" where
  "addrBytes (V4 a) = byte 1 # a"
| "addrBytes (Domain d) = byte 3 # byte (length d) # d"
| "addrBytes (V6 a) = byte 4 # a"

fun addrHost :: "socks_addr \<Rightarrow> string" where
  "addrHost (V4 a) = ipString a"
| "addrHost (Domain d) = d"
| "addrHost (V6 a) = ipString a"

definition socksExchange :: "bytes \<Rightarrow> char \<Rightarrow> char \<Rightarrow> socks_addr \<Rightarrow> char \<Rightarrow> char \<Rightarrow> bytes" where
  "socksExchange methods ver rsv addr p1 p0 =
     [byte 5, byte (length methods)] @ methods @ [ver, byte 1, rsv] @ addrBytes addr @ [p1, p0]"

lemma of_byte [simp]: "(of_char (byte n) :: nat) = n mod 256"
  by (simp add: byte_def)

lemma byte_of [simp]: "byte (of_char c) = c"
  by (simp add: byte_def)

lemma byte_eq: "(of_char c :: nat) = n \<Longrightarrow> c = byte n"
  using byte_of [of c] by simp

lemma readFull_InrD:
  "readFull n s = (Inr b, s') \<Longrightarrow> length b = n \<and> in_data s = b @ in_data s' \<and> s' = s\<lparr>in_data := in_data s'\<rparr>"
  by (auto simp: readFull_def split: if_splits)

lemma readFull_data: "in_data s = b @ rest \<Longrightarrow> length b = n \<Longrightarrow> readFull n s = (Inr b, s\<lparr>in_data := rest\<rparr>)"
  by (simp add: readFull_def)

lemma socksHost_addr:
  assumes "addrWf addr" "in_data s = tl (addrBytes addr) @ rest"
  shows "socksHost (of_char (hd (addrBytes addr))) s = (Inr (addrHost addr), s\<lparr>in_data := rest\<rparr>)"
proof (cases addr)
  case (Domain d)
  have "readFull 1 s = (Inr [byte (length d)], s\<lparr>in_data := d @ rest\<rparr>)"
    by (rule readFull_data) (use assms Domain in simp_all)
  moreover have "readFull (length d) (s\<lparr>in_data := d @ rest\<rparr>) = (Inr d, s\<lparr>in_data := rest\<rparr>)"
    using readFull_data [of "s\<lparr>in_data := d @ rest\<rparr>" d rest] by simp
  ultimately show ?thesis
    using assms Domain by (simp add: socksHost_def)
qed (use assms readFull_data [of s _ rest] in \<open>simp_all add: socksHost_def\<close>)

lemma socksHost_InrD:
  assumes "socksHost (of_char c) s = (Inr host, s')"
  shows "\<exists>addr. addrWf addr \<and> c # in_data s = addrBytes addr @ in_data s' \<and> addrHost addr = host \<and>
    s' = s\<lparr>in_data := in_data s'\<rparr>"
proof -
  consider (v4) a where "c = byte 1" "readFull 4 s = (Inr a, s')" "host = ipString a"
    | (dom) l s1 where "c = byte 3" "readFull 1 s = (Inr l, s1)" "readFull (of_char (l ! 0)) s1 = (Inr host, s')"
    | (v6) a where "c = byte 4" "readFull 16 s = (Inr a, s')" "host = ipString a"
    using assms by (auto simp: socksHost_def apfst_def map_prod_def map_sum_def
        dest!: byte_eq split: if_splits prod.splits sum.splits)
  then show ?thesis
  proof cases
    case v4
    then show ?thesis
      using readFull_InrD [OF v4(2)] by (intro exI [of _ "V4 a"]) simp
  next
    case dom
    note d = readFull_InrD [OF dom(2)] readFull_InrD [OF dom(3)]
    obtain x where l: "l = [x]"
      using d(1) by (cases l) auto
    have "x = byte (length host)" "length host < 256"
      using d(2) l byte_of [of x] of_char_le [of x] by simp_all
    then show ?thesis
      using d l dom(1) by (intro exI [of _ "Domain host"]) simp
  next
    case v6
    then show ?thesis
      using readFull_InrD [OF v6(2)] by (intro exI [of _ "V6 a"]) simp
  qed
qed

lemma in_data_trans:
  "s1 = s\<lparr>in_data := x\<rparr> \<Longrightarrow> s2 = s1\<lparr>in_data := y\<rparr> \<Longrightarrow> s2 = s\<lparr>in_data := y\<rparr>"
  by simp

lemma socksRequest_iff:
  assumes "out_room w = None"
  shows "socksRequest s w = (Inr target, s', w') \<longleftrightarrow>
    (\<exists>ver rsv addr p1 p0. addrWf addr \<and> s' = s\<lparr>in_data := in_data s'\<rparr> \<and>
       in_data s = [ver, byte 1, rsv] @ addrBytes addr @ [p1, p0] @ in_data s' \<and>
       target = joinHostPort (addrHost addr) (itoa (int (256 * of_char p1 + of_char p0))) \<and>
       w' = w\<lparr>out_data := out_data w @ successReply\<rparr>)"  (is "?L \<longleftrightarrow> ?R")
proof
  assume ?L
  then obtain b s1 host s2 p where r: "readFull 4 s = (Inr b, s1)" "(of_char (b ! 1) :: nat) = 1"
    "socksHost (of_char (b ! 3)) s1 = (Inr host, s2)" "readFull 2 s2 = (Inr p, s')"
    "target = joinHostPort host (itoa (int (getUint16 p)))" "w' = snd (streamWrite successReply w)"
    unfolding socksRequest_def by (auto split: prod.splits sum.splits if_splits)
  note d = readFull_InrD [OF r(1)] readFull_InrD [OF r(4)]
  obtain ver rsv c where b: "b = [ver, byte 1, rsv, c]"
    using d(1) byte_eq [OF r(2)] by (auto simp: length_Suc_conv eval_nat_numeral)
  obtain p1 p0 where p: "p = [p1, p0]"
    using d(2) by (auto simp: length_Suc_conv eval_nat_numeral)
  obtain addr where addr: "addrWf addr" "c # in_data s1 = addrBytes addr @ in_data s2" "addrHost addr = host"
    "s2 = s1\<lparr>in_data := in_data s2\<rparr>"
    using socksHost_InrD [of c s1 host s2] r(3) b by auto
  have "in_data s = [ver, byte 1, rsv] @ c # in_data s1"
    using d(1) b by simp
  then have "in_data s = [ver, byte 1, rsv] @ addrBytes addr @ [p1, p0] @ in_data s'"
    using addr(2) d(2) p by simp
  moreover have "s' = s\<lparr>in_data := in_data s'\<rparr>"
    using d(1,2) addr(4) by (blast intro: in_data_trans)
  moreover have "w' = w\<lparr>out_data := out_data w @ successReply\<rparr>"
    using r(6) assms by (simp add: streamWrite_def)
  ultimately show ?R
    using addr r(5) p by (auto simp: getUint16_def)
next
  assume ?R
  then obtain ver rsv addr p1 p0 where a: "addrWf addr" "s' = s\<lparr>in_data := in_data s'\<rparr>"
    "in_data s = [ver, byte 1, rsv] @ addrBytes addr @ [p1, p0] @ in_data s'"
    "target = joinHostPort (addrHost addr) (itoa (int (256 * of_char p1 + of_char p0)))"
    "w' = w\<lparr>out_data := out_data w @ successReply\<rparr>"
    by blast
  let ?s1 = "s\<lparr>in_data := tl (addrBytes addr) @ [p1, p0] @ in_data s'\<rparr>"
  have "addrBytes addr = hd (addrBytes addr) # tl (addrBytes addr)"
    by (cases addr) simp_all
  then have 1: "readFull 4 s = (Inr [ver, byte 1, rsv, hd (addrBytes addr)], ?s1)"
    using a(3) by (intro readFull_data) (metis append_Cons append_Nil, simp)
  have 2: "socksHost (of_char (hd (addrBytes addr))) ?s1 = (Inr (addrHost addr), s\<lparr>in_data := [p1, p0] @ in_data s'\<rparr>)"
    using socksHost_addr [OF a(1), of ?s1 "[p1, p0] @ in_data s'"] by simp
  have 3: "readFull 2 (s\<lparr>in_data := [p1, p0] @ in_data s'\<rparr>) = (Inr [p1, p0], s\<lparr>in_data := in_data s'\<rparr>)"
    by (simp add: readFull_def)
  show ?L
    using a(2,4,5) assms by (simp add: socksRequest_def 1 2 [simplified] 3 [simplified] getUint16_def streamWrite_def)
qed

text \<open>The two directions: what a handshake that succeeds has read, and that it accepts every such exchange.\<close>

lemma socks_handshake_reads:
  assumes "out_room w = None" "socksHandshake s w = (Inr target, s', w')"
  shows "\<exists>methods ver rsv addr p1 p0. length methods < 256 \<and> addrWf addr \<and>
       in_data s = socksExchange methods ver rsv addr p1 p0 @ in_data s' \<and> s' = s\<lparr>in_data := in_data s'\<rparr> \<and>
       target = joinHostPort (addrHost addr) (itoa (int (256 * of_char p1 + of_char p0))) \<and>
       w' = w\<lparr>out_data := out_data w @ greetingReply @ successReply\<rparr>"
proof -
  let ?w = "w\<lparr>out_data := out_data w @ greetingReply\<rparr>"
  have w: "streamWrite greetingReply w = (None, ?w)" "out_room ?w = None"
    using assms(1) by (simp_all add: streamWrite_def)
  obtain b s1 ms s2 where r: "readFull 2 s = (Inr b, s1)" "(of_char (b ! 0) :: nat) = 5"
    "readFull (of_char (b ! 1)) s1 = (Inr ms, s2)" "socksRequest s2 ?w = (Inr target, s', w')"
    using assms(2) unfolding socksHandshake_def w(1) by (auto split: prod.splits sum.splits if_splits)
  note d = readFull_InrD [OF r(1)] readFull_InrD [OF r(3)]
  obtain n where b: "b = [byte 5, n]"
    using d(1) byte_eq [OF r(2)] by (auto simp: length_Suc_conv eval_nat_numeral)
  then have n: "n = byte (length ms)" "length ms < 256"
    using d(2) byte_of [of n] of_char_le [of n] by simp_all
  obtain ver rsv addr p1 p0 where a: "addrWf addr" "s' = s2\<lparr>in_data := in_data s'\<rparr>"
    "in_data s2 = [ver, byte 1, rsv] @ addrBytes addr @ [p1, p0] @ in_data s'"
    "target = joinHostPort (addrHost addr) (itoa (int (256 * of_char p1 + of_char p0)))"
    "w' = ?w\<lparr>out_data := out_data ?w @ successReply\<rparr>"
    using r(4) unfolding socksRequest_iff [OF w(2)] by blast
  have "in_data s = socksExchange ms ver rsv addr p1 p0 @ in_data s'"
    using d(1,2) [THEN conjunct2, THEN conjunct1] b n(1) a(3) by (simp add: socksExchange_def)
  moreover have "s' = s\<lparr>in_data := in_data s'\<rparr>"
    using d(1,2) a(2) by (blast intro: in_data_trans)
  moreover have "w' = w\<lparr>out_data := out_data w @ greetingReply @ successReply\<rparr>"
    using a(5) by simp
  ultimately show ?thesis
    using n(2) a(1,4) by blast
qed

lemma socks_handshake_accepts:
  assumes "out_room w = None" "length ms < 256" "addrWf addr"
    and a: "in_data s = socksExchange ms ver rsv addr p1 p0 @ in_data s'" "s' = s\<lparr>in_data := in_data s'\<rparr>"
      "target = joinHostPort (addrHost addr) (itoa (int (256 * of_char p1 + of_char p0)))"
      "w' = w\<lparr>out_data := out_data w @ greetingReply @ successReply\<rparr>"
  shows "socksHandshake s w = (Inr target, s', w')"
proof -
  let ?w = "w\<lparr>out_data := out_data w @ greetingReply\<rparr>"
  have w: "streamWrite greetingReply w = (None, ?w)" "out_room ?w = None"
    using assms(1) by (simp_all add: streamWrite_def)
  define rest where "rest = [ver, byte 1, rsv] @ addrBytes addr @ [p1, p0] @ in_data s'"
  have 1: "readFull 2 s = (Inr [byte 5, byte (length ms)], s\<lparr>in_data := ms @ rest\<rparr>)"
    by (rule readFull_data) (simp_all add: a(1) socksExchange_def rest_def)
  have 2: "readFull (length ms) (s\<lparr>in_data := ms @ rest\<rparr>) = (Inr ms, s\<lparr>in_data := rest\<rparr>)"
    by (simp add: readFull_def)
  have w': "w' = ?w\<lparr>out_data := out_data ?w @ successReply\<rparr>"
    using a(4) by simp
  have s': "s' = (s\<lparr>in_data := rest\<rparr>)\<lparr>in_data := in_data s'\<rparr>"
    using a(2) by simp
  have rest: "in_data (s\<lparr>in_data := rest\<rparr>) = [ver, byte 1, rsv] @ addrBytes addr @ [p1, p0] @ in_data s'"
    by (simp add: rest_def)
  have "socksRequest (s\<lparr>in_data := rest\<rparr>) ?w = (Inr target, s', w')"
    unfolding socksRequest_iff [OF w(2)] using assms(3) a(3) w' s' rest by blast
  then show ?thesis
    using assms(2) by (simp add: socksHandshake_def 1 2 w(1))
qed



end
