(* ===== verification/Backoff.thy ===== *)
theory Backoff
  imports Prelude
begin

text \<open>
  Retrying with exponential backoff: the delay both retry loops of the repository keep
  (\<open>ConnManager.Run\<close> and \<open>runWithRetry\<close>), stated once and interpreted for each.
\<close>

locale backoff =
  fixes first cap :: duration and advance :: "duration \<Rightarrow> duration"
  assumes first_pos: "0 < first" and first_cap: "first \<le> cap"
    and advance: "advance d = min (2 * d) cap"
begin

definition delay :: "nat \<Rightarrow> duration" where
  "delay n = (advance ^^ n) first"

lemma delay_eq: "delay n = min (2 ^ n * first) cap"
proof (induction n)
  case 0
  then show ?case using first_cap by (simp add: delay_def)
next
  case (Suc n)
  have "delay (Suc n) = min (2 * min (2 ^ n * first) cap) cap"
    unfolding Suc [symmetric] by (simp add: delay_def flip: advance)
  then show ?case
    using first_pos first_cap by (simp add: min_def)
qed

lemma delay_range: "first \<le> delay n \<and> delay n \<le> cap"
proof -
  have "1 * first \<le> 2 ^ n * first"
    using first_pos by (intro mult_right_mono) simp_all
  then show ?thesis
    using first_cap by (simp add: delay_eq)
qed

lemma delay_Suc: "delay (Suc n) = advance (delay n)"
  by (simp add: delay_def)

lemma delay_mono: "m \<le> n \<Longrightarrow> delay m \<le> delay n"
proof -
  assume "m \<le> n"
  then have "2 ^ m * first \<le> 2 ^ n * first"
    using first_pos by (intro mult_right_mono power_increasing) simp_all
  then show ?thesis
    by (simp add: delay_eq)
qed

end

end
