(* ===== verification/Conn_Manager.thy ===== *)
theory Conn_Manager
  imports Backoff
begin

text \<open>
  The client's connection manager (\<open>internal/app/connmanager.go\<close>): \<open>Run\<close> keeps one connection
  alive and any number of callers of \<open>Conn\<close> wait for it, all interleaved.

  A channel is a number; closing one that is closed panics, which is \<^const>\<open>None\<close> here. A step is one
  locked section, or one call or select of \<open>Run\<close> or of a caller returning. Cancelling the context is
  a step of its own, possible at any time.
\<close>

section \<open>The manager\<close>

definition minBackoff :: duration where
  "minBackoff = second"

definition maxBackoff :: duration where
  "maxBackoff = 15 * second"

record 'c conn_manager =
  cm_conn :: "'c option"
  cm_ready :: nat
  cm_closed :: "nat list"
  cm_made :: nat

definition newConnManager :: "'c conn_manager" where
  "newConnManager = \<lparr> cm_conn = None, cm_ready = 0, cm_closed = [], cm_made = 1 \<rparr>"

definition cmSet :: "'c \<Rightarrow> 'c conn_manager \<Rightarrow> 'c conn_manager option" where
  "cmSet c m =
     (if cm_ready m \<in> set (cm_closed m) then None
      else Some (m\<lparr>cm_conn := Some c, cm_closed := cm_ready m # cm_closed m\<rparr>))"

definition cmClear :: "'c conn_manager \<Rightarrow> 'c conn_manager" where
  "cmClear m = m\<lparr>cm_conn := None, cm_ready := cm_made m, cm_made := Suc (cm_made m)\<rparr>"

definition nextBackoff :: "duration \<Rightarrow> duration" where
  "nextBackoff b = (let b2 = b * 2 in if maxBackoff < b2 then maxBackoff else b2)"

section \<open>Run and the callers\<close>

datatype 'c run_phase = AtTop | Dialing | Waiting | Connected 'c | Stopped | Panicked

datatype 'c caller = Asking | Blocked nat | Got 'c | Failed

record 'c cm_state =
  cs_mgr :: "'c conn_manager"
  cs_phase :: "'c run_phase"
  cs_backoff :: duration
  cs_fails :: nat
  cs_cancelled :: bool
  cs_callers :: "nat \<Rightarrow> 'c caller option"

text \<open>\<open>cs_fails\<close> only counts the failed attempts since \<open>Run\<close> started or last connected.\<close>

datatype 'c cm_event =
    Cancel | TestContext | DialFails | DialGives 'c | DelayOver | SeesCancel | ConnLost
  | Call nat | Look nat | Wake nat | GiveUp nat

inductive cm_step :: "'c cm_state \<Rightarrow> 'c cm_event \<Rightarrow> 'c cm_state \<Rightarrow> bool" where
  cancel: "cm_step s Cancel (s\<lparr>cs_cancelled := True\<rparr>)"
| test: "cs_phase s = AtTop \<Longrightarrow>
    cm_step s TestContext (s\<lparr>cs_phase := (if cs_cancelled s then Stopped else Dialing)\<rparr>)"
| dial_fails: "cs_phase s = Dialing \<Longrightarrow>
    cm_step s DialFails
      (if cs_cancelled s then s\<lparr>cs_phase := Stopped\<rparr>
       else s\<lparr>cs_phase := Waiting, cs_fails := Suc (cs_fails s)\<rparr>)"
| dial_gives: "cs_phase s = Dialing \<Longrightarrow>
    cm_step s (DialGives c)
      (case cmSet c (cs_mgr s) of
         None \<Rightarrow> s\<lparr>cs_phase := Panicked\<rparr>
       | Some m \<Rightarrow> s\<lparr>cs_mgr := m, cs_phase := Connected c, cs_backoff := minBackoff, cs_fails := 0\<rparr>)"
| delay_over: "cs_phase s = Waiting \<Longrightarrow>
    cm_step s DelayOver (s\<lparr>cs_phase := AtTop, cs_backoff := nextBackoff (cs_backoff s)\<rparr>)"
| sees_cancel_waiting: "cs_phase s = Waiting \<Longrightarrow> cs_cancelled s \<Longrightarrow>
    cm_step s SeesCancel (s\<lparr>cs_phase := Stopped\<rparr>)"
| sees_cancel_connected: "cs_phase s = Connected c \<Longrightarrow> cs_cancelled s \<Longrightarrow>
    cm_step s SeesCancel (s\<lparr>cs_phase := Stopped, cs_mgr := cmClear (cs_mgr s)\<rparr>)"
| conn_lost: "cs_phase s = Connected c \<Longrightarrow>
    cm_step s ConnLost (s\<lparr>cs_phase := AtTop, cs_mgr := cmClear (cs_mgr s)\<rparr>)"
| call: "cs_callers s i = None \<Longrightarrow> cm_step s (Call i) (s\<lparr>cs_callers := (cs_callers s)(i \<mapsto> Asking)\<rparr>)"
| look: "cs_callers s i = Some Asking \<Longrightarrow>
    cm_step s (Look i)
      (s\<lparr>cs_callers := (cs_callers s)(i \<mapsto>
           (case cm_conn (cs_mgr s) of Some c \<Rightarrow> Got c | None \<Rightarrow> Blocked (cm_ready (cs_mgr s))))\<rparr>)"
| wake: "cs_callers s i = Some (Blocked ch) \<Longrightarrow> ch \<in> set (cm_closed (cs_mgr s)) \<Longrightarrow>
    cm_step s (Wake i) (s\<lparr>cs_callers := (cs_callers s)(i \<mapsto> Asking)\<rparr>)"
| give_up: "cs_callers s i = Some (Blocked ch) \<Longrightarrow>
    cm_step s (GiveUp i) (s\<lparr>cs_callers := (cs_callers s)(i \<mapsto> Failed)\<rparr>)"

text \<open>
  A caller has a context of its own (\<open>openTCP\<close> waits at most \<open>openWait\<close>), so it can give up whether
  or not \<open>Run\<close>'s context is cancelled.
\<close>

definition cm_init :: "'c cm_state \<Rightarrow> bool" where
  "cm_init s \<longleftrightarrow> cs_mgr s = newConnManager \<and> cs_phase s = AtTop \<and> cs_backoff s = minBackoff \<and>
     cs_fails s = 0 \<and> \<not> cs_cancelled s \<and> cs_callers s = Map.empty"

lemmas cm_defs [go_defs] =
  minBackoff_def maxBackoff_def newConnManager_def cmSet_def cmClear_def nextBackoff_def

inductive_cases cm_stepE: "cm_step s e t"

inductive_simps cm_step_look: "cm_step s (Look i) t"
inductive_simps cm_step_wake: "cm_step s (Wake i) t"
inductive_simps cm_step_lost: "cm_step s ConnLost t"

interpretation cmb: backoff minBackoff maxBackoff nextBackoff
  by unfold_locales (auto simp: cm_defs duration_defs Let_def)

section \<open>Invariant\<close>

definition mgr_inv :: "'c conn_manager \<Rightarrow> bool" where
  "mgr_inv m \<longleftrightarrow> (cm_conn m \<noteq> None \<longleftrightarrow> cm_ready m \<in> set (cm_closed m)) \<and>
     cm_ready m < cm_made m \<and> (\<forall>ch \<in> set (cm_closed m). ch < cm_made m) \<and> distinct (cm_closed m)"

definition phase_inv :: "'c cm_state \<Rightarrow> bool" where
  "phase_inv s \<longleftrightarrow> cs_phase s \<noteq> Panicked \<and>
     cm_conn (cs_mgr s) = (case cs_phase s of Connected c \<Rightarrow> Some c | _ \<Rightarrow> None) \<and>
     (cs_phase s \<noteq> Stopped \<longrightarrow>
        cs_backoff s = cmb.delay (cs_fails s - (if cs_phase s = Waiting then 1 else 0))) \<and>
     (cs_phase s = Waiting \<longrightarrow> 0 < cs_fails s)"

text \<open>A blocked caller waits for a channel that is closed already or that the next connection closes.\<close>

definition callers_inv :: "'c cm_state \<Rightarrow> bool" where
  "callers_inv s \<longleftrightarrow> (\<forall>i ch. cs_callers s i = Some (Blocked ch) \<longrightarrow>
     ch \<in> set (cm_closed (cs_mgr s)) \<or> ch = cm_ready (cs_mgr s))"

definition cm_inv :: "'c cm_state \<Rightarrow> bool" where
  "cm_inv s \<longleftrightarrow> mgr_inv (cs_mgr s) \<and> phase_inv s \<and> callers_inv s"

lemma mgr_inv_set:
  "mgr_inv m \<Longrightarrow> cm_conn m = None \<Longrightarrow> \<exists>m'. cmSet c m = Some m' \<and> mgr_inv m' \<and> cm_conn m' = Some c \<and>
     cm_ready m' = cm_ready m \<and> set (cm_closed m') = insert (cm_ready m) (set (cm_closed m))"
  by (auto simp: mgr_inv_def cmSet_def)

lemma mgr_inv_clear: "mgr_inv m \<Longrightarrow> mgr_inv (cmClear m)"
  by (auto simp: mgr_inv_def cmClear_def)

lemma cm_inv_init: "cm_init s \<Longrightarrow> cm_inv s"
  by (auto simp: cm_init_def cm_inv_def mgr_inv_def phase_inv_def callers_inv_def newConnManager_def cmb.delay_def)

lemma cm_inv_step:
  assumes "cm_inv s" "cm_step s e t"
  shows "cm_inv t"
  using assms(2)
proof cases
  case (dial_gives c)
  obtain m' where m: "cmSet c (cs_mgr s) = Some m'" "mgr_inv m'" "cm_conn m' = Some c"
    "cm_ready m' = cm_ready (cs_mgr s)"
    "set (cm_closed m') = insert (cm_ready (cs_mgr s)) (set (cm_closed (cs_mgr s)))"
    using mgr_inv_set [of "cs_mgr s" c] assms(1) dial_gives by (auto simp: cm_inv_def phase_inv_def)
  then show ?thesis
    using assms(1) dial_gives by (auto simp: cm_inv_def phase_inv_def callers_inv_def cmb.delay_def)
next
  case delay_over
  then have "Suc (cs_fails s - 1) = cs_fails s"
    using assms(1) by (auto simp: cm_inv_def phase_inv_def)
  then show ?thesis
    using assms(1) delay_over cmb.delay_Suc [of "cs_fails s - 1"]
    by (auto simp: cm_inv_def phase_inv_def callers_inv_def)
next
  case (sees_cancel_connected c)
  then show ?thesis
    using assms(1) mgr_inv_clear [of "cs_mgr s"]
    by (auto simp: cm_inv_def phase_inv_def callers_inv_def mgr_inv_def cmClear_def)
next
  case (conn_lost c)
  then show ?thesis
    using assms(1) mgr_inv_clear [of "cs_mgr s"]
    by (auto simp: cm_inv_def phase_inv_def callers_inv_def mgr_inv_def cmClear_def)
next
  case (look i)
  then show ?thesis
    using assms(1) by (auto simp: cm_inv_def phase_inv_def callers_inv_def split: option.splits)
qed (use assms(1) in \<open>auto simp: cm_inv_def phase_inv_def callers_inv_def split: if_splits\<close>)

interpretation cm: invariant_system cm_init cm_step cm_inv
  by unfold_locales (auto intro: cm_inv_init cm_inv_step)

section \<open>Properties\<close>

text \<open>
  C18: The connection manager in every interleaving with its callers. It never closes a channel twice
  (which would panic); the connection it offers is exactly the one \<open>Run\<close> holds; before the \<open>n\<close>th
  retry in a row it waits the lesser of \<open>2^(n-1)\<close> and 15 seconds; and no wake-up is lost: while a
  connection is offered, every caller that is blocked can go on, and then returns that connection.
\<close>

theorem conn_manager_safe:
  assumes "reach cm_init cm_step s"
  shows "cs_phase s \<noteq> Panicked \<and>
    cm_conn (cs_mgr s) = (case cs_phase s of Connected c \<Rightarrow> Some c | _ \<Rightarrow> None) \<and>
    (cs_phase s = Waiting \<longrightarrow> cs_backoff s = min (2 ^ (cs_fails s - 1) * second) (15 * second)) \<and>
    (\<forall>c i ch. cs_phase s = Connected c \<and> cs_callers s i = Some (Blocked ch) \<longrightarrow>
       (\<exists>t u. cm_step s (Wake i) t \<and> cm_step t (Look i) u \<and> cs_callers u i = Some (Got c)))"
proof -
  have inv: "mgr_inv (cs_mgr s)" "phase_inv s" "callers_inv s"
    using cm.reach_inv [OF assms] by (simp_all add: cm_inv_def)
  have "\<exists>t u. cm_step s (Wake i) t \<and> cm_step t (Look i) u \<and> cs_callers u i = Some (Got c)"
    if "cs_phase s = Connected c" "cs_callers s i = Some (Blocked ch)" for c i ch
  proof -
    have "ch \<in> set (cm_closed (cs_mgr s))" "cm_conn (cs_mgr s) = Some c"
      using inv that by (auto simp: mgr_inv_def phase_inv_def callers_inv_def)
    then show ?thesis
      using that(2) by (intro exI conjI) (auto simp: cm_step_wake cm_step_look)
  qed
  then show ?thesis
    using inv(2) cmb.delay_eq [of "cs_fails s - 1"] by (auto simp: phase_inv_def minBackoff_def maxBackoff_def)
qed

text \<open>A caller that asks before the first connection is made.\<close>

definition cmRun0 :: "nat cm_state" where
  "cmRun0 = \<lparr> cs_mgr = newConnManager, cs_phase = AtTop, cs_backoff = minBackoff, cs_fails = 0,
     cs_cancelled = False, cs_callers = Map.empty \<rparr>"

definition cmRun2 :: "nat cm_state" where
  "cmRun2 = cmRun0\<lparr>cs_callers := [0 \<mapsto> Blocked 0]\<rparr>"

definition cmRun4 :: "nat cm_state" where
  "cmRun4 = cmRun2\<lparr>cs_phase := Connected 7, cs_mgr := newConnManager\<lparr>cm_conn := Some 7, cm_closed := [0]\<rparr>\<rparr>"

lemma reach_cmRun4: "reach cm_init cm_step cmRun4"
proof -
  have "reach cm_init cm_step cmRun0"
    by (rule reach_init) (simp add: cm_init_def cmRun0_def)
  then have "reach cm_init cm_step (cmRun0\<lparr>cs_callers := [0 \<mapsto> Asking]\<rparr>)"
    using call [of cmRun0 0] by (auto intro: reach_step simp: cmRun0_def)
  moreover have "cm_step (cmRun0\<lparr>cs_callers := [0 \<mapsto> Asking]\<rparr>) (Look 0) cmRun2"
    by (simp add: cm_step_look cmRun2_def cmRun0_def newConnManager_def)
  moreover have "cm_step cmRun2 TestContext (cmRun2\<lparr>cs_phase := Dialing\<rparr>)"
    using test [of cmRun2] by (simp add: cmRun2_def cmRun0_def)
  moreover have "cm_step (cmRun2\<lparr>cs_phase := Dialing\<rparr>) (DialGives 7) cmRun4"
    using dial_gives [of "cmRun2\<lparr>cs_phase := Dialing\<rparr>" 7]
    by (simp add: cmRun4_def cmRun2_def cmRun0_def cmSet_def newConnManager_def)
  ultimately show ?thesis
    by (blast intro: reach_step)
qed

theorem conn_manager_safe_witness:
  "\<exists>t u. cm_step cmRun4 (Wake 0) t \<and> cm_step t (Look 0) u \<and> cs_callers u 0 = Some (Got 7)"
  using conn_manager_safe [OF reach_cmRun4] by (auto simp: cmRun4_def cmRun2_def)

end
