(* ===== verification/File_Store.thy ===== *)
theory File_Store
  imports Go_Strings
begin

text \<open>
  A file system as the code that replaces a file uses it: contents by path, and the operations done
  in order. A crash can happen between any two operations and in the middle of a write; a rename is
  atomic, as POSIX has it.
\<close>

type_synonym store = "string \<Rightarrow> bytes option"

datatype fs_op =
    OpCreate string
  | OpWrite string bytes
  | OpSync string
  | OpChmod string nat
  | OpRename string string
  | OpRemove string

fun opApply :: "fs_op \<Rightarrow> store \<Rightarrow> store" where
  "opApply (OpCreate p) m = m(p \<mapsto> [])"
| "opApply (OpWrite p b) m = m(p \<mapsto> (case m p of None \<Rightarrow> b | Some c \<Rightarrow> c @ b))"
| "opApply (OpSync p) m = m"
| "opApply (OpChmod p n) m = m"
| "opApply (OpRename p q) m = (if p = q then m else m(q := m p, p := None))"
| "opApply (OpRemove p) m = m(p := None)"

definition opsApply :: "fs_op list \<Rightarrow> store \<Rightarrow> store" where
  "opsApply ops m = fold opApply ops m"

text \<open>Every state a crash can leave, the finished one included.\<close>

fun crashes :: "fs_op list \<Rightarrow> store \<Rightarrow> store list" where
  "crashes [] m = [m]"
| "crashes (op # ops) m =
     m # (case op of OpWrite p b \<Rightarrow> map (\<lambda>k. opApply (OpWrite p (take k b)) m) [0..<length b] | _ \<Rightarrow> []) @
     crashes ops (opApply op m)"

lemma opsApply_simps [simp]:
  "opsApply [] m = m" "opsApply (op # ops) m = opsApply ops (opApply op m)"
  by (simp_all add: opsApply_def)

lemma opsApply_append: "opsApply (xs @ ys) m = opsApply ys (opsApply xs m)"
  by (simp add: opsApply_def)

lemma crashes_finished: "opsApply ops m \<in> set (crashes ops m)"
  by (induction ops arbitrary: m) auto

lemma crashes_append:
  "set (crashes (xs @ ys) m) = set (crashes xs m) \<union> set (crashes ys (opsApply xs m))"
proof (induction xs arbitrary: m)
  case Nil
  then show ?case by (cases ys) auto
qed auto

text \<open>Operations that leave a path alone leave it alone in every crash.\<close>

fun touches :: "string \<Rightarrow> fs_op \<Rightarrow> bool" where
  "touches p (OpCreate q) = (q = p)"
| "touches p (OpWrite q b) = (q = p)"
| "touches p (OpSync q) = False"
| "touches p (OpChmod q n) = False"
| "touches p (OpRename q r) = (q = p \<or> r = p)"
| "touches p (OpRemove q) = (q = p)"

lemma opApply_other: "\<not> touches p op \<Longrightarrow> opApply op m p = m p"
  by (cases op) auto

lemma opsApply_other: "list_all (\<lambda>op. \<not> touches p op) ops \<Longrightarrow> opsApply ops m p = m p"
  by (induction ops arbitrary: m) (simp_all add: opApply_other)

lemma crashes_other: "list_all (\<lambda>op. \<not> touches p op) ops \<Longrightarrow> m' \<in> set (crashes ops m) \<Longrightarrow> m' p = m p"
proof (induction ops arbitrary: m)
  case (Cons op ops)
  have "opApply op m p = m p"
    using Cons.prems(1) by (simp add: opApply_other)
  then show ?case
    using Cons by (cases op) (auto split: if_splits)
qed simp

end
