(* ===== verification/Config_Save.thy ===== *)
theory Config_Save
  imports File_Store
begin

text \<open>
  Writing an account change back to the config file (\<open>internal/config/save.go\<close>). JSON documents are
  trees; the text of a tree is what the parameters \<open>decode\<close> (\<open>json.Unmarshal\<close> into a map, which is
  nil for the document \<open>null\<close>) and \<open>encode\<close> (\<open>json.MarshalIndent\<close>) make of it.
\<close>

datatype json =
    JNull
  | JBool bool
  | JNum string
  | JStr string
  | JArr "json list"
  | JObj "(string, json) gomap"

type_synonym jobject = "(string, json) gomap"

text \<open>\<open>v.(map[string]any)\<close>, and an empty map when that fails.\<close>

definition objectAt :: "string \<Rightarrow> jobject \<Rightarrow> jobject" where
  "objectAt k m = (case mget m k of Some (JObj o') \<Rightarrow> o' | _ \<Rightarrow> [])"

definition saveDoc :: "string \<Rightarrow> string \<Rightarrow> jobject \<Rightarrow> jobject" where
  "saveDoc username passwordHash doc =
     (let server = objectAt ''server'' doc;
          admin = objectAt ''admin'' server;
          a1 = (if username \<noteq> [] then mput ''username'' (JStr username) admin else admin);
          a2 = (if passwordHash \<noteq> [] then mput ''password_hash'' (JStr passwordHash) a1 else a1)
      in mput ''server'' (JObj (mput ''admin'' (JObj a2) server)) doc)"

text \<open>
  What the calls give: the file, if it could be read or does not exist; the temporary file's name; the
  errors of writing, syncing, closing and renaming it.
\<close>

record save_world =
  vw_file :: "string + bytes option"
  vw_temp :: "string + string"
  vw_writeErr :: "string option"
  vw_syncErr :: "string option"
  vw_closeErr :: "string option"
  vw_renameErr :: "string option"

type_synonym jdecode = "bytes \<Rightarrow> string + jobject option"
type_synonym jencode = "jobject \<Rightarrow> string + bytes"

datatype save_result = Saved | SaveFailed string | SavePanicked

text \<open>The document to start from; nothing when the file holds \<open>null\<close>, whose map is nil.\<close>

definition loadDoc :: "jdecode \<Rightarrow> string \<Rightarrow> save_world \<Rightarrow> string + jobject option" where
  "loadDoc decode path w =
     (case vw_file w of
        Inl e \<Rightarrow> Inl e
      | Inr None \<Rightarrow> Inr (Some [])
      | Inr (Some content) \<Rightarrow>
          if content = [] then Inr (Some [])
          else (case decode content of Inl e \<Rightarrow> Inl (''parse '' @ path @ '': '' @ e) | Inr doc \<Rightarrow> Inr doc))"

text \<open>
  The new content goes to a temporary file beside the config and is renamed over it. The last element
  of every list is the deferred removal of the temporary file, which after a rename finds nothing.
  \<open>Chmod\<close>'s error is ignored.
\<close>

definition writeOut :: "string \<Rightarrow> bytes \<Rightarrow> save_world \<Rightarrow> save_result \<times> fs_op list" where
  "writeOut path out w =
     (case vw_temp w of
        Inl e \<Rightarrow> (SaveFailed e, [])
      | Inr tmp \<Rightarrow>
          (case vw_writeErr w of
             Some e \<Rightarrow> (SaveFailed e, [OpCreate tmp, OpChmod tmp 384, OpRemove tmp])
           | None \<Rightarrow>
               (case vw_syncErr w of
                  Some e \<Rightarrow> (SaveFailed e, [OpCreate tmp, OpChmod tmp 384, OpWrite tmp out, OpRemove tmp])
                | None \<Rightarrow>
                    (case vw_closeErr w of
                       Some e \<Rightarrow>
                         (SaveFailed e, [OpCreate tmp, OpChmod tmp 384, OpWrite tmp out, OpSync tmp, OpRemove tmp])
                     | None \<Rightarrow>
                         (case vw_renameErr w of
                            Some e \<Rightarrow>
                              (SaveFailed e, [OpCreate tmp, OpChmod tmp 384, OpWrite tmp out, OpSync tmp, OpRemove tmp])
                          | None \<Rightarrow>
                              (Saved, [OpCreate tmp, OpChmod tmp 384, OpWrite tmp out, OpSync tmp,
                                       OpRename tmp path, OpRemove tmp]))))))"

definition saveAdmin ::
  "jdecode \<Rightarrow> jencode \<Rightarrow> save_world \<Rightarrow> string \<Rightarrow> string \<Rightarrow> string \<Rightarrow> save_result \<times> fs_op list" where
  "saveAdmin decode encode w path username passwordHash =
     (if username = [] \<and> passwordHash = [] then (SaveFailed ''nothing to save'', [])
      else if path = [] then
        (SaveFailed ''no config file path: start the server with --config to persist account changes'', [])
      else
        (case loadDoc decode path w of
           Inl e \<Rightarrow> (SaveFailed e, [])
         | Inr None \<Rightarrow> (SavePanicked, [])
         | Inr (Some doc) \<Rightarrow>
             (case encode (saveDoc username passwordHash doc) of
                Inl e \<Rightarrow> (SaveFailed e, [])
              | Inr out \<Rightarrow> writeOut path (out @ [CHR 0x0A]) w)))"

lemmas save_defs [go_defs] = objectAt_def saveDoc_def loadDoc_def writeOut_def saveAdmin_def

section \<open>Only the account changes\<close>

lemma saveDoc_keys:
  "k \<noteq> ''server'' \<Longrightarrow> mget (saveDoc u h doc) k = mget doc k"
  "k \<noteq> ''admin'' \<Longrightarrow> mget (objectAt ''server'' (saveDoc u h doc)) k = mget (objectAt ''server'' doc) k"
  "mget (objectAt ''admin'' (objectAt ''server'' (saveDoc u h doc))) k =
     (if k = ''username'' \<and> u \<noteq> [] then Some (JStr u)
      else if k = ''password_hash'' \<and> h \<noteq> [] then Some (JStr h)
      else mget (objectAt ''admin'' (objectAt ''server'' doc)) k)"
  by (simp_all add: saveDoc_def objectAt_def Let_def)

section \<open>The write is atomic\<close>

lemma writeOut_crashes:
  assumes "writeOut path out w = (res, ops)" "vw_temp w = Inr tmp" "tmp \<noteq> path" "m' \<in> set (crashes ops m)"
    and "m tmp = None"
  shows "m' path = m path \<or> (res = Saved \<and> m' path = Some out)"
proof (cases "res = Saved")
  case True
  then have ops: "ops = [OpCreate tmp, OpChmod tmp 384, OpWrite tmp out, OpSync tmp] @ [OpRename tmp path, OpRemove tmp]"
    using assms(1,2) by (auto simp: writeOut_def split: option.splits)
  let ?pre = "[OpCreate tmp, OpChmod tmp 384, OpWrite tmp out, OpSync tmp]"
  have pre: "opsApply ?pre m = m(tmp \<mapsto> out)"
    by simp
  consider "m' \<in> set (crashes ?pre m)" | "m' \<in> set (crashes [OpRename tmp path, OpRemove tmp] (m(tmp \<mapsto> out)))"
    using assms(4) unfolding ops crashes_append pre by blast
  then show ?thesis
  proof cases
    case 1
    have "list_all (\<lambda>op. \<not> touches path op) ?pre"
      using assms(3) by simp
    then show ?thesis
      using crashes_other [OF _ 1, of path] by blast
  next
    case 2
    then show ?thesis
      using True assms(3) by auto
  qed
next
  case False
  then have "list_all (\<lambda>op. \<not> touches path op) ops"
    using assms(1-3) by (auto simp: writeOut_def split: option.splits)
  then show ?thesis
    using crashes_other assms(4) by blast
qed

lemma writeOut_saved:
  assumes "writeOut path out w = (Saved, ops)" "vw_temp w = Inr tmp" "tmp \<noteq> path" "m tmp = None"
  shows "opsApply ops m = m(path \<mapsto> out)"
proof -
  have "ops = [OpCreate tmp, OpChmod tmp 384, OpWrite tmp out, OpSync tmp, OpRename tmp path, OpRemove tmp]"
    using assms(1,2) by (auto simp: writeOut_def split: option.splits)
  then show ?thesis
    using assms(3,4) by (auto simp: fun_eq_iff)
qed

text \<open>A save that gets as far as writing had a document and its text.\<close>

lemma saveAdmin_wrote:
  "saveAdmin decode encode w path username passwordHash = (res, ops) \<Longrightarrow>
   ops = [] \<and> res \<noteq> Saved \<or> (\<exists>doc out. loadDoc decode path w = Inr (Some doc) \<and>
     encode (saveDoc username passwordHash doc) = Inr out \<and> writeOut path (out @ [CHR 0x0A]) w = (res, ops))"
  by (auto simp: saveAdmin_def split: if_splits sum.splits option.splits)

text \<open>
  C19: Saving an account change. It changes the user name and the password hash it was given, in the
  server's admin section, and leaves every other key of the document as it was read. At every point
  where the process can die, the config file has either its old content or the complete new one; when
  the save reports success it has the new one and no temporary file is left.
\<close>

theorem save_admin_atomic:
  assumes "saveAdmin decode encode w path username passwordHash = (res, ops)"
    and "vw_temp w = Inr tmp" "tmp \<noteq> path" "m tmp = None" "vw_file w = Inr (m path)"
  shows "(\<forall>m' \<in> set (crashes ops m). m' path = m path \<or>
      (\<exists>doc out. loadDoc decode path w = Inr (Some doc) \<and> encode (saveDoc username passwordHash doc) = Inr out \<and>
         m' path = Some (out @ [CHR 0x0A]))) \<and>
    (res = Saved \<longrightarrow> (\<exists>doc out. loadDoc decode path w = Inr (Some doc) \<and>
         encode (saveDoc username passwordHash doc) = Inr out \<and>
         opsApply ops m = m(path \<mapsto> out @ [CHR 0x0A]))) \<and>
    (\<forall>doc. \<forall>k. (k \<noteq> ''server'' \<longrightarrow> mget (saveDoc username passwordHash doc) k = mget doc k) \<and>
       (k \<noteq> ''admin'' \<longrightarrow> mget (objectAt ''server'' (saveDoc username passwordHash doc)) k =
          mget (objectAt ''server'' doc) k) \<and>
       mget (objectAt ''admin'' (objectAt ''server'' (saveDoc username passwordHash doc))) k =
         (if k = ''username'' \<and> username \<noteq> [] then Some (JStr username)
          else if k = ''password_hash'' \<and> passwordHash \<noteq> [] then Some (JStr passwordHash)
          else mget (objectAt ''admin'' (objectAt ''server'' doc)) k))"
proof (intro conjI)
  note wrote = saveAdmin_wrote [OF assms(1)]
  show "\<forall>m' \<in> set (crashes ops m). m' path = m path \<or>
      (\<exists>doc out. loadDoc decode path w = Inr (Some doc) \<and> encode (saveDoc username passwordHash doc) = Inr out \<and>
         m' path = Some (out @ [CHR 0x0A]))"
  proof
    fix m'
    assume m': "m' \<in> set (crashes ops m)"
    show "m' path = m path \<or>
        (\<exists>doc out. loadDoc decode path w = Inr (Some doc) \<and> encode (saveDoc username passwordHash doc) = Inr out \<and>
           m' path = Some (out @ [CHR 0x0A]))"
      using wrote m' writeOut_crashes [OF _ assms(2,3) m' assms(4)] by auto
  qed
  show "res = Saved \<longrightarrow> (\<exists>doc out. loadDoc decode path w = Inr (Some doc) \<and>
         encode (saveDoc username passwordHash doc) = Inr out \<and>
         opsApply ops m = m(path \<mapsto> out @ [CHR 0x0A]))"
    using wrote writeOut_saved [where m = m, OF _ assms(2-4)] by blast
qed (simp add: saveDoc_keys)

definition svWorld :: save_world where
  "svWorld = \<lparr> vw_file = Inr (Some ''{}''), vw_temp = Inr ''t'', vw_writeErr = None, vw_syncErr = None,
     vw_closeErr = None, vw_renameErr = None \<rparr>"

theorem save_admin_atomic_witness:
  "opsApply (snd (saveAdmin (\<lambda>b. Inr (Some [])) (\<lambda>d. Inr ''new'') svWorld ''c'' ''root'' [])) [''c'' \<mapsto> ''{}''] =
     [''c'' \<mapsto> ''new'' @ [CHR 0x0A]]"
proof -
  obtain ops where r: "saveAdmin (\<lambda>b. Inr (Some [])) (\<lambda>d. Inr ''new'') svWorld ''c'' ''root'' [] = (Saved, ops)"
    by (simp add: saveAdmin_def loadDoc_def writeOut_def svWorld_def)
  have "vw_temp svWorld = Inr ''t''" "vw_file svWorld = Inr ([''c'' \<mapsto> ''{}''] ''c'')"
    by (simp_all add: svWorld_def)
  from save_admin_atomic [where m = "[''c'' \<mapsto> ''{}'']", OF r this(1) _ _ this(2)]
  show ?thesis
    using r by auto
qed

text \<open>A config file that holds just \<open>null\<close>, which loading accepts, makes the save panic.\<close>

lemma null_config_panics:
  "decode ''null'' = Inr None \<Longrightarrow> vw_file w = Inr (Some ''null'') \<Longrightarrow> path \<noteq> [] \<Longrightarrow> username \<noteq> [] \<Longrightarrow>
   saveAdmin decode encode w path username hash = (SavePanicked, [])"
  by (simp add: saveAdmin_def loadDoc_def)

end
