(* ===== verification/Config_File.thy ===== *)
theory Config_File
  imports Config_Save Go_Text
begin

text \<open>
  The config file (\<open>internal/config/config.go\<close>): its sections, loading it, and the settings it holds
  that no section knows. The JSON text is read by parameters: \<open>parse\<close> into a \<open>Config\<close>, \<open>raw\<close> into a
  tree.
\<close>

section \<open>Sections\<close>

record admin_section =
  ad_disabled :: bool
  ad_username :: string
  ad_passwordHash :: string
  ad_sessionHours :: int
  ad_trustForwarded :: bool

record server_section =
  sn_enabled :: bool
  sn_name :: string
  sn_http :: string
  sn_udp :: string
  sn_publicUDP :: string
  sn_publicURL :: string
  sn_verbose :: bool
  sn_admin :: admin_section

record expose_section =
  ex_enabled :: bool
  ex_name :: string
  ex_server :: string
  ex_code :: string
  ex_allowDial :: bool
  ex_allow :: "string list"
  ex_allowExec :: bool
  ex_fileRoot :: string
  ex_verbose :: bool

record connect_section =
  cn_enabled :: bool
  cn_name :: string
  cn_server :: string
  cn_code :: string
  cn_forward :: "string list"
  cn_socks :: "string list"
  cn_verbose :: bool

record config =
  cf_server :: server_section
  cf_expose :: expose_section
  cf_connect :: connect_section

definition emptyConfig :: config where
  "emptyConfig =
     \<lparr> cf_server = \<lparr> sn_enabled = False, sn_name = [], sn_http = [], sn_udp = [], sn_publicUDP = [],
         sn_publicURL = [], sn_verbose = False,
         sn_admin = \<lparr> ad_disabled = False, ad_username = [], ad_passwordHash = [], ad_sessionHours = 0,
           ad_trustForwarded = False \<rparr> \<rparr>,
       cf_expose = \<lparr> ex_enabled = False, ex_name = [], ex_server = [], ex_code = [], ex_allowDial = False,
         ex_allow = [], ex_allowExec = False, ex_fileRoot = [], ex_verbose = False \<rparr>,
       cf_connect = \<lparr> cn_enabled = False, cn_name = [], cn_server = [], cn_code = [], cn_forward = [],
         cn_socks = [], cn_verbose = False \<rparr> \<rparr>"

section \<open>Unknown settings\<close>

text \<open>A struct type as the JSON names of its fields, each a struct itself or not.\<close>

datatype schema = Leaf | Struct "(string \<times> schema) list"

definition adminSchema :: schema where
  "adminSchema = Struct [(''disabled'', Leaf), (''username'', Leaf), (''password_hash'', Leaf),
     (''session_hours'', Leaf), (''trust_forwarded_headers'', Leaf)]"

definition serverSchema :: schema where
  "serverSchema = Struct [(''enabled'', Leaf), (''name'', Leaf), (''http'', Leaf), (''udp'', Leaf),
     (''public_udp'', Leaf), (''public_url'', Leaf), (''verbose'', Leaf), (''admin'', adminSchema)]"

definition exposeSchema :: schema where
  "exposeSchema = Struct [(''enabled'', Leaf), (''name'', Leaf), (''server'', Leaf), (''code'', Leaf),
     (''allow_dial'', Leaf), (''allow'', Leaf), (''allow_exec'', Leaf), (''file_root'', Leaf), (''verbose'', Leaf)]"

definition connectSchema :: schema where
  "connectSchema = Struct [(''enabled'', Leaf), (''name'', Leaf), (''server'', Leaf), (''code'', Leaf),
     (''forward'', Leaf), (''socks'', Leaf), (''verbose'', Leaf)]"

definition configSchema :: "(string \<times> schema) list" where
  "configSchema = [(''server'', serverSchema), (''expose'', exposeSchema), (''connect'', connectSchema)]"

text \<open>
  \<open>strings.EqualFold\<close>: runes are compared up to case, which is the parameter \<open>fold_of\<close>, a
  representative of each rune's case variants.
\<close>

definition equalFold :: "(nat \<Rightarrow> nat) \<Rightarrow> string \<Rightarrow> string \<Rightarrow> bool" where
  "equalFold fold_of s t \<longleftrightarrow> map fold_of (runes s) = map fold_of (runes t)"

fun fieldByJSONName :: "(nat \<Rightarrow> nat) \<Rightarrow> (string \<times> schema) list \<Rightarrow> string \<Rightarrow> schema option" where
  "fieldByJSONName F [] key = None"
| "fieldByJSONName F ((name, s) # fs) key = (if equalFold F name key then Some s else fieldByJSONName F fs key)"

function unknownFields :: "(nat \<Rightarrow> nat) \<Rightarrow> schema \<Rightarrow> json \<Rightarrow> string list" where
  "unknownFields F s v =
     (case (s, v) of
        (Struct fs, JObj m) \<Rightarrow>
          concat (map (\<lambda>(key, sub).
            (case fieldByJSONName F fs key of
               None \<Rightarrow> [key]
             | Some t \<Rightarrow> map (\<lambda>k. key @ ''.'' @ k) (unknownFields F t sub))) m)
      | _ \<Rightarrow> [])"
  by pat_completeness auto
termination
  by (relation "measure (\<lambda>(F, s, v). size v)")
    (auto dest!: size_list_estimation' [of _ _ _ "size_prod (\<lambda>_. 0) size", OF _ order_refl])

declare unknownFields.simps [simp del]

text \<open>\<open>raw\<close> gives nothing for a file that is no JSON object.\<close>

definition unknownKeys :: "(nat \<Rightarrow> nat) \<Rightarrow> (bytes \<Rightarrow> jobject option) \<Rightarrow> bytes \<Rightarrow> string list" where
  "unknownKeys F raw content =
     (case raw content of
        None \<Rightarrow> []
      | Some m \<Rightarrow> sort (unknownFields F (Struct configSchema) (JObj m)))"

section \<open>Loading\<close>

text \<open>What reading the file gives; a missing file is told apart.\<close>

datatype file_read = ReadBytes bytes | ReadMissing string | ReadFails string

definition loadConfig ::
  "(nat \<Rightarrow> nat) \<Rightarrow> (bytes \<Rightarrow> string + config) \<Rightarrow> (bytes \<Rightarrow> jobject option) \<Rightarrow> file_read \<Rightarrow> string \<Rightarrow> bool \<Rightarrow>
     (string + config) \<times> string list" where
  "loadConfig F parse raw file path explicit =
     (case file of
        ReadFails e \<Rightarrow> (Inl e, [])
      | ReadMissing e \<Rightarrow> if explicit then (Inl e, []) else (Inr emptyConfig, [])
      | ReadBytes content \<Rightarrow>
          (case parse content of
             Inl e \<Rightarrow> (Inl (''parse '' @ path @ '': '' @ e), [])
           | Inr c \<Rightarrow> (Inr c, unknownKeys F raw content)))"

section \<open>The sample\<close>

text \<open>
  The value \<open>Example\<close> builds, section by section with its fields in order; the text is what the
  parameter \<open>indent\<close> (\<open>json.MarshalIndent\<close>) makes of it, and a line end.
\<close>

definition exampleAdmin :: jobject where
  "exampleAdmin =
     [(''disabled'', JBool False), (''username'', JStr ''admin''), (''password_hash'', JStr []),
      (''session_hours'', JNum ''12''), (''trust_forwarded_headers'', JBool False)]"

definition exampleServer :: jobject where
  "exampleServer =
     [(''enabled'', JBool False), (''name'', JStr ''rendezvous''), (''http'', JStr '':7000''),
      (''udp'', JStr '':7001''), (''public_udp'', JStr ''your.host.example:7001''),
      (''public_url'', JStr ''wss://your.host.example/signal''), (''verbose'', JBool False),
      (''admin'', JObj exampleAdmin)]"

definition exampleExpose :: jobject where
  "exampleExpose =
     [(''enabled'', JBool False), (''name'', JStr ''workshop-pi''),
      (''server'', JStr ''ws://your.host.example:7000/signal''), (''code'', JStr ''your-session-code''),
      (''allow_dial'', JBool True), (''allow'', JArr [JStr ''127.0.0.1:8080'']), (''allow_exec'', JBool False),
      (''file_root'', JStr ''/srv/share''), (''verbose'', JBool False)]"

definition exampleConnect :: jobject where
  "exampleConnect =
     [(''enabled'', JBool False), (''name'', JStr ''laptop''),
      (''server'', JStr ''ws://your.host.example:7000/signal''), (''code'', JStr ''your-session-code''),
      (''forward'', JArr [JStr ''9000:127.0.0.1:8080'']), (''socks'', JArr [JStr ''1080'']),
      (''verbose'', JBool False)]"

definition exampleConfig :: jobject where
  "exampleConfig =
     [(''server'', JObj exampleServer), (''expose'', JObj exampleExpose), (''connect'', JObj exampleConnect)]"

definition exampleText :: "(jobject \<Rightarrow> bytes) \<Rightarrow> bytes" where
  "exampleText indent = indent exampleConfig @ [CHR 0x0A]"

lemmas config_defs [go_defs] =
  emptyConfig_def adminSchema_def serverSchema_def exposeSchema_def connectSchema_def configSchema_def
  equalFold_def unknownKeys_def loadConfig_def exampleAdmin_def exampleServer_def exampleExpose_def
  exampleConnect_def exampleConfig_def exampleText_def

text \<open>A key is reported exactly if it, or a field of the section it names, is not known.\<close>

lemma unknownFields_iff:
  "k \<in> set (unknownFields F (Struct fs) (JObj m)) \<longleftrightarrow>
     (\<exists>key sub. (key, sub) \<in> set m \<and>
        (case fieldByJSONName F fs key of
           None \<Rightarrow> k = key
         | Some t \<Rightarrow> \<exists>k'. k' \<in> set (unknownFields F t sub) \<and> k = key @ ''.'' @ k'))"
  by (subst unknownFields.simps) (force split: option.splits)

lemma unknownKeys_sorted: "sorted (unknownKeys F raw content)"
  by (simp add: unknownKeys_def split: option.split)

lemma equalFold_refl [simp]: "equalFold F s s"
  by (simp add: equalFold_def)

lemma fieldByJSONName_known: "(key, t) \<in> set fs \<Longrightarrow> fieldByJSONName F fs key \<noteq> None"
  by (induction F fs key rule: fieldByJSONName.induct) auto

text \<open>The sample documents every field of every section and no other, in their order.\<close>

fun schemaKeys :: "schema \<Rightarrow> string list" where
  "schemaKeys Leaf = []"
| "schemaKeys (Struct fs) = map fst fs"

lemma example_fields:
  "map fst exampleConfig = schemaKeys (Struct configSchema)"
  "map fst exampleServer = schemaKeys serverSchema"
  "map fst exampleAdmin = schemaKeys adminSchema"
  "map fst exampleExpose = schemaKeys exposeSchema"
  "map fst exampleConnect = schemaKeys connectSchema"
  by (simp_all add: exampleConfig_def exampleServer_def exampleAdmin_def exampleExpose_def exampleConnect_def
      configSchema_def serverSchema_def adminSchema_def exposeSchema_def connectSchema_def)

text \<open>A schema and a document of the same fields, each with its sort of value, no two alike up to case.\<close>

lemma fieldByJSONName_in:
  "(key, t) \<in> set fs \<Longrightarrow> distinct (map (\<lambda>(n, s). map F (runes n)) fs) \<Longrightarrow> fieldByJSONName F fs key = Some t"
  by (induction F fs key rule: fieldByJSONName.induct) (force simp: equalFold_def)+

fun fits :: "(nat \<Rightarrow> nat) \<Rightarrow> schema \<Rightarrow> json \<Rightarrow> bool" where
  "fits F Leaf v = True"
| "fits F (Struct fs) v =
     (case v of
        JObj m \<Rightarrow>
          list_all2 (\<lambda>(n, t) (k, w). n = k \<and> fits F t w) fs m \<and> distinct (map (\<lambda>(n, s). map F (runes n)) fs)
      | _ \<Rightarrow> True)"

lemma unknownFields_fits: "fits F s v \<Longrightarrow> unknownFields F s v = []"
proof (induction F s v rule: unknownFields.induct)
  case (1 F s v)
  show ?case
  proof (cases "\<exists>fs m. s = Struct fs \<and> v = JObj m")
    case True
    then obtain fs m where sv: "s = Struct fs" "v = JObj m"
      by blast
    have known: "\<exists>t. fieldByJSONName F fs key = Some t \<and> unknownFields F t sub = []" if m: "(key, sub) \<in> set m" for key sub
    proof -
      have l: "list_all2 (\<lambda>(n, t) (k, w). n = k \<and> fits F t w) fs m" "distinct (map (\<lambda>(n, s). map F (runes n)) fs)"
        using 1(2) by (simp_all add: sv)
      then obtain t where t: "(key, t) \<in> set fs" "fits F t sub"
        using m by (fastforce simp: list_all2_conv_all_nth in_set_conv_nth)
      then have f: "fieldByJSONName F fs key = Some t"
        using l(2) by (intro fieldByJSONName_in)
      then show ?thesis
        using 1(1) [OF refl sv m refl] t(2) by simp
    qed
    then show ?thesis
      by (subst unknownFields.simps) (force simp: sv)
  next
    case False
    then show ?thesis
      by (subst unknownFields.simps) (auto split: schema.split json.split)
  qed
qed

end
