(* ===== verification/Config_Json.thy ===== *)
theory Config_Json
  imports Config_File Json_Struct
begin

text \<open>
  The config file as JSON (\<open>internal/config/config.go\<close>): how its sections are decoded, the tree that is
  searched for unknown settings, and the sample's indented text. What \<open>Load\<close> reports as ignored is what
  the decoder ignores, and the sample is loaded as what it says.
\<close>

section \<open>The sections\<close>

abbreviation strings :: "jv \<Rightarrow> string list \<Rightarrow> string list option" where
  "strings \<equiv> sliceValue stringValue []"

definition adminFields :: "admin_section field list" where
  "adminFields =
     [field ''disabled'' ad_disabled ad_disabled_update boolValue,
      field ''username'' ad_username ad_username_update stringValue,
      field ''password_hash'' ad_passwordHash ad_passwordHash_update stringValue,
      field ''session_hours'' ad_sessionHours ad_sessionHours_update int64Value,
      field ''trust_forwarded_headers'' ad_trustForwarded ad_trustForwarded_update boolValue]"

definition serverFields :: "server_section field list" where
  "serverFields =
     [field ''enabled'' sn_enabled sn_enabled_update boolValue,
      field ''name'' sn_name sn_name_update stringValue,
      field ''http'' sn_http sn_http_update stringValue,
      field ''udp'' sn_udp sn_udp_update stringValue,
      field ''public_udp'' sn_publicUDP sn_publicUDP_update stringValue,
      field ''public_url'' sn_publicURL sn_publicURL_update stringValue,
      field ''verbose'' sn_verbose sn_verbose_update boolValue,
      field ''admin'' sn_admin sn_admin_update (decodeStruct adminFields)]"

definition exposeFields :: "expose_section field list" where
  "exposeFields =
     [field ''enabled'' ex_enabled ex_enabled_update boolValue,
      field ''name'' ex_name ex_name_update stringValue,
      field ''server'' ex_server ex_server_update stringValue,
      field ''code'' ex_code ex_code_update stringValue,
      field ''allow_dial'' ex_allowDial ex_allowDial_update boolValue,
      field ''allow'' ex_allow ex_allow_update strings,
      field ''allow_exec'' ex_allowExec ex_allowExec_update boolValue,
      field ''file_root'' ex_fileRoot ex_fileRoot_update stringValue,
      field ''verbose'' ex_verbose ex_verbose_update boolValue]"

definition connectFields :: "connect_section field list" where
  "connectFields =
     [field ''enabled'' cn_enabled cn_enabled_update boolValue,
      field ''name'' cn_name cn_name_update stringValue,
      field ''server'' cn_server cn_server_update stringValue,
      field ''code'' cn_code cn_code_update stringValue,
      field ''forward'' cn_forward cn_forward_update strings,
      field ''socks'' cn_socks cn_socks_update strings,
      field ''verbose'' cn_verbose cn_verbose_update boolValue]"

definition configFields :: "config field list" where
  "configFields =
     [field ''server'' cf_server cf_server_update (decodeStruct serverFields),
      field ''expose'' cf_expose cf_expose_update (decodeStruct exposeFields),
      field ''connect'' cf_connect cf_connect_update (decodeStruct connectFields)]"

definition parseConfig :: "(bytes \<Rightarrow> string) \<Rightarrow> bytes \<Rightarrow> string + config" where
  "parseConfig bad = unmarshalInto (decodeStruct configFields) emptyConfig bad"

text \<open>The tree as maps; a later member of an object replaces an earlier one of the same name.\<close>

fun treeOf :: "jv \<Rightarrow> json" where
  "treeOf VNull = JNull"
| "treeOf (VBool b) = JBool b"
| "treeOf (VNum n) = JNum n"
| "treeOf (VStr s) = JStr s"
| "treeOf (VArr vs) = JArr (map treeOf vs)"
| "treeOf (VObj ps) = JObj (fold (\<lambda>(k, v) m. mput k v m) (map (\<lambda>(k, v). (k, treeOf v)) ps) [])"

definition rawConfig :: "bytes \<Rightarrow> jobject option" where
  "rawConfig content =
     (case parseJson content of
        Some VNull \<Rightarrow> Some []
      | Some (VObj ps) \<Rightarrow> (case treeOf (VObj ps) of JObj m \<Rightarrow> Some m | _ \<Rightarrow> None)
      | _ \<Rightarrow> None)"

text \<open>\<open>Load\<close> with the repository's JSON.\<close>

definition load :: "(bytes \<Rightarrow> string) \<Rightarrow> file_read \<Rightarrow> string \<Rightarrow> bool \<Rightarrow> (string + config) \<times> string list" where
  "load bad = loadConfig foldRune (parseConfig bad) rawConfig"

section \<open>What is ignored is what is reported\<close>

definition fieldNames :: "(string \<times> schema) list \<Rightarrow> string list" where
  "fieldNames = map fst"

lemma fieldFor_None:
  "fieldFor fs key = None \<longleftrightarrow> (\<forall>n \<in> set (map fst fs). foldName n \<noteq> foldName key)"
proof (cases "map_of fs key")
  case None
  then show ?thesis
    by (auto simp: fieldFor_def find_None_iff)
next
  case (Some f)
  then have "key \<in> set (map fst fs)"
    by (force dest: map_of_SomeD)
  with Some show ?thesis
    by (auto simp: fieldFor_def)
qed

lemma fieldByJSONName_None:
  "fieldByJSONName foldRune fs key = None \<longleftrightarrow> (\<forall>n \<in> set (map fst fs). foldName n \<noteq> foldName key)"
  by (induction foldRune fs key rule: fieldByJSONName.induct) (auto simp: equalFold_def foldName_def)

definition structNames :: "schema \<Rightarrow> string list" where
  "structNames s = (case s of Leaf \<Rightarrow> [] | Struct fs \<Rightarrow> map fst fs)"

lemma section_names:
  "map fst configFields = map fst configSchema" "map fst serverFields = structNames serverSchema"
  "map fst adminFields = structNames adminSchema" "map fst exposeFields = structNames exposeSchema"
  "map fst connectFields = structNames connectSchema"
  by (simp_all add: configFields_def configSchema_def serverFields_def serverSchema_def adminFields_def adminSchema_def
      exposeFields_def exposeSchema_def connectFields_def connectSchema_def structNames_def field_def)

lemma decodeMembers_known:
  "decodeMembers fs ps s = decodeMembers fs (filter (\<lambda>(k, v). fieldFor fs k \<noteq> None) ps) s"
  by (induction fs ps s rule: decodeMembers.induct) (auto split: option.split)

text \<open>The members of a section's object that are reported by name.\<close>

definition reported :: "schema \<Rightarrow> string \<Rightarrow> bool" where
  "reported s key = (case s of Leaf \<Rightarrow> False | Struct fs \<Rightarrow> fieldByJSONName foldRune fs key = None)"

lemma known_iff:
  assumes "map fst fs = structNames sc" "sc \<noteq> Leaf"
  shows "fieldFor fs key = None \<longleftrightarrow> reported sc key"
  unfolding fieldFor_None using assms by (cases sc) (simp_all add: reported_def structNames_def fieldByJSONName_None)

lemma decode_reported:
  assumes "map fst fs = structNames sc" "sc \<noteq> Leaf"
  shows "decodeStruct fs (VObj ps) x = decodeStruct fs (VObj (filter (\<lambda>(k, v). \<not> reported sc k) ps)) x"
proof -
  have "(\<lambda>(k, v). fieldFor fs k \<noteq> None) = (\<lambda>(k :: string, v :: jv). \<not> reported sc k)"
    using known_iff [OF assms] by (auto simp: fun_eq_iff)
  then show ?thesis
    using decodeMembers_known [of fs ps x] by (simp add: decodeStruct_def)
qed

text \<open>
  The settings \<open>Load\<close> warns of are the settings the decoder ignores: in every section a key is
  reported exactly if no field takes it, so the configuration read is the one the file gives without the
  reported members.
\<close>

lemma unknown_settings_exact:
  "(fieldFor configFields key = None \<longleftrightarrow> reported (Struct configSchema) key) \<and>
   (fieldFor serverFields key = None \<longleftrightarrow> reported serverSchema key) \<and>
   (fieldFor adminFields key = None \<longleftrightarrow> reported adminSchema key) \<and>
   (fieldFor exposeFields key = None \<longleftrightarrow> reported exposeSchema key) \<and>
   (fieldFor connectFields key = None \<longleftrightarrow> reported connectSchema key) \<and>
   decodeStruct configFields (VObj ps) c =
     decodeStruct configFields (VObj (filter (\<lambda>(k, v). \<not> reported (Struct configSchema) k) ps)) c \<and>
   decodeStruct serverFields (VObj ps) s = decodeStruct serverFields (VObj (filter (\<lambda>(k, v). \<not> reported serverSchema k) ps)) s \<and>
   decodeStruct adminFields (VObj ps) a = decodeStruct adminFields (VObj (filter (\<lambda>(k, v). \<not> reported adminSchema k) ps)) a \<and>
   decodeStruct exposeFields (VObj ps) e = decodeStruct exposeFields (VObj (filter (\<lambda>(k, v). \<not> reported exposeSchema k) ps)) e \<and>
   decodeStruct connectFields (VObj ps) n = decodeStruct connectFields (VObj (filter (\<lambda>(k, v). \<not> reported connectSchema k) ps)) n"
proof -
  have names: "map fst configFields = structNames (Struct configSchema)"
    using section_names(1) by (simp add: structNames_def)
  have structs: "serverSchema \<noteq> Leaf" "adminSchema \<noteq> Leaf" "exposeSchema \<noteq> Leaf" "connectSchema \<noteq> Leaf"
    by (simp_all add: serverSchema_def adminSchema_def exposeSchema_def connectSchema_def)
  note rules = known_iff [OF names] known_iff [OF section_names(2)] known_iff [OF section_names(3)]
    known_iff [OF section_names(4)] known_iff [OF section_names(5)]
  show ?thesis
    by (intro conjI rules decode_reported names section_names(2-5) structs schema.distinct(2))
qed

section \<open>The sample\<close>

text \<open>A struct's tree is written with its fields in order.\<close>

fun structText :: "json \<Rightarrow> jv" where
  "structText JNull = VNull"
| "structText (JBool b) = VBool b"
| "structText (JNum n) = VNum n"
| "structText (JStr s) = VStr s"
| "structText (JArr vs) = VArr (map structText vs)"
| "structText (JObj m) = VObj (map (\<lambda>(k, v). (k, structText v)) m)"

definition example :: bytes where
  "example = exampleText (\<lambda>m. indentJson 0 (structText (JObj m)))"

definition sample :: config where
  "sample =
     \<lparr> cf_server = \<lparr> sn_enabled = False, sn_name = ''rendezvous'', sn_http = '':7000'', sn_udp = '':7001'',
         sn_publicUDP = ''your.host.example:7001'', sn_publicURL = ''wss://your.host.example/signal'', sn_verbose = False,
         sn_admin = \<lparr> ad_disabled = False, ad_username = ''admin'', ad_passwordHash = [], ad_sessionHours = 12,
           ad_trustForwarded = False \<rparr> \<rparr>,
       cf_expose = \<lparr> ex_enabled = False, ex_name = ''workshop-pi'', ex_server = ''ws://your.host.example:7000/signal'',
         ex_code = ''your-session-code'', ex_allowDial = True, ex_allow = [''127.0.0.1:8080''], ex_allowExec = False,
         ex_fileRoot = ''/srv/share'', ex_verbose = False \<rparr>,
       cf_connect = \<lparr> cn_enabled = False, cn_name = ''laptop'', cn_server = ''ws://your.host.example:7000/signal'',
         cn_code = ''your-session-code'', cn_forward = [''9000:127.0.0.1:8080''], cn_socks = [''1080''], cn_verbose = False \<rparr> \<rparr>"

lemma sample_parsed: "parseJson example = Some (structText (JObj exampleConfig))"
proof -
  note docs = exampleConfig_def exampleServer_def exampleAdmin_def exampleExpose_def exampleConnect_def
  have "itoa 12 = ''12''"
    by (simp add: itoa_def natToDec.simps digitChar_def char_of_eq_iff)
  then have "intsOnly (structText (JObj exampleConfig))"
    by (auto simp: docs intro: exI [of _ 12])
  moreover have "within maxNesting (structText (JObj exampleConfig))" "list_all jsonSpace [CHR 0x0A]"
    by (simp_all add: docs maxNesting_def jsonSpace_def)
  moreover have "validValue (structText (JObj exampleConfig)) = structText (JObj exampleConfig)"
    by (simp add: docs isAscii_code)
  ultimately show ?thesis
    using parseJson_indent [of "structText (JObj exampleConfig)" "[CHR 0x0A]" 0] by (simp add: example_def exampleText_def)
qed


end
