(* ===== verification/Go_Flag.thy ===== *)
theory Go_Flag
  imports Go_Net
begin

text \<open>
  Go's \<open>flag\<close> package as both programs use it: a flag set with the values of its flags and the names
  that were set, one flag read from the arguments, all of them up to the first argument that is none.
  The values are texts, booleans, lists that grow with every use, and durations.
\<close>

section \<open>Values\<close>

datatype flag_value = StrV string | BoolV bool | SliceV "string list" | DurV duration

text \<open>\<open>strconv.ParseBool\<close>.\<close>

definition parseBool :: "string \<Rightarrow> bool option" where
  "parseBool t =
     (if t \<in> {''1'', ''t'', ''T'', ''TRUE'', ''true'', ''True''} then Some True
      else if t \<in> {''0'', ''f'', ''F'', ''FALSE'', ''false'', ''False''} then Some False
      else None)"

text \<open>
  \<open>time.ParseDuration\<close>: a sign and terms of a number and a unit. The nanoseconds of a fraction are
  computed in floating point, which is a parameter: it gets the digits and the unit.
\<close>

definition durUnit :: "string \<Rightarrow> nat option" where
  "durUnit u =
     (if u = ''ns'' then Some 1
      else if u \<in> {''us'', [char_of (0xC2 :: nat), char_of (0xB5 :: nat), CHR ''s''],
                    [char_of (0xCE :: nat), char_of (0xBC :: nat), CHR ''s'']} then Some 1000
      else if u = ''ms'' then Some 1000000
      else if u = ''s'' then Some 1000000000
      else if u = ''m'' then Some 60000000000
      else if u = ''h'' then Some 3600000000000
      else None)"

definition durNumber :: "string \<Rightarrow> string \<times> string \<times> string" where
  "durNumber s =
     (let ds = takeWhile isDigit s; r = dropWhile isDigit s
      in if r \<noteq> [] \<and> hd r = CHR ''.'' then (ds, takeWhile isDigit (tl r), dropWhile isDigit (tl r)) else (ds, [], r))"

definition unitChar :: "char \<Rightarrow> bool" where
  "unitChar c \<longleftrightarrow> c \<noteq> CHR ''.'' \<and> \<not> isDigit c"

definition durTerm :: "(string \<Rightarrow> nat \<Rightarrow> nat) \<Rightarrow> string \<Rightarrow> (nat \<times> string) option" where
  "durTerm frac s =
     (let (ds, fs, r) = durNumber s; u = takeWhile unitChar r; v = decToNat ds
      in if v > 2 ^ 63 \<or> (ds = [] \<and> fs = []) \<or> u = [] then None
         else (case durUnit u of
             None \<Rightarrow> None
           | Some scale \<Rightarrow>
               if v > 2 ^ 63 div scale then None
               else let t = v * scale + (if fs = [] then 0 else frac fs scale)
                    in if t > 2 ^ 63 then None else Some (t, dropWhile unitChar r)))"

lemma durNumber_shorter: "durNumber s = (ds, fs, r) \<Longrightarrow> length r \<le> length s"
proof -
  assume a: "durNumber s = (ds, fs, r)"
  let ?r = "dropWhile isDigit s"
  have "length r \<le> length ?r"
    using a length_dropWhile_le [of isDigit "tl ?r"] by (auto simp: durNumber_def Let_def split: if_splits)
  then show ?thesis
    using length_dropWhile_le [of isDigit s] by simp
qed

lemma durTerm_shorter:
  assumes "durTerm frac s = Some (t, r)"
  shows "length r < length s"
proof -
  obtain ds fs s2 where n: "durNumber s = (ds, fs, s2)"
    using prod_cases3 by blast
  have "r = dropWhile unitChar s2" "takeWhile unitChar s2 \<noteq> []"
    using assms n by (auto simp: durTerm_def Let_def split: if_splits option.splits)
  moreover have "length s2 = length (takeWhile unitChar s2) + length (dropWhile unitChar s2)"
    by (metis length_append takeWhile_dropWhile_id)
  ultimately show ?thesis
    using durNumber_shorter [OF n] by (cases "takeWhile unitChar s2") auto
qed

text \<open>The sum is kept in 64 bits, and compared after each term.\<close>

function durTerms :: "(string \<Rightarrow> nat \<Rightarrow> nat) \<Rightarrow> nat \<Rightarrow> string \<Rightarrow> nat option" where
  "durTerms frac d s =
     (if s = [] then Some d
      else
        (case durTerm frac s of
           None \<Rightarrow> None
         | Some (t, r) \<Rightarrow> let e = (d + t) mod 2 ^ 64 in if e > 2 ^ 63 then None else durTerms frac e r))"
  by pat_completeness auto

termination
  by (relation "measure (\<lambda>(frac, d, s). length s)") (auto dest: durTerm_shorter)

declare durTerms.simps [simp del]

definition parseDuration :: "(string \<Rightarrow> nat \<Rightarrow> nat) \<Rightarrow> string \<Rightarrow> duration option" where
  "parseDuration frac s =
     (let neg = (s \<noteq> [] \<and> hd s = CHR ''-'');
          t = (if s \<noteq> [] \<and> (hd s = CHR ''-'' \<or> hd s = CHR ''+'') then tl s else s)
      in if t = ''0'' then Some 0
         else if t = [] then None
         else (case durTerms frac 0 t of
             None \<Rightarrow> None
           | Some d \<Rightarrow> if neg then Some (- int d) else if d > 2 ^ 63 - 1 then None else Some (int d)))"

text \<open>\<open>Value.Set\<close>; \<open>stringSlice.Set\<close> appends.\<close>

definition setFlag :: "(string \<Rightarrow> nat \<Rightarrow> nat) \<Rightarrow> flag_value \<Rightarrow> string \<Rightarrow> flag_value option" where
  "setFlag frac v t =
     (case v of
        StrV _ \<Rightarrow> Some (StrV t)
      | BoolV _ \<Rightarrow> map_option BoolV (parseBool t)
      | SliceV vs \<Rightarrow> Some (SliceV (vs @ [t]))
      | DurV _ \<Rightarrow> map_option DurV (parseDuration frac t))"

definition isBoolFlag :: "flag_value \<Rightarrow> bool" where
  "isBoolFlag v = (case v of BoolV _ \<Rightarrow> True | _ \<Rightarrow> False)"

section \<open>The flag set\<close>

record flagset =
  fg_formal :: "(string, flag_value) gomap"
  fg_actual :: "string list"

definition newFlags :: "(string \<times> flag_value) list \<Rightarrow> flagset" where
  "newFlags defaults = \<lparr> fg_formal = defaults, fg_actual = [] \<rparr>"

text \<open>The names \<open>Visit\<close> goes through, and the values the program reads.\<close>

definition wasSet :: "flagset \<Rightarrow> string \<Rightarrow> bool" where
  "wasSet fs name \<longleftrightarrow> name \<in> set (fg_actual fs)"

definition strOf :: "flagset \<Rightarrow> string \<Rightarrow> string" where
  "strOf fs name = (case mget (fg_formal fs) name of Some (StrV t) \<Rightarrow> t | _ \<Rightarrow> [])"

definition boolOf :: "flagset \<Rightarrow> string \<Rightarrow> bool" where
  "boolOf fs name = (case mget (fg_formal fs) name of Some (BoolV b) \<Rightarrow> b | _ \<Rightarrow> False)"

definition sliceOf :: "flagset \<Rightarrow> string \<Rightarrow> string list" where
  "sliceOf fs name = (case mget (fg_formal fs) name of Some (SliceV ts) \<Rightarrow> ts | _ \<Rightarrow> [])"

definition durOf :: "flagset \<Rightarrow> string \<Rightarrow> duration" where
  "durOf fs name = (case mget (fg_formal fs) name of Some (DurV d) \<Rightarrow> d | _ \<Rightarrow> 0)"

definition putFlag :: "string \<Rightarrow> flag_value \<Rightarrow> flagset \<Rightarrow> flagset" where
  "putFlag name v fs = fs\<lparr>fg_formal := mput name v (fg_formal fs), fg_actual := List.insert name (fg_actual fs)\<rparr>"

section \<open>Parsing\<close>

text \<open>How a program ends, and what the library's \<open>ExitOnError\<close> makes of an error.\<close>

datatype program_exit = Exit nat string

datatype flag_stop = HelpAsked | BadFlag string

definition flagExit :: "flag_stop \<Rightarrow> program_exit" where
  "flagExit e = (case e of HelpAsked \<Rightarrow> Exit 0 [] | BadFlag m \<Rightarrow> Exit 2 m)"

datatype one_flag = NoFlag "string list" | FlagStop flag_stop | OneFlag flagset "string list"

text \<open>An argument that is no flag, where parsing stops.\<close>

definition noFlag :: "string \<Rightarrow> bool" where
  "noFlag s \<longleftrightarrow> length s < 2 \<or> hd s \<noteq> CHR ''-''"

definition cutValue :: "string \<Rightarrow> string \<times> string option" where
  "cutValue s = (case indexByte (CHR ''='') s of None \<Rightarrow> (s, None) | Some i \<Rightarrow> (take i s, Some (drop (Suc i) s)))"

text \<open>\<open>quote\<close> is \<open>strconv.Quote\<close>, for the messages.\<close>

definition setNamed ::
  "(string \<Rightarrow> nat \<Rightarrow> nat) \<Rightarrow> string \<Rightarrow> string \<Rightarrow> flag_value \<Rightarrow> string \<Rightarrow> flagset \<Rightarrow> string list \<Rightarrow> one_flag" where
  "setNamed frac msg name v t fs rest =
     (case setFlag frac v t of
        None \<Rightarrow> FlagStop (BadFlag msg)
      | Some w \<Rightarrow> OneFlag (putFlag name w fs) rest)"

definition parseOne ::
  "(string \<Rightarrow> string) \<Rightarrow> (string \<Rightarrow> nat \<Rightarrow> nat) \<Rightarrow> flagset \<Rightarrow> string list \<Rightarrow> one_flag" where
  "parseOne quote frac fs args =
     (case args of
        [] \<Rightarrow> NoFlag []
      | s # rest \<Rightarrow>
          if noFlag s then NoFlag args
          else if s = ''--'' then NoFlag rest
          else
            let full = drop (if s ! 1 = CHR ''-'' then 2 else 1) s
            in if full = [] \<or> hd full = CHR ''-'' \<or> hd full = CHR ''='' then
                 FlagStop (BadFlag (''bad flag syntax: '' @ s))
               else
                 let (name, val) = cutValue full
                 in (case mget (fg_formal fs) name of
                       None \<Rightarrow>
                         if name = ''help'' \<or> name = ''h'' then FlagStop HelpAsked
                         else FlagStop (BadFlag (''flag provided but not defined: -'' @ name))
                     | Some v \<Rightarrow>
                         if isBoolFlag v then
                           (case val of
                              Some t \<Rightarrow>
                                setNamed frac (''invalid boolean value '' @ quote t @ '' for -'' @ name @ '': parse error'')
                                  name v t fs rest
                            | None \<Rightarrow>
                                setNamed frac (''invalid boolean flag '' @ name @ '': parse error'') name v ''true'' fs rest)
                         else
                           (let bad = (\<lambda>t. ''invalid value '' @ quote t @ '' for flag -'' @ name @ '': parse error'')
                            in (case val of
                                  Some t \<Rightarrow> setNamed frac (bad t) name v t fs rest
                                | None \<Rightarrow>
                                    (case rest of
                                       [] \<Rightarrow> FlagStop (BadFlag (''flag needs an argument: -'' @ name))
                                     | t # rest' \<Rightarrow> setNamed frac (bad t) name v t fs rest')))))"

lemma setNamed_OneFlag: "setNamed frac msg name v t fs rest = OneFlag fs' r \<Longrightarrow> r = rest"
  by (auto simp: setNamed_def split: option.splits)

lemma parseOne_shorter: "parseOne quote frac fs args = OneFlag fs' r \<Longrightarrow> length r < length args"
  by (auto simp: parseOne_def Let_def split: list.splits if_splits option.splits prod.splits dest!: setNamed_OneFlag)

lemma parseOne_NoFlag: "parseOne quote frac fs args = NoFlag r \<Longrightarrow> length r \<le> length args"
  by (auto simp: parseOne_def setNamed_def Let_def split: list.splits if_splits option.splits prod.splits)

function parseFlags ::
  "(string \<Rightarrow> string) \<Rightarrow> (string \<Rightarrow> nat \<Rightarrow> nat) \<Rightarrow> flagset \<Rightarrow> string list \<Rightarrow> flag_stop + flagset \<times> string list" where
  "parseFlags quote frac fs args =
     (case parseOne quote frac fs args of
        NoFlag rest \<Rightarrow> Inr (fs, rest)
      | FlagStop e \<Rightarrow> Inl e
      | OneFlag fs' rest \<Rightarrow> parseFlags quote frac fs' rest)"
  by pat_completeness auto

termination
  by (relation "measure (\<lambda>(quote, frac, fs, args). length args)") (auto dest: parseOne_shorter)

declare parseFlags.simps [simp del]

lemma parseFlags_shorter: "parseFlags quote frac fs args = Inr (fs', rest) \<Longrightarrow> length rest \<le> length args"
proof (induction quote frac fs args rule: parseFlags.induct)
  case (1 quote frac fs args)
  show ?case
  proof (cases "parseOne quote frac fs args")
    case (OneFlag fs1 r)
    then show ?thesis
      using 1 parseOne_shorter [OF OneFlag] by (fastforce simp: parseFlags.simps [of _ _ _ args])
  qed (use 1 in \<open>auto simp: parseFlags.simps [of _ _ _ args] dest: parseOne_NoFlag\<close>)
qed

section \<open>What a command line says\<close>

text \<open>
  The three ways to set a flag, each with one dash or two: \<open>--name=text\<close>, \<open>--name text\<close>, and
  \<open>--name\<close> alone for a boolean.
\<close>

datatype setting = Attached bool string string | Apart bool string string | Switch bool string

definition dashes :: "bool \<Rightarrow> string" where
  "dashes two = (if two then ''--'' else ''-'')"

fun settingText :: "setting \<Rightarrow> string list" where
  "settingText (Attached two n t) = [dashes two @ n @ CHR ''='' # t]"
| "settingText (Apart two n t) = [dashes two @ n, t]"
| "settingText (Switch two n) = [dashes two @ n]"

fun settingName :: "setting \<Rightarrow> string" where
  "settingName (Attached two n t) = n"
| "settingName (Apart two n t) = n"
| "settingName (Switch two n) = n"

text \<open>The value a setting gives to a flag that has the value \<open>v\<close>.\<close>

fun settingValue :: "(string \<Rightarrow> nat \<Rightarrow> nat) \<Rightarrow> setting \<Rightarrow> flag_value \<Rightarrow> flag_value option" where
  "settingValue frac (Attached two n t) v = setFlag frac v t"
| "settingValue frac (Apart two n t) v = (if isBoolFlag v then None else setFlag frac v t)"
| "settingValue frac (Switch two n) v = (if isBoolFlag v then Some (BoolV True) else None)"

definition applySetting :: "(string \<Rightarrow> nat \<Rightarrow> nat) \<Rightarrow> setting \<Rightarrow> flagset \<Rightarrow> flagset option" where
  "applySetting frac st fs =
     (case mget (fg_formal fs) (settingName st) of
        None \<Rightarrow> None
      | Some v \<Rightarrow> map_option (\<lambda>w. putFlag (settingName st) w fs) (settingValue frac st v))"

fun applySettings :: "(string \<Rightarrow> nat \<Rightarrow> nat) \<Rightarrow> setting list \<Rightarrow> flagset \<Rightarrow> flagset option" where
  "applySettings frac [] fs = Some fs"
| "applySettings frac (st # sts) fs =
     (case applySetting frac st fs of None \<Rightarrow> None | Some fs' \<Rightarrow> applySettings frac sts fs')"

lemma applySettings_append:
  "applySettings frac (xs @ ys) fs = (case applySettings frac xs fs of None \<Rightarrow> None | Some fs' \<Rightarrow> applySettings frac ys fs')"
  by (induction xs arbitrary: fs) (auto split: option.split)

text \<open>A name a flag can have on a command line.\<close>

definition plainFlag :: "string \<Rightarrow> bool" where
  "plainFlag n \<longleftrightarrow> n \<noteq> [] \<and> hd n \<noteq> CHR ''-'' \<and> CHR ''='' \<notin> set n"

lemma plainFlag_eq: "plainFlag n \<Longrightarrow> hd n \<noteq> CHR ''=''"
  by (cases n) (auto simp: plainFlag_def)

lemma indexByte_at: "c \<notin> set n \<Longrightarrow> indexByte c (n @ c # t) = Some (length n)"
  by (induction n) auto

lemma cutValue_plain:
  assumes "plainFlag n"
  shows "cutValue n = (n, None)" "cutValue (n @ CHR ''='' # t) = (n, Some t)"
proof -
  have e: "indexByte (CHR ''='') n = None"
    using assms by (subst indexByte_None) (simp add: plainFlag_def)
  show "cutValue n = (n, None)"
    by (simp only: cutValue_def e option.case)
  show "cutValue (n @ CHR ''='' # t) = (n, Some t)"
    using assms by (simp add: cutValue_def indexByte_at plainFlag_def)
qed

lemma dashed:
  assumes "plainFlag n"
  shows "\<not> noFlag (dashes two @ n @ t)" "dashes two @ n @ t \<noteq> ''--''"
    "drop (if (dashes two @ n @ t) ! 1 = CHR ''-'' then 2 else 1) (dashes two @ n @ t) = n @ t"
  using assms by (cases n; auto simp: plainFlag_def dashes_def noFlag_def)+

lemma parseOne_dashed:
  assumes "plainFlag n"
  shows "parseOne quote frac fs ((dashes two @ n @ t) # rest) =
     (let (name, val) = cutValue (n @ t)
      in (case mget (fg_formal fs) name of
            None \<Rightarrow>
              if name = ''help'' \<or> name = ''h'' then FlagStop HelpAsked
              else FlagStop (BadFlag (''flag provided but not defined: -'' @ name))
          | Some v \<Rightarrow>
              if isBoolFlag v then
                (case val of
                   Some t \<Rightarrow>
                     setNamed frac (''invalid boolean value '' @ quote t @ '' for -'' @ name @ '': parse error'')
                       name v t fs rest
                 | None \<Rightarrow>
                     setNamed frac (''invalid boolean flag '' @ name @ '': parse error'') name v ''true'' fs rest)
              else
                (let bad = (\<lambda>t. ''invalid value '' @ quote t @ '' for flag -'' @ name @ '': parse error'')
                 in (case val of
                       Some t \<Rightarrow> setNamed frac (bad t) name v t fs rest
                     | None \<Rightarrow>
                         (case rest of
                            [] \<Rightarrow> FlagStop (BadFlag (''flag needs an argument: -'' @ name))
                          | t # rest' \<Rightarrow> setNamed frac (bad t) name v t fs rest')))))"
proof -
  have "n @ t \<noteq> []" "hd (n @ t) \<noteq> CHR ''-''" "hd (n @ t) \<noteq> CHR ''=''"
    using assms plainFlag_eq [OF assms] by (auto simp: plainFlag_def)
  then show ?thesis
    unfolding parseOne_def list.case dashed(3) [OF assms] by (simp only: dashed(1,2) [OF assms] if_False Let_def simp_thms)
qed

lemma parseOne_setting:
  assumes "plainFlag (settingName st)" "applySetting frac st fs = Some fs'"
  shows "parseOne quote frac fs (settingText st @ rest) = OneFlag fs' rest"
proof -
  obtain v w where v: "mget (fg_formal fs) (settingName st) = Some v" "settingValue frac st v = Some w"
    and fs': "fs' = putFlag (settingName st) w fs"
    using assms(2) by (auto simp: applySetting_def split: option.splits)
  have cut: "cutValue (settingName st) = (settingName st, None)"
    "\<And>t. cutValue (settingName st @ CHR ''='' # t) = (settingName st, Some t)"
    using cutValue_plain [OF assms(1)] by simp_all
  show ?thesis
  proof (cases st)
    case (Attached two n t)
    with parseOne_dashed [OF assms(1), of quote frac fs two "CHR ''='' # t" rest] cut v show ?thesis
      by (simp add: fs' setNamed_def Let_def)
  next
    case (Apart two n t)
    with parseOne_dashed [OF assms(1), of quote frac fs two "[]" "t # rest"] cut v show ?thesis
      by (simp add: fs' setNamed_def Let_def split: if_splits)
  next
    case (Switch two n)
    moreover obtain b where "v = BoolV b"
      using v(2) Switch by (cases v) (simp_all add: isBoolFlag_def)
    ultimately show ?thesis
      using parseOne_dashed [OF assms(1), of quote frac fs two "[]" rest] cut v
      by (simp add: fs' setNamed_def setFlag_def parseBool_def isBoolFlag_def Let_def)
  qed
qed

text \<open>Settings before an argument that is none are all read, in order, and nothing else is touched.\<close>

definition stops :: "string list \<Rightarrow> bool" where
  "stops rest \<longleftrightarrow> rest = [] \<or> noFlag (hd rest)"

lemma parseFlags_stops: "stops rest \<Longrightarrow> parseFlags quote frac fs rest = Inr (fs, rest)"
  by (subst parseFlags.simps) (cases rest; auto simp: stops_def parseOne_def)

lemma parseFlags_settings:
  assumes "applySettings frac sts fs = Some fs'" "list_all (\<lambda>st. plainFlag (settingName st)) sts"
  shows "parseFlags quote frac fs (concat (map settingText sts) @ rest) = parseFlags quote frac fs' rest"
  using assms
proof (induction sts arbitrary: fs)
  case (Cons st sts)
  then obtain fs1 where one: "applySetting frac st fs = Some fs1" "applySettings frac sts fs1 = Some fs'"
    by (auto split: option.splits)
  have "parseFlags quote frac fs (settingText st @ concat (map settingText sts) @ rest) =
      parseFlags quote frac fs1 (concat (map settingText sts) @ rest)"
    using parseOne_setting [OF _ one(1)] Cons.prems(2) by (simp add: parseFlags.simps [of _ _ fs])
  then show ?case
    using Cons one(2) by simp
qed simp

text \<open>The last setting of a text flag counts, and a flag nobody set keeps its default.\<close>

lemma putFlag_sel [simp]:
  "mget (fg_formal (putFlag n v fs)) m = (if n = m then Some v else mget (fg_formal fs) m)"
  "wasSet (putFlag n v fs) m \<longleftrightarrow> m = n \<or> wasSet fs m"
  by (simp_all add: putFlag_def wasSet_def)

lemma applySettings_other:
  assumes "applySettings frac sts fs = Some fs'" "n \<notin> settingName ` set sts"
  shows "mget (fg_formal fs') n = mget (fg_formal fs) n" "wasSet fs' n = wasSet fs n"
proof -
  have "mget (fg_formal fs') n = mget (fg_formal fs) n \<and> wasSet fs' n = wasSet fs n"
    using assms
  proof (induction sts arbitrary: fs)
    case (Cons st sts)
    then obtain fs1 where one: "applySetting frac st fs = Some fs1" "applySettings frac sts fs1 = Some fs'"
      by (auto split: option.splits)
    moreover have "settingName st \<noteq> n"
      using Cons.prems(2) by auto
    ultimately show ?case
      using Cons by (auto simp: applySetting_def split: option.splits)
  qed simp
  then show "mget (fg_formal fs') n = mget (fg_formal fs) n" "wasSet fs' n = wasSet fs n"
    by blast+
qed

lemma applySettings_wasSet:
  "applySettings frac sts fs = Some fs' \<Longrightarrow> wasSet fs' n \<longleftrightarrow> n \<in> settingName ` set sts \<or> wasSet fs n"
proof (induction sts arbitrary: fs)
  case (Cons st sts)
  then obtain fs1 where "applySetting frac st fs = Some fs1" "applySettings frac sts fs1 = Some fs'"
    by (auto split: option.splits)
  with Cons.IH [of fs1] show ?case
    by (auto simp: applySetting_def split: option.splits)
qed simp

end
