(* ===== verification/Cli.thy ===== *)
theory Cli
  imports Config_Json Go_Flag Host_App Signal_Client
begin

text \<open>
  The command line (\<open>cmd/relay-tunnel/main.go\<close>): which command runs, its flags, how they and the config
  file are merged into the settings of a server, a host or a client, what a start without a subcommand
  runs, and what ends a command that runs.
\<close>

section \<open>Commands\<close>

datatype command =
    AutoMode "string list"
  | ServerCmd "string list"
  | ExposeCmd "string list"
  | ConnectCmd "string list"
  | UpdateCmd "string list"
  | ShowVersion
  | ShowExample
  | ShowUsage
  | UnknownCmd string

definition mainDispatch :: "string list \<Rightarrow> command" where
  "mainDispatch args =
     (case args of
        [] \<Rightarrow> AutoMode []
      | c # rest \<Rightarrow>
          if c = ''server'' then ServerCmd rest
          else if c = ''expose'' then ExposeCmd rest
          else if c = ''connect'' then ConnectCmd rest
          else if c \<in> {''update'', ''-update'', ''--update''} then UpdateCmd rest
          else if c \<in> {''-update-version'', ''--update-version''} then UpdateCmd (''--version'' # rest)
          else if c \<in> {''version'', ''-version'', ''--version''} then ShowVersion
          else if c \<in> {''example-config'', ''-example-config'', ''--example-config''} then ShowExample
          else if c \<in> {''-h'', ''--help'', ''help''} then ShowUsage
          else if hasPrefix c ''-'' then AutoMode args
          else UnknownCmd c)"

section \<open>Merging flags and config\<close>

type_synonym flag_set = "string \<Rightarrow> bool"

text \<open>
  What a command takes from outside: \<open>strconv.Quote\<close>, the fractions of a duration, reading a file, the
  text of a JSON error, the version of the build, and what saving the account answers for a config path.
\<close>

record cli_env =
  ce_quote :: "string \<Rightarrow> string"
  ce_frac :: "string \<Rightarrow> nat \<Rightarrow> nat"
  ce_read :: "string \<Rightarrow> file_read"
  ce_bad :: "bytes \<Rightarrow> string"
  ce_version :: string
  ce_save :: "string \<Rightarrow> string \<Rightarrow> string \<Rightarrow> string option"

definition defaultPath :: string where
  "defaultPath = ''config.json''"

text \<open>\<open>xlog.Fatalf\<close>: the message and status 1.\<close>

definition fatal :: "string \<Rightarrow> program_exit" where
  "fatal m = Exit 1 m"

text \<open>
  \<open>loadConfig\<close>: the config every command starts from, or the error it ends with; the default file may
  be missing, one that was asked for may not.
\<close>

definition mainLoadConfig :: "cli_env \<Rightarrow> flagset \<Rightarrow> program_exit + config" where
  "mainLoadConfig env fs =
     (let path = strOf fs ''config''
      in (case fst (load (ce_bad env) (ce_read env path) path (wasSet fs ''config'')) of
            Inl e \<Rightarrow> Inl (fatal (''config: '' @ e))
          | Inr cfg \<Rightarrow> Inr cfg))"

text \<open>Every command parses its flags and loads the config; what follows gets both.\<close>

definition withConfig ::
  "cli_env \<Rightarrow> flagset \<Rightarrow> string list \<Rightarrow> (flagset \<Rightarrow> string list \<Rightarrow> config \<Rightarrow> program_exit + 'r) \<Rightarrow> program_exit + 'r" where
  "withConfig env flags args k =
     (case parseFlags (ce_quote env) (ce_frac env) flags args of
        Inl e \<Rightarrow> Inl (flagExit e)
      | Inr (fs, rest) \<Rightarrow>
          (case mainLoadConfig env fs of
             Inl e \<Rightarrow> Inl e
           | Inr cfg \<Rightarrow> k fs rest cfg))"

definition pickStr :: "flag_set \<Rightarrow> string \<Rightarrow> string \<Rightarrow> string \<Rightarrow> string" where
  "pickStr isSet name flagVal cfgVal = (if isSet name \<or> cfgVal = [] then flagVal else cfgVal)"

definition pickBool :: "flag_set \<Rightarrow> string \<Rightarrow> bool \<Rightarrow> bool \<Rightarrow> bool" where
  "pickBool isSet name flagVal cfgVal = (if isSet name then flagVal else flagVal \<or> cfgVal)"

definition pickSlice :: "flag_set \<Rightarrow> string \<Rightarrow> string list \<Rightarrow> string list \<Rightarrow> string list" where
  "pickSlice isSet name flagVal cfgVal = (if isSet name \<or> cfgVal = [] then flagVal else cfgVal)"

definition orDefault :: "string \<Rightarrow> string \<Rightarrow> string" where
  "orDefault v d = (if v = [] then d else v)"

section \<open>The server\<close>

definition serverFlags :: flagset where
  "serverFlags = newFlags
     [(''config'', StrV defaultPath), (''http'', StrV '':7000''), (''udp'', StrV '':7001''), (''public-udp'', StrV []),
      (''public-url'', StrV []), (''admin'', BoolV True), (''name'', StrV []), (''v'', BoolV False)]"

text \<open>An \<open>int64\<close>, as the multiplication of a duration leaves it.\<close>

definition wrap64 :: "int \<Rightarrow> int" where
  "wrap64 i = sint (word_of_int i :: 64 word)"

text \<open>\<open>runServer\<close>: the configuration the server is made with; \<open>save\<close> stands for \<open>config.SaveAdmin\<close>.\<close>

definition runServer ::
  "string \<Rightarrow> (string \<Rightarrow> string \<Rightarrow> string \<Rightarrow> string option) \<Rightarrow>
     string \<Rightarrow> string \<Rightarrow> string \<Rightarrow> string \<Rightarrow> string \<Rightarrow> admin_section \<Rightarrow> string \<Rightarrow> server_config" where
  "runServer version save httpAddr udpAddr publicUDP publicURL name admin configPath =
     \<lparr> cf_httpAddr = httpAddr, cf_udpAddr = udpAddr, cf_name = name, cf_publicUDP = publicUDP,
       cf_publicURL = publicURL, cf_version = version,
       cf_admin = \<lparr> ac_disabled = ad_disabled admin, ac_username = ad_username admin,
         ac_passwordHash = ad_passwordHash admin,
         ac_sessionTTL = wrap64 (ad_sessionHours admin * hour),
         ac_trustForwardedHeaders = ad_trustForwarded admin \<rparr>,
       cf_saveAdmin = Some (save configPath) \<rparr>"

definition serverSettings :: "cli_env \<Rightarrow> flagset \<Rightarrow> config \<Rightarrow> server_config" where
  "serverSettings env fs cfg =
     (let sv = cf_server cfg; ad = sn_admin sv; isSet = wasSet fs
      in runServer (ce_version env) (ce_save env)
           (pickStr isSet ''http'' (strOf fs ''http'') (sn_http sv))
           (pickStr isSet ''udp'' (strOf fs ''udp'') (sn_udp sv))
           (pickStr isSet ''public-udp'' (strOf fs ''public-udp'') (sn_publicUDP sv))
           (pickStr isSet ''public-url'' (strOf fs ''public-url'') (sn_publicURL sv))
           (pickStr isSet ''name'' (strOf fs ''name'') (sn_name sv))
           (if isSet ''admin'' \<and> \<not> boolOf fs ''admin'' then ad\<lparr>ad_disabled := True\<rparr> else ad)
           (strOf fs ''config''))"

text \<open>The server's configuration and whether it logs verbosely.\<close>

definition cmdServer :: "cli_env \<Rightarrow> string list \<Rightarrow> program_exit + server_config \<times> bool" where
  "cmdServer env args =
     withConfig env serverFlags args
       (\<lambda>fs rest cfg. Inr (serverSettings env fs cfg,
          pickBool (wasSet fs) ''v'' (boolOf fs ''v'') (sn_verbose (cf_server cfg))))"

section \<open>The host\<close>

definition exposeFlags :: flagset where
  "exposeFlags = newFlags
     [(''config'', StrV defaultPath), (''server'', StrV []), (''code'', StrV []), (''allow-dial'', BoolV False),
      (''allow-exec'', BoolV False), (''file-root'', StrV []), (''allow'', SliceV []), (''name'', StrV []),
      (''v'', BoolV False)]"

text \<open>What \<open>runExpose\<close> is called with.\<close>

record expose_args =
  ea_server :: string
  ea_code :: string
  ea_name :: string
  ea_policy :: host_policy

definition exposeSettings :: "flagset \<Rightarrow> config \<Rightarrow> expose_args" where
  "exposeSettings fs cfg =
     (let ex = cf_expose cfg; isSet = wasSet fs; allowList = pickSlice isSet ''allow'' (sliceOf fs ''allow'') (ex_allow ex)
      in \<lparr> ea_server = pickStr isSet ''server'' (strOf fs ''server'') (ex_server ex),
           ea_code = pickStr isSet ''code'' (strOf fs ''code'') (ex_code ex),
           ea_name = pickStr isSet ''name'' (strOf fs ''name'') (ex_name ex),
           ea_policy =
             \<lparr> hp_allowDial = pickBool isSet ''allow-dial'' (boolOf fs ''allow-dial'') (ex_allowDial ex) \<or> allowList \<noteq> [],
               hp_allow = allowList,
               hp_allowExec = pickBool isSet ''allow-exec'' (boolOf fs ''allow-exec'') (ex_allowExec ex),
               hp_fileRoot = pickStr isSet ''file-root'' (strOf fs ''file-root'') (ex_fileRoot ex) \<rparr> \<rparr>)"

definition cmdExpose :: "cli_env \<Rightarrow> string list \<Rightarrow> program_exit + expose_args \<times> bool" where
  "cmdExpose env args =
     withConfig env exposeFlags args
       (\<lambda>fs rest cfg. Inr (exposeSettings fs cfg,
          pickBool (wasSet fs) ''v'' (boolOf fs ''v'') (ex_verbose (cf_expose cfg))))"

text \<open>\<open>newCode\<close>: ten random bytes in lower-case base 32, sixteen characters.\<close>

definition base32Char :: "nat \<Rightarrow> char" where
  "base32Char n = char_of (if n < 26 then 97 + n else 24 + n)"

fun bits5 :: "bool list \<Rightarrow> nat" where
  "bits5 [] = 0"
| "bits5 (b # bs) = (if b then 2 ^ length bs else 0) + bits5 bs"

definition byteBits :: "char \<Rightarrow> bool list" where
  "byteBits c = map (\<lambda>i. odd ((of_char c :: nat) div 2 ^ i)) [7, 6, 5, 4, 3, 2, 1, 0]"

fun chunks5 :: "bool list \<Rightarrow> bool list list" where
  "chunks5 (a # b # c # d # e # rest) = [a, b, c, d, e] # chunks5 rest"
| "chunks5 _ = []"

definition newCode :: "bytes \<Rightarrow> string" where
  "newCode random = map (base32Char \<circ> bits5) (chunks5 (concat (map byteBits random)))"

text \<open>The parameters \<open>hostOnce\<close> dials with; \<open>runExpose\<close> itself is in \<open>Sessions\<close>.\<close>

definition hostParams :: "string \<Rightarrow> string \<Rightarrow> string \<Rightarrow> dial_params" where
  "hostParams code name fp =
     \<lparr> dp_code = code, dp_role = roleHost, dp_name = name, dp_fp = fp, dp_punchTimeout = 0 \<rparr>"

section \<open>The client\<close>

definition connectFlags :: flagset where
  "connectFlags = newFlags
     [(''config'', StrV defaultPath), (''server'', StrV []), (''code'', StrV []), (''L'', SliceV []), (''D'', SliceV []),
      (''name'', StrV []), (''v'', BoolV False)]"

record connect_args =
  ca_server :: string
  ca_code :: string
  ca_name :: string
  ca_forwards :: "string list"
  ca_socks :: "string list"

datatype one_shot = GetAction string string | PutAction string string | ExecAction "string list"

datatype connect_run = OneShot one_shot | RunTunnels

definition connectSettings :: "flagset \<Rightarrow> connect_section \<Rightarrow> connect_args" where
  "connectSettings fs cc =
     (let isSet = wasSet fs
      in \<lparr> ca_server = pickStr isSet ''server'' (strOf fs ''server'') (cn_server cc),
           ca_code = pickStr isSet ''code'' (strOf fs ''code'') (cn_code cc),
           ca_name = pickStr isSet ''name'' (strOf fs ''name'') (cn_name cc),
           ca_forwards = pickSlice isSet ''L'' (sliceOf fs ''L'') (cn_forward cc),
           ca_socks = pickSlice isSet ''D'' (sliceOf fs ''D'') (cn_socks cc) \<rparr>)"

definition oneShot :: "(string \<Rightarrow> string) \<Rightarrow> string list \<Rightarrow> string + one_shot" where
  "oneShot quote rest =
     (case rest of
        [] \<Rightarrow> Inl []
      | a # as \<Rightarrow>
          if a = ''get'' then
            (case as of [r, l] \<Rightarrow> Inr (GetAction r l) | _ \<Rightarrow> Inl ''usage: get REMOTE LOCAL'')
          else if a = ''put'' then
            (case as of [l, r] \<Rightarrow> Inr (PutAction l r) | _ \<Rightarrow> Inl ''usage: put LOCAL REMOTE'')
          else if a = ''exec'' then
            (let cmd = (if as \<noteq> [] \<and> hd as = ''--'' then tl as else as)
             in if cmd = [] then Inl ''usage: exec -- CMD [ARGS...]'' else Inr (ExecAction cmd))
          else Inl (''unknown action '' @ quote a))"

text \<open>
  The usage errors of a one-shot command come after the connection was made; \<open>connErr\<close> is the error
  of making it, by rendezvous and transport.
\<close>

definition cmdConnect ::
  "cli_env \<Rightarrow> (connect_args \<Rightarrow> string option) \<Rightarrow> string list \<Rightarrow> program_exit + connect_args \<times> connect_run \<times> bool" where
  "cmdConnect env connErr args =
     withConfig env connectFlags args
       (\<lambda>fs rest cfg.
          let a = connectSettings fs (cf_connect cfg);
              verbose = pickBool (wasSet fs) ''v'' (boolOf fs ''v'') (cn_verbose (cf_connect cfg))
          in if ca_server a = [] \<or> ca_code a = [] then Inl (fatal ''--server and --code are required (flag or config)'')
             else if rest \<noteq> [] then
               (case connErr a of
                  Some e \<Rightarrow> Inl (fatal e)
                | None \<Rightarrow>
                    (case oneShot (ce_quote env) rest of
                       Inl e \<Rightarrow> Inl (fatal e)
                     | Inr act \<Rightarrow> Inr (a, OneShot act, verbose)))
             else Inr (a, RunTunnels, verbose))"

text \<open>How a one-shot command ends, given the error of its action.\<close>

definition oneShotEnd :: "one_shot \<Rightarrow> string option \<Rightarrow> program_exit" where
  "oneShotEnd act err =
     (case err of
        None \<Rightarrow> Exit 0 []
      | Some e \<Rightarrow>
          (case act of
             GetAction r l \<Rightarrow> fatal (''get: '' @ e)
           | PutAction l r \<Rightarrow> fatal (''put: '' @ e)
           | ExecAction cmd \<Rightarrow> fatal (''exec: '' @ e)))"

text \<open>\<open>runConnect\<close>: its errors before anything starts, and the parameters every reconnection dials with.\<close>

definition runConnect :: "connect_args \<Rightarrow> string + dial_params" where
  "runConnect a =
     (if ca_server a = [] \<or> ca_code a = [] then Inl ''connect: server and code are required (flag or config)''
      else if ca_forwards a = [] \<and> ca_socks a = [] then
        Inl ''connect: nothing to do (no -L forward or -D socks configured)''
      else Inr \<lparr> dp_code = ca_code a, dp_role = roleClient, dp_name = ca_name a, dp_fp = [], dp_punchTimeout = 0 \<rparr>)"

text \<open>
  The listeners it starts, and the \<open>select\<close> it then waits in: for the end of the context, or for the
  first listener that ends, with its error.
\<close>

datatype tunnel = ForwardTunnel string | SocksTunnel string

datatype tunnel_event = TunnelsCancelled | TunnelEnded tunnel "string option"

definition tunnels :: "connect_args \<Rightarrow> tunnel list" where
  "tunnels a = map ForwardTunnel (ca_forwards a) @ map SocksTunnel (ca_socks a)"

definition connectWait :: "tunnel_event list \<Rightarrow> string option option" where
  "connectWait evs =
     (case evs of
        [] \<Rightarrow> None
      | TunnelsCancelled # _ \<Rightarrow> Some None
      | TunnelEnded t err # _ \<Rightarrow> Some err)"

section \<open>Update\<close>

definition updateFlags :: flagset where
  "updateFlags = newFlags [(''version'', StrV [])]"

text \<open>The tag \<open>selfUpdate\<close> is called with, and the end of the command.\<close>

definition cmdUpdate :: "cli_env \<Rightarrow> string list \<Rightarrow> program_exit + string" where
  "cmdUpdate env args =
     (case parseFlags (ce_quote env) (ce_frac env) updateFlags args of
        Inl e \<Rightarrow> Inl (flagExit e)
      | Inr (fs, rest) \<Rightarrow> Inr (strOf fs ''version''))"

definition updateEnd :: "string option \<Rightarrow> program_exit" where
  "updateEnd err = (case err of None \<Rightarrow> Exit 0 [] | Some e \<Rightarrow> fatal (''update: '' @ e))"

section \<open>Without a subcommand\<close>

datatype auto_mode = AutoServer server_config | AutoExpose expose_args | AutoConnect connect_args

fun modeName :: "auto_mode \<Rightarrow> string" where
  "modeName (AutoServer c) = ''server''"
| "modeName (AutoExpose a) = ''expose''"
| "modeName (AutoConnect a) = ''connect''"

definition autoFlags :: flagset where
  "autoFlags = newFlags [(''config'', StrV defaultPath), (''v'', BoolV False)]"

definition autoPolicy :: "expose_section \<Rightarrow> host_policy" where
  "autoPolicy ex =
     \<lparr> hp_allowDial = ex_allowDial ex \<or> ex_allow ex \<noteq> [], hp_allow = ex_allow ex,
       hp_allowExec = ex_allowExec ex, hp_fileRoot = ex_fileRoot ex \<rparr>"

text \<open>The enabled modes in the order they are started.\<close>

definition autoModes :: "cli_env \<Rightarrow> string \<Rightarrow> config \<Rightarrow> auto_mode list" where
  "autoModes env configPath cfg =
     (let sv = cf_server cfg; ex = cf_expose cfg; cc = cf_connect cfg
      in (if sn_enabled sv then
            [AutoServer (runServer (ce_version env) (ce_save env) (orDefault (sn_http sv) '':7000'')
               (orDefault (sn_udp sv) '':7001'') (sn_publicUDP sv) (sn_publicURL sv) (sn_name sv) (sn_admin sv) configPath)]
          else []) @
         (if ex_enabled ex then
            [AutoExpose \<lparr> ea_server = ex_server ex, ea_code = ex_code ex, ea_name = ex_name ex,
                          ea_policy = autoPolicy ex \<rparr>]
          else []) @
         (if cn_enabled cc then
            [AutoConnect \<lparr> ca_server = cn_server cc, ca_code = cn_code cc, ca_name = cn_name cc,
                           ca_forwards = cn_forward cc, ca_socks = cn_socks cc \<rparr>]
          else []))"

definition autoVerbose :: "flagset \<Rightarrow> config \<Rightarrow> bool" where
  "autoVerbose fs cfg \<longleftrightarrow> boolOf fs ''v'' \<or>
     (sn_enabled (cf_server cfg) \<and> sn_verbose (cf_server cfg)) \<or>
     (ex_enabled (cf_expose cfg) \<and> ex_verbose (cf_expose cfg)) \<or>
     (cn_enabled (cf_connect cfg) \<and> cn_verbose (cf_connect cfg))"

text \<open>With no mode the program gives up with status 2.\<close>

definition cmdAuto :: "cli_env \<Rightarrow> string list \<Rightarrow> program_exit + auto_mode list \<times> bool" where
  "cmdAuto env args =
     withConfig env autoFlags args
       (\<lambda>fs rest cfg.
          let modes = autoModes env (strOf fs ''config'') cfg
          in if modes = [] then
               Inl (Exit 2 (''no subcommand given and no enabled section in '' @ strOf fs ''config''))
             else Inr (modes, autoVerbose fs cfg))"

text \<open>
  Once the modes run: a mode that ends sends its error if it has one; the program ends with the context
  or with the first error, and with status 0 in both cases. Nothing is the result while it goes on.
\<close>

datatype auto_event = AutoCancelled | ModeEnded auto_mode "string option"

fun autoWait :: "auto_event list \<Rightarrow> program_exit option" where
  "autoWait [] = None"
| "autoWait (AutoCancelled # evs) = Some (Exit 0 [])"
| "autoWait (ModeEnded m None # evs) = autoWait evs"
| "autoWait (ModeEnded m (Some e) # evs) = Some (Exit 0 (modeName m @ '': '' @ e))"

section \<open>The program\<close>

datatype program_run =
    Finished program_exit
  | Prints string
  | PrintsUsage
  | RunsServer server_config bool
  | RunsExpose expose_args bool
  | RunsConnect connect_args connect_run bool
  | RunsUpdate string
  | RunsModes "auto_mode list" bool

definition runOr :: "('r \<Rightarrow> program_run) \<Rightarrow> program_exit + 'r \<Rightarrow> program_run" where
  "runOr k r = (case r of Inl e \<Rightarrow> Finished e | Inr x \<Rightarrow> k x)"

definition programMain :: "cli_env \<Rightarrow> (connect_args \<Rightarrow> string option) \<Rightarrow> string list \<Rightarrow> program_run" where
  "programMain env connErr args =
     (case mainDispatch args of
        AutoMode rest \<Rightarrow> runOr (\<lambda>(modes, v). RunsModes modes v) (cmdAuto env rest)
      | ServerCmd rest \<Rightarrow> runOr (\<lambda>(c, v). RunsServer c v) (cmdServer env rest)
      | ExposeCmd rest \<Rightarrow> runOr (\<lambda>(a, v). RunsExpose a v) (cmdExpose env rest)
      | ConnectCmd rest \<Rightarrow> runOr (\<lambda>(a, r, v). RunsConnect a r v) (cmdConnect env connErr rest)
      | UpdateCmd rest \<Rightarrow> runOr RunsUpdate (cmdUpdate env rest)
      | ShowVersion \<Rightarrow> Prints (''relay-tunnel '' @ ce_version env @ [CHR 0x0A])
      | ShowExample \<Rightarrow> Prints example
      | ShowUsage \<Rightarrow> PrintsUsage
      | UnknownCmd c \<Rightarrow> Finished (Exit 2 (''unknown subcommand '' @ ce_quote env c)))"

lemmas flag_tables = serverFlags_def exposeFlags_def connectFlags_def autoFlags_def updateFlags_def newFlags_def

lemmas cli_defs [go_defs] =
  mainDispatch_def mainLoadConfig_def pickStr_def pickBool_def pickSlice_def orDefault_def wrap64_def
  runServer_def serverSettings_def exposeSettings_def base32Char_def byteBits_def newCode_def
  hostParams_def connectSettings_def oneShot_def runConnect_def autoPolicy_def

section \<open>Properties\<close>

lemma chunks5_length: "length (chunks5 bs) = length bs div 5"
  by (induction bs rule: chunks5.induct) auto

lemma length_newCode: "length random = 10 \<Longrightarrow> length (newCode random) = 16"
  by (simp add: newCode_def chunks5_length length_concat comp_def byteBits_def sum_list_triv)

end
