(* ===== verification/Cli_Props.thy ===== *)
theory Cli_Props
  imports Cli
begin

text \<open>
  What holds of the command line from its first argument on: which value every setting gets, and that a
  start from the config file alone runs the enabled sections as their subcommands would.
\<close>

section \<open>The values of flags\<close>

text \<open>The texts and the booleans a list of settings gives to a flag, in order.\<close>

fun textOf :: "setting \<Rightarrow> string option" where
  "textOf (Attached two n t) = Some t"
| "textOf (Apart two n t) = Some t"
| "textOf (Switch two n) = None"

fun truthOf :: "setting \<Rightarrow> bool option" where
  "truthOf (Attached two n t) = parseBool t"
| "truthOf (Apart two n t) = None"
| "truthOf (Switch two n) = Some True"

definition givenTexts :: "string \<Rightarrow> setting list \<Rightarrow> string list" where
  "givenTexts n sts = List.map_filter textOf (filter (\<lambda>st. settingName st = n) sts)"

definition givenBools :: "string \<Rightarrow> setting list \<Rightarrow> bool list" where
  "givenBools n sts = List.map_filter truthOf (filter (\<lambda>st. settingName st = n) sts)"

lemma given_simps [simp]:
  "givenTexts n [] = []" "givenBools n [] = []"
  "givenTexts n (st # sts) =
     (if settingName st = n then (case textOf st of None \<Rightarrow> [] | Some t \<Rightarrow> [t]) else []) @ givenTexts n sts"
  "givenBools n (st # sts) =
     (if settingName st = n then (case truthOf st of None \<Rightarrow> [] | Some b \<Rightarrow> [b]) else []) @ givenBools n sts"
  by (simp_all add: givenTexts_def givenBools_def map_filter_simps split: option.split)

definition lastOr :: "'a \<Rightarrow> 'a list \<Rightarrow> 'a" where
  "lastOr d xs = (if xs = [] then d else last xs)"

lemma lastOr_simps [simp]: "lastOr d [] = d" "lastOr d (x # xs) = lastOr x xs"
  by (simp_all add: lastOr_def)

lemma applySettings_step:
  assumes "applySettings frac (st # sts) fs = Some fs'"
  obtains v w where "mget (fg_formal fs) (settingName st) = Some v" "settingValue frac st v = Some w"
    "applySettings frac sts (putFlag (settingName st) w fs) = Some fs'"
  using assms by (auto simp: applySetting_def split: option.splits)

lemma settingValue_StrV: "settingValue frac st (StrV t) = Some w \<longleftrightarrow> (\<exists>u. textOf st = Some u \<and> w = StrV u)"
  by (cases st) (auto simp: setFlag_def isBoolFlag_def)

lemma settingValue_SliceV:
  "settingValue frac st (SliceV ts) = Some w \<longleftrightarrow> (\<exists>u. textOf st = Some u \<and> w = SliceV (ts @ [u]))"
  by (cases st) (auto simp: setFlag_def isBoolFlag_def)

lemma settingValue_BoolV: "settingValue frac st (BoolV b) = Some w \<longleftrightarrow> (\<exists>c. truthOf st = Some c \<and> w = BoolV c)"
  by (cases st) (auto simp: setFlag_def isBoolFlag_def)

lemma text_flag:
  "applySettings frac sts fs = Some fs' \<Longrightarrow> mget (fg_formal fs) n = Some (StrV d) \<Longrightarrow>
   mget (fg_formal fs') n = Some (StrV (lastOr d (givenTexts n sts))) \<and>
   (n \<in> settingName ` set sts \<longleftrightarrow> givenTexts n sts \<noteq> [])"
proof (induction sts arbitrary: fs d)
  case (Cons st sts)
  from Cons.prems(1) obtain v w where s: "mget (fg_formal fs) (settingName st) = Some v"
    "settingValue frac st v = Some w" "applySettings frac sts (putFlag (settingName st) w fs) = Some fs'"
    by (rule applySettings_step)
  show ?case
  proof (cases "settingName st = n")
    case True
    then obtain u where "textOf st = Some u" "w = StrV u"
      using s(1,2) Cons.prems(2) by (auto simp: settingValue_StrV)
    then show ?thesis
      using Cons.IH [OF s(3)] True by simp
  next
    case False
    then show ?thesis
      using Cons.IH [OF s(3), of d] Cons.prems(2) by (auto simp: image_iff)
  qed
qed simp

lemma slice_flag:
  "applySettings frac sts fs = Some fs' \<Longrightarrow> mget (fg_formal fs) n = Some (SliceV ts) \<Longrightarrow>
   mget (fg_formal fs') n = Some (SliceV (ts @ givenTexts n sts)) \<and>
   (n \<in> settingName ` set sts \<longleftrightarrow> givenTexts n sts \<noteq> [])"
proof (induction sts arbitrary: fs ts)
  case (Cons st sts)
  from Cons.prems(1) obtain v w where s: "mget (fg_formal fs) (settingName st) = Some v"
    "settingValue frac st v = Some w" "applySettings frac sts (putFlag (settingName st) w fs) = Some fs'"
    by (rule applySettings_step)
  show ?case
  proof (cases "settingName st = n")
    case True
    then obtain u where "textOf st = Some u" "w = SliceV (ts @ [u])"
      using s(1,2) Cons.prems(2) by (auto simp: settingValue_SliceV)
    then show ?thesis
      using Cons.IH [OF s(3)] True by simp
  next
    case False
    then show ?thesis
      using Cons.IH [OF s(3), of ts] Cons.prems(2) by (auto simp: image_iff)
  qed
qed simp

lemma bool_flag:
  "applySettings frac sts fs = Some fs' \<Longrightarrow> mget (fg_formal fs) n = Some (BoolV d) \<Longrightarrow>
   mget (fg_formal fs') n = Some (BoolV (lastOr d (givenBools n sts))) \<and>
   (n \<in> settingName ` set sts \<longleftrightarrow> givenBools n sts \<noteq> [])"
proof (induction sts arbitrary: fs d)
  case (Cons st sts)
  from Cons.prems(1) obtain v w where s: "mget (fg_formal fs) (settingName st) = Some v"
    "settingValue frac st v = Some w" "applySettings frac sts (putFlag (settingName st) w fs) = Some fs'"
    by (rule applySettings_step)
  show ?case
  proof (cases "settingName st = n")
    case True
    then obtain c where "truthOf st = Some c" "w = BoolV c"
      using s(1,2) Cons.prems(2) by (auto simp: settingValue_BoolV)
    then show ?thesis
      using Cons.IH [OF s(3)] True by simp
  next
    case False
    then show ?thesis
      using Cons.IH [OF s(3), of d] Cons.prems(2) by (auto simp: image_iff)
  qed
qed simp

text \<open>Settings that apply name flags of the set; where those are plain, so are the settings.\<close>

lemma applySettings_known:
  "applySettings frac sts fs = Some fs' \<Longrightarrow> st \<in> set sts \<Longrightarrow> settingName st \<in> fst ` set (fg_formal fs)"
proof (induction sts arbitrary: fs)
  case (Cons a sts)
  from Cons.prems(1) obtain v w where s: "mget (fg_formal fs) (settingName a) = Some v"
    "settingValue frac a v = Some w" "applySettings frac sts (putFlag (settingName a) w fs) = Some fs'"
    by (rule applySettings_step)
  have a: "settingName a \<in> fst ` set (fg_formal fs)"
    using map_of_SomeD [OF s(1) [unfolded mget_def]] by force
  moreover have "fst ` set (fg_formal (putFlag (settingName a) w fs)) = fst ` set (fg_formal fs)"
    using a by (simp add: putFlag_def mput_def dom_update insert_absorb)
  ultimately show ?case
    using Cons.IH [OF s(3)] Cons.prems(2) by auto
qed simp

lemma flags_read:
  assumes "applySettings frac sts fs = Some fs'" "list_all (\<lambda>(n, v). plainFlag n) (fg_formal fs)" "stops rest"
  shows "parseFlags quote frac fs (concat (map settingText sts) @ rest) = Inr (fs', rest)"
proof -
  have "list_all (\<lambda>st. plainFlag (settingName st)) sts"
    using applySettings_known [OF assms(1)] assms(2) by (force simp: list_all_iff)
  then show ?thesis
    using parseFlags_settings [OF assms(1)] parseFlags_stops [OF assms(3)] by metis
qed

lemma flags_plain:
  "list_all (\<lambda>(n, v). plainFlag n) (fg_formal serverFlags)"
  "list_all (\<lambda>(n, v). plainFlag n) (fg_formal exposeFlags)"
  "list_all (\<lambda>(n, v). plainFlag n) (fg_formal connectFlags)"
  "list_all (\<lambda>(n, v). plainFlag n) (fg_formal autoFlags)"
  "list_all (\<lambda>(n, v). plainFlag n) (fg_formal updateFlags)"
  by (simp_all add: flag_tables plainFlag_def)

section \<open>Which value counts\<close>

text \<open>A setting's value: the last one on the command line, else the config's if it has one, else the default.\<close>

definition chosen :: "string list \<Rightarrow> string \<Rightarrow> string \<Rightarrow> string" where
  "chosen given conf d = (if given \<noteq> [] then last given else if conf \<noteq> [] then conf else d)"

definition chosenAll :: "string list \<Rightarrow> string list \<Rightarrow> string list" where
  "chosenAll given conf = (if given \<noteq> [] then given else conf)"

definition chosenBool :: "bool list \<Rightarrow> bool \<Rightarrow> bool" where
  "chosenBool given conf = (if given \<noteq> [] then last given else conf)"

lemma newFlags_unset [simp]: "\<not> wasSet (newFlags ds) n" "fg_formal (newFlags ds) = ds"
  by (simp_all add: newFlags_def wasSet_def)

lemma picks:
  assumes "applySettings frac sts (newFlags ds) = Some fs"
  shows "mget ds n = Some (StrV d) \<Longrightarrow> pickStr (wasSet fs) n (strOf fs n) conf = chosen (givenTexts n sts) conf d"
    and "mget ds n = Some (StrV d) \<Longrightarrow> strOf fs n = lastOr d (givenTexts n sts)"
    and "mget ds n = Some (SliceV []) \<Longrightarrow>
           pickSlice (wasSet fs) n (sliceOf fs n) confs = chosenAll (givenTexts n sts) confs"
    and "mget ds n = Some (BoolV False) \<Longrightarrow>
           pickBool (wasSet fs) n (boolOf fs n) b = chosenBool (givenBools n sts) b"
    and "mget ds n = Some (BoolV b0) \<Longrightarrow> boolOf fs n = lastOr b0 (givenBools n sts)"
    and "mget ds n = Some (StrV d) \<Longrightarrow> wasSet fs n \<longleftrightarrow> givenTexts n sts \<noteq> []"
    and "mget ds n = Some (BoolV b0) \<Longrightarrow> wasSet fs n \<longleftrightarrow> givenBools n sts \<noteq> []"
  using text_flag [OF assms, of n] slice_flag [OF assms, of n] bool_flag [OF assms, of n]
    applySettings_wasSet [OF assms, of n]
  by (auto simp: pickStr_def pickSlice_def pickBool_def strOf_def sliceOf_def boolOf_def chosen_def chosenAll_def
      chosenBool_def lastOr_def)

lemma withConfig_settings:
  assumes "applySettings (ce_frac env) sts (newFlags ds) = Some fs"
    and "list_all (\<lambda>(n, v). plainFlag n) ds" "stops rest" "mget ds ''config'' = Some (StrV defaultPath)"
    and "path = lastOr defaultPath (givenTexts ''config'' sts)"
    and "fst (load (ce_bad env) (ce_read env path) path (givenTexts ''config'' sts \<noteq> [])) = Inr cfg"
  shows "withConfig env (newFlags ds) (concat (map settingText sts) @ rest) k = k fs rest cfg"
  using flags_read [OF assms(1) _ assms(3)] assms(2,5,6) picks(2,6) [OF assms(1,4)]
  by (simp add: withConfig_def mainLoadConfig_def)

lemma table_lookup:
  "mget ((n, v) # ds) m = (if n = m then Some v else mget ds m)" "mget [] m = None"
  by (simp_all add: mget_def)

lemma dispatch_modes:
  "mainDispatch (''server'' # as) = ServerCmd as" "mainDispatch (''expose'' # as) = ExposeCmd as"
  "mainDispatch (''connect'' # as) = ConnectCmd as"
  by (simp_all add: mainDispatch_def)


definition cliEnv :: cli_env where
  "cliEnv = \<lparr> ce_quote = (\<lambda>t. t), ce_frac = (\<lambda>ds scale. 0), ce_read = (\<lambda>p. ReadMissing ''no such file''), ce_bad = (\<lambda>t. []),
     ce_version = ''dev'', ce_save = (\<lambda>p u h. None) \<rparr>"


text \<open>The same for the host: a list is all values given, in order, or else the config's.\<close>

lemma expose_flags_beat_config:
  assumes "applySettings (ce_frac env) sts exposeFlags = Some fs" "stops rest"
    and "path = lastOr ''config.json'' (givenTexts ''config'' sts)"
    and "fst (load (ce_bad env) (ce_read env path) path (givenTexts ''config'' sts \<noteq> [])) = Inr cfg"
  shows "\<exists>a. programMain env connErr (''expose'' # concat (map settingText sts) @ rest) =
      RunsExpose a (chosenBool (givenBools ''v'' sts) (ex_verbose (cf_expose cfg))) \<and>
    ea_server a = chosen (givenTexts ''server'' sts) (ex_server (cf_expose cfg)) [] \<and>
    ea_code a = chosen (givenTexts ''code'' sts) (ex_code (cf_expose cfg)) [] \<and>
    ea_name a = chosen (givenTexts ''name'' sts) (ex_name (cf_expose cfg)) [] \<and>
    hp_allow (ea_policy a) = chosenAll (givenTexts ''allow'' sts) (ex_allow (cf_expose cfg)) \<and>
    hp_allowDial (ea_policy a) =
      (chosenBool (givenBools ''allow-dial'' sts) (ex_allowDial (cf_expose cfg)) \<or> hp_allow (ea_policy a) \<noteq> []) \<and>
    hp_allowExec (ea_policy a) = chosenBool (givenBools ''allow-exec'' sts) (ex_allowExec (cf_expose cfg)) \<and>
    hp_fileRoot (ea_policy a) = chosen (givenTexts ''file-root'' sts) (ex_fileRoot (cf_expose cfg)) []"
proof -
  note tab = exposeFlags_def table_lookup defaultPath_def
  obtain ds where ds: "exposeFlags = newFlags ds" "list_all (\<lambda>(n, v). plainFlag n) ds"
    "mget ds ''config'' = Some (StrV defaultPath)" "mget ds ''server'' = Some (StrV [])"
    "mget ds ''code'' = Some (StrV [])" "mget ds ''name'' = Some (StrV [])" "mget ds ''allow'' = Some (SliceV [])"
    "mget ds ''allow-dial'' = Some (BoolV False)" "mget ds ''allow-exec'' = Some (BoolV False)"
    "mget ds ''file-root'' = Some (StrV [])" "mget ds ''v'' = Some (BoolV False)"
    using flags_plain(2) by (auto simp: tab)
  note app = assms(1) [unfolded ds(1)]
  note pick = picks [OF app]
  have path: "path = lastOr defaultPath (givenTexts ''config'' sts)"
    by (simp add: assms(3) defaultPath_def)
  have "cmdExpose env (concat (map settingText sts) @ rest) =
      Inr (exposeSettings fs cfg, chosenBool (givenBools ''v'' sts) (ex_verbose (cf_expose cfg)))"
    unfolding cmdExpose_def ds(1) withConfig_settings [OF app ds(2) assms(2) ds(3) path assms(4)] pick(4) [OF ds(11)] ..
  then show ?thesis
    unfolding programMain_def dispatch_modes
    by (simp add: runOr_def exposeSettings_def Let_def pick(1) [OF ds(4)] pick(1) [OF ds(5)]
        pick(1) [OF ds(6)] pick(3) [OF ds(7)] pick(4) [OF ds(8)] pick(4) [OF ds(9)] pick(1) [OF ds(10)])
qed

section \<open>Without a subcommand\<close>

lemma parse_config_flag:
  assumes "list_all (\<lambda>(n, v). plainFlag n) ds" "mget ds ''config'' = Some (StrV d)"
  shows "parseFlags quote frac (newFlags ds) [''--config'', path] = Inr (putFlag ''config'' (StrV path) (newFlags ds), [])"
    and "parseFlags quote frac (newFlags ds) [] = Inr (newFlags ds, [])"
proof -
  have "applySettings frac [Apart True ''config'' path] (newFlags ds) = Some (putFlag ''config'' (StrV path) (newFlags ds))"
    using assms(2) by (simp add: applySetting_def setFlag_def isBoolFlag_def)
  from flags_read [OF this, of "[]" quote] assms(1)
  show "parseFlags quote frac (newFlags ds) [''--config'', path] = Inr (putFlag ''config'' (StrV path) (newFlags ds), [])"
    by (simp add: dashes_def stops_def)
  show "parseFlags quote frac (newFlags ds) [] = Inr (newFlags ds, [])"
    by (rule parseFlags_stops) (simp add: stops_def)
qed

text \<open>The flags after such a start: nothing is set but perhaps \<open>--config\<close>.\<close>

definition configured :: "string list \<Rightarrow> string \<Rightarrow> flagset \<Rightarrow> flagset" where
  "configured args path fs = (if args = [] then fs else putFlag ''config'' (StrV path) fs)"

lemma configured_sel:
  assumes "n \<noteq> ''config''"
  shows "\<not> wasSet (configured args path (newFlags ds)) n"
    and "mget (fg_formal (configured args path (newFlags ds))) n = mget ds n"
  using assms by (simp_all add: configured_def)

lemma withConfig_configured:
  assumes "args = [] \<and> path = defaultPath \<or> args = [''--config'', path]"
    and "list_all (\<lambda>(n, v). plainFlag n) ds" "mget ds ''config'' = Some (StrV defaultPath)"
  shows "withConfig env (newFlags ds) args k =
     (case fst (load (ce_bad env) (ce_read env path) path (args \<noteq> [])) of
        Inl e \<Rightarrow> Inl (fatal (''config: '' @ e))
      | Inr cfg \<Rightarrow> k (configured args path (newFlags ds)) [] cfg)"
    and "strOf (configured args path (newFlags ds)) ''config'' = path"
  using assms(1) parse_config_flag [OF assms(2,3)] assms(3)
  by (auto simp: withConfig_def mainLoadConfig_def configured_def strOf_def split: sum.split)

lemma withConfig_start:
  assumes "args = [] \<and> path = defaultPath \<or> args = [''--config'', path]"
    and "fst (load (ce_bad env) (ce_read env path) path (args \<noteq> [])) = Inr cfg"
    and "flags = newFlags ds" "list_all (\<lambda>(n, v). plainFlag n) ds" "mget ds ''config'' = Some (StrV defaultPath)"
  shows "withConfig env flags args k = k (configured args path flags) [] cfg"
  unfolding assms(3) withConfig_configured(1) [OF assms(1,4,5)] assms(2) by simp

lemma withConfig_fails:
  assumes "args = [] \<and> path = defaultPath \<or> args = [''--config'', path]"
    and "fst (load (ce_bad env) (ce_read env path) path (args \<noteq> [])) = Inl e"
    and "flags \<in> {serverFlags, exposeFlags, connectFlags, autoFlags}"
  shows "withConfig env flags args k = Inl (fatal (''config: '' @ e))"
proof -
  have ds: "flags = newFlags (fg_formal flags)" "list_all (\<lambda>(n, v). plainFlag n) (fg_formal flags)"
    "mget (fg_formal flags) ''config'' = Some (StrV defaultPath)"
    using assms(3) by (auto simp: flag_tables table_lookup plainFlag_def)
  show ?thesis
    using withConfig_configured(1) [OF assms(1) ds(2,3), of env k, folded ds(1)] assms(2) by simp
qed

text \<open>What merging comes to when only \<open>--config\<close> may be set.\<close>

lemma configured_text:
  assumes "n \<noteq> ''config''" "mget ds n = Some (StrV d)"
  shows "pickStr (wasSet (configured args path (newFlags ds))) n (strOf (configured args path (newFlags ds)) n) conf =
     (if conf = [] then d else conf)"
  using configured_sel [OF assms(1), of args path ds] assms(2) by (simp add: pickStr_def strOf_def)

lemma configured_list:
  assumes "n \<noteq> ''config''" "mget ds n = Some (SliceV [])"
  shows "pickSlice (wasSet (configured args path (newFlags ds))) n (sliceOf (configured args path (newFlags ds)) n) conf = conf"
  using configured_sel [OF assms(1), of args path ds] assms(2) by (simp add: pickSlice_def sliceOf_def)

lemma configured_truth:
  assumes "n \<noteq> ''config''" "mget ds n = Some (BoolV False)"
  shows "pickBool (wasSet (configured args path (newFlags ds))) n (boolOf (configured args path (newFlags ds)) n) conf = conf"
  using configured_sel [OF assms(1), of args path ds] assms(2) by (simp_all add: pickBool_def boolOf_def)

text \<open>The server a config starts.\<close>

definition serverOf :: "cli_env \<Rightarrow> string \<Rightarrow> config \<Rightarrow> server_config" where
  "serverOf env path cfg =
     runServer (ce_version env) (ce_save env) (orDefault (sn_http (cf_server cfg)) '':7000'')
       (orDefault (sn_udp (cf_server cfg)) '':7001'') (sn_publicUDP (cf_server cfg)) (sn_publicURL (cf_server cfg))
       (sn_name (cf_server cfg)) (sn_admin (cf_server cfg)) path"

lemma start_server:
  assumes "args = [] \<and> path = defaultPath \<or> args = [''--config'', path]"
    and "fst (load (ce_bad env) (ce_read env path) path (args \<noteq> [])) = Inr cfg"
  shows "cmdServer env args = Inr (serverOf env path cfg, sn_verbose (cf_server cfg))"
proof -
  obtain ds where ds: "serverFlags = newFlags ds" "list_all (\<lambda>(n, v). plainFlag n) ds"
    "mget ds ''config'' = Some (StrV defaultPath)" "mget ds ''http'' = Some (StrV '':7000'')"
    "mget ds ''udp'' = Some (StrV '':7001'')" "mget ds ''public-udp'' = Some (StrV [])"
    "mget ds ''public-url'' = Some (StrV [])" "mget ds ''name'' = Some (StrV [])" "mget ds ''v'' = Some (BoolV False)"
    using flags_plain(1) by (auto simp: serverFlags_def table_lookup defaultPath_def)
  have "\<not> wasSet (configured args path (newFlags ds)) ''admin''"
    by (rule configured_sel) simp
  then show ?thesis
    unfolding cmdServer_def withConfig_start [OF assms ds(1-3)]
    using withConfig_configured(2) [OF assms(1) ds(2,3)]
    by (simp add: ds(1) serverSettings_def Let_def configured_text [OF _ ds(4)] configured_text [OF _ ds(5)]
        configured_text [OF _ ds(6)] configured_text [OF _ ds(7)] configured_text [OF _ ds(8)]
        configured_truth [OF _ ds(9)] orDefault_def serverOf_def)
qed

lemma start_expose:
  assumes "args = [] \<and> path = defaultPath \<or> args = [''--config'', path]"
    and "fst (load (ce_bad env) (ce_read env path) path (args \<noteq> [])) = Inr cfg"
  shows "cmdExpose env args =
     Inr (\<lparr> ea_server = ex_server (cf_expose cfg), ea_code = ex_code (cf_expose cfg), ea_name = ex_name (cf_expose cfg),
            ea_policy = autoPolicy (cf_expose cfg) \<rparr>, ex_verbose (cf_expose cfg))"
proof -
  obtain ds where ds: "exposeFlags = newFlags ds" "list_all (\<lambda>(n, v). plainFlag n) ds"
    "mget ds ''config'' = Some (StrV defaultPath)" "mget ds ''server'' = Some (StrV [])"
    "mget ds ''code'' = Some (StrV [])" "mget ds ''name'' = Some (StrV [])" "mget ds ''allow'' = Some (SliceV [])"
    "mget ds ''allow-dial'' = Some (BoolV False)" "mget ds ''allow-exec'' = Some (BoolV False)"
    "mget ds ''file-root'' = Some (StrV [])" "mget ds ''v'' = Some (BoolV False)"
    using flags_plain(2) by (auto simp: exposeFlags_def table_lookup defaultPath_def)
  show ?thesis
    unfolding cmdExpose_def withConfig_start [OF assms ds(1-3)]
    by (simp add: ds(1) exposeSettings_def autoPolicy_def Let_def configured_text [OF _ ds(4)] configured_text [OF _ ds(5)]
        configured_text [OF _ ds(6)] configured_list [OF _ ds(7)] configured_truth [OF _ ds(8)]
        configured_truth [OF _ ds(9)] configured_text [OF _ ds(10)] configured_truth [OF _ ds(11)])
qed

lemma start_connect:
  assumes "args = [] \<and> path = defaultPath \<or> args = [''--config'', path]"
    and "fst (load (ce_bad env) (ce_read env path) path (args \<noteq> [])) = Inr cfg"
  shows "cmdConnect env connErr args =
     (let cc = cf_connect cfg
      in if cn_server cc = [] \<or> cn_code cc = [] then Inl (fatal ''--server and --code are required (flag or config)'')
         else Inr (\<lparr> ca_server = cn_server cc, ca_code = cn_code cc, ca_name = cn_name cc,
                     ca_forwards = cn_forward cc, ca_socks = cn_socks cc \<rparr>, RunTunnels, cn_verbose cc))"
proof -
  obtain ds where ds: "connectFlags = newFlags ds" "list_all (\<lambda>(n, v). plainFlag n) ds"
    "mget ds ''config'' = Some (StrV defaultPath)" "mget ds ''server'' = Some (StrV [])"
    "mget ds ''code'' = Some (StrV [])" "mget ds ''name'' = Some (StrV [])" "mget ds ''L'' = Some (SliceV [])"
    "mget ds ''D'' = Some (SliceV [])" "mget ds ''v'' = Some (BoolV False)"
    using flags_plain(3) by (auto simp: connectFlags_def table_lookup defaultPath_def)
  show ?thesis
    unfolding cmdConnect_def withConfig_start [OF assms ds(1-3)]
    by (simp add: ds(1) connectSettings_def Let_def configured_text [OF _ ds(4)] configured_text [OF _ ds(5)]
        configured_text [OF _ ds(6)] configured_list [OF _ ds(7)] configured_list [OF _ ds(8)] configured_truth [OF _ ds(9)])
qed

text \<open>The modes of a start from the config, made of what the subcommands run.\<close>

lemma start_modes:
  assumes "args = [] \<and> path = defaultPath \<or> args = [''--config'', path]"
    and "fst (load (ce_bad env) (ce_read env path) path (args \<noteq> [])) = Inr cfg"
  shows "programMain env connErr args =
    (let modes = autoModes env path cfg
     in if modes = [] then Finished (Exit 2 (''no subcommand given and no enabled section in '' @ path))
        else RunsModes modes
          (sn_enabled (cf_server cfg) \<and> sn_verbose (cf_server cfg) \<or> ex_enabled (cf_expose cfg) \<and> ex_verbose (cf_expose cfg) \<or>
           cn_enabled (cf_connect cfg) \<and> cn_verbose (cf_connect cfg)))"
proof -
  obtain ds where ds: "autoFlags = newFlags ds" "list_all (\<lambda>(n, v). plainFlag n) ds"
    "mget ds ''config'' = Some (StrV defaultPath)" "mget ds ''v'' = Some (BoolV False)"
    using flags_plain(4) by (auto simp: autoFlags_def table_lookup defaultPath_def)
  have auto: "mainDispatch args = AutoMode args"
    using assms(1) by (auto simp: mainDispatch_def hasPrefix_def)
  have "\<not> boolOf (configured args path autoFlags) ''v''"
    using configured_sel(2) [of "''v''" args path ds] ds(1,4) by (simp add: boolOf_def)
  then show ?thesis
    unfolding programMain_def auto command.case cmdAuto_def withConfig_start [OF assms ds(1-3)]
    using withConfig_configured(2) [OF assms(1) ds(2,3)] by (simp add: ds(1) Let_def autoVerbose_def runOr_def)
qed

lemma start_fails:
  assumes "args = [] \<and> path = defaultPath \<or> args = [''--config'', path]"
    and "fst (load (ce_bad env) (ce_read env path) path (args \<noteq> [])) = Inl e"
    and "cmd \<in> {[], [''server''], [''expose''], [''connect'']}"
  shows "programMain env connErr (cmd @ args) = Finished (Exit 1 (''config: '' @ e))"
proof -
  have "mainDispatch args = AutoMode args"
    using assms(1) by (auto simp: mainDispatch_def hasPrefix_def)
  then show ?thesis
    using assms(3) by (auto simp: programMain_def dispatch_modes cmdServer_def cmdExpose_def cmdConnect_def cmdAuto_def
        withConfig_fails [OF assms(1,2)] runOr_def fatal_def)
qed

text \<open>
  C37: Starting from the config alone is the same as its subcommands. With no argument, or with \<open>--config\<close>
  alone, the program runs exactly the enabled sections in the order server, expose, connect, each with the
  very settings its subcommand gets from the same arguments; a connect section without server or code,
  which the subcommand refuses, is refused by the mode too; with no section enabled the program ends with
  status 2, and with a config that cannot be loaded all of them end with the same error.
\<close>

theorem config_start_is_subcommands:
  assumes "args = [] \<and> path = ''config.json'' \<or> args = [''--config'', path]"
  shows "case fst (load (ce_bad env) (ce_read env path) path (args \<noteq> [])) of
      Inl e \<Rightarrow> \<forall>cmd \<in> {[], [''server''], [''expose''], [''connect'']}.
        programMain env connErr (cmd @ args) = Finished (Exit 1 (''config: '' @ e))
    | Inr cfg \<Rightarrow>
        \<exists>sc vs ea ve ca.
          programMain env connErr (''server'' # args) = RunsServer sc vs \<and>
          programMain env connErr (''expose'' # args) = RunsExpose ea ve \<and>
          (if ca_server ca = [] \<or> ca_code ca = []
           then (\<exists>m. programMain env connErr (''connect'' # args) = Finished (Exit 1 m)) \<and> (\<exists>m. runConnect ca = Inl m)
           else \<exists>vc. programMain env connErr (''connect'' # args) = RunsConnect ca RunTunnels vc) \<and>
          programMain env connErr args =
            (let modes =
               (if sn_enabled (cf_server cfg) then [AutoServer sc] else []) @
               (if ex_enabled (cf_expose cfg) then [AutoExpose ea] else []) @
               (if cn_enabled (cf_connect cfg) then [AutoConnect ca] else [])
             in if modes = [] then Finished (Exit 2 (''no subcommand given and no enabled section in '' @ path))
                else RunsModes modes
                  (sn_enabled (cf_server cfg) \<and> vs \<or> ex_enabled (cf_expose cfg) \<and> ve \<or>
                   cn_enabled (cf_connect cfg) \<and> cn_verbose (cf_connect cfg)))"
proof -
  have start: "args = [] \<and> path = defaultPath \<or> args = [''--config'', path]"
    using assms by (simp add: defaultPath_def)
  show ?thesis
  proof (cases "fst (load (ce_bad env) (ce_read env path) path (args \<noteq> []))")
    case (Inl e)
    then show ?thesis
      using start_fails [OF start Inl] by simp
  next
    case (Inr cfg)
    let ?sv = "cf_server cfg" and ?ex = "cf_expose cfg" and ?cc = "cf_connect cfg"
    define sc where "sc = serverOf env path cfg"
    define ea where "ea = \<lparr> ea_server = ex_server ?ex, ea_code = ex_code ?ex, ea_name = ex_name ?ex, ea_policy = autoPolicy ?ex \<rparr>"
    define ca where "ca = \<lparr> ca_server = cn_server ?cc, ca_code = cn_code ?cc, ca_name = cn_name ?cc,
      ca_forwards = cn_forward ?cc, ca_socks = cn_socks ?cc \<rparr>"
    have "programMain env connErr (''server'' # args) = RunsServer sc (sn_verbose ?sv)"
      "programMain env connErr (''expose'' # args) = RunsExpose ea (ex_verbose ?ex)"
      by (simp_all add: programMain_def dispatch_modes runOr_def start_server [OF start Inr] sc_def
          start_expose [OF start Inr] ea_def)
    moreover have "if ca_server ca = [] \<or> ca_code ca = []
        then (\<exists>m. programMain env connErr (''connect'' # args) = Finished (Exit 1 m)) \<and> (\<exists>m. runConnect ca = Inl m)
        else \<exists>vc. programMain env connErr (''connect'' # args) = RunsConnect ca RunTunnels vc"
      by (simp add: programMain_def dispatch_modes runOr_def start_connect [OF start Inr] ca_def Let_def fatal_def
          runConnect_def)
    moreover have "autoModes env path cfg = (if sn_enabled ?sv then [AutoServer sc] else []) @
        (if ex_enabled ?ex then [AutoExpose ea] else []) @ (if cn_enabled ?cc then [AutoConnect ca] else [])"
      by (simp add: autoModes_def sc_def serverOf_def ea_def ca_def Let_def)
    note start_modes [OF start Inr, of connErr, unfolded this]
    ultimately show ?thesis
      unfolding Inr sum.case by blast
  qed
qed

theorem config_start_is_subcommands_witness:
  "programMain cliEnv (\<lambda>a. None) [] = Finished (Exit 2 ''no subcommand given and no enabled section in config.json'') \<and>
   (\<exists>sc vs. programMain cliEnv (\<lambda>a. None) [''server''] = RunsServer sc vs)"
  using config_start_is_subcommands [of "[]" "''config.json''" cliEnv "\<lambda>a. None"]
  by (auto simp: cliEnv_def load_def loadConfig_def emptyConfig_def Let_def)

section \<open>What goes wrong\<close>

text \<open>An allow list in the config keeps dialling on even when the flag turns it off.\<close>

lemma allow_list_beats_flag:
  "wasSet fs ''allow-dial'' \<Longrightarrow> \<not> boolOf fs ''allow-dial'' \<Longrightarrow> \<not> wasSet fs ''allow'' \<Longrightarrow>
   t \<in> set (ex_allow (cf_expose cfg)) \<Longrightarrow> dialAllowed (ea_policy (exposeSettings fs cfg)) t"
  by (auto simp: exposeSettings_def dialAllowed_iff pickSlice_def Let_def)

text \<open>An interface the config disables stays disabled, whatever \<open>--admin\<close> says.\<close>

lemma admin_flag_cannot_enable:
  "ad_disabled (sn_admin (cf_server cfg)) \<Longrightarrow> ac_disabled (cf_admin (serverSettings env fs cfg))"
  by (simp add: serverSettings_def runServer_def Let_def)

text \<open>
  A program that was started from the config and ends because a mode failed reports success; the same
  failure ends the subcommand with status 1.
\<close>

lemma auto_error_exits_zero:
  "autoWait (map (\<lambda>m. ModeEnded m None) ms @ ModeEnded m (Some e) # evs) = Some (Exit 0 (modeName m @ '': '' @ e))"
  by (induction ms) simp_all

end
