(* ===== verification/Sync_Host.thy ===== *)
theory Sync_Host
  imports Stream_Io Go_Path
begin

text \<open>
  relay-sync's protocol and its host (\<open>examples/relay-sync/proto.go\<close>, \<open>host.go\<close>): frames, requests
  and replies, the confinement of paths, and the four request handlers. The JSON texts are what the
  parameters \<open>enc\<close> and \<open>dec\<close> make of them; a handler's result is the list of what it did to
  the file system and the stream it leaves.
\<close>

section \<open>Messages\<close>

record sync_request =
  rq_op :: string
  rq_path :: string
  rq_size :: int
  rq_mtime :: int
  rq_mode :: "32 word"
  rq_gitignore :: bool

record entry =
  en_path :: string
  en_size :: int
  en_mtime :: int

text \<open>The three reply types: to a manifest, to a get, and to a put or delete.\<close>

datatype sync_reply =
    ManifestReply bool string "entry list"
  | GetReply bool string int
  | Reply bool string

section \<open>Frames\<close>

definition maxFrame :: nat where
  "maxFrame = 32 * 2 ^ 20"

definition writeFrame :: "bytes \<Rightarrow> out_stream \<Rightarrow> string option \<times> out_stream" where
  "writeFrame b w = writeLP b w"

definition readFrame :: "in_stream \<Rightarrow> (string + bytes) \<times> in_stream" where
  "readFrame s = readLP maxFrame unexpectedEOF s"

definition syncWriteJSON :: "('v \<Rightarrow> string + bytes) \<Rightarrow> 'v \<Rightarrow> out_stream \<Rightarrow> string option \<times> out_stream" where
  "syncWriteJSON enc v w =
     (case enc v of
        Inl e \<Rightarrow> (Some e, w)
      | Inr b \<Rightarrow> writeFrame b w)"

definition syncReadJSON :: "(bytes \<Rightarrow> string + 'v) \<Rightarrow> in_stream \<Rightarrow> (string + 'v) \<times> in_stream" where
  "syncReadJSON dec s =
     (case readFrame s of
        (Inl e, s') \<Rightarrow> (Inl e, s')
      | (Inr b, s') \<Rightarrow> (dec b, s'))"

definition syncOk :: "bytes \<Rightarrow> bool" where
  "syncOk b \<longleftrightarrow> length b \<le> maxFrame"

interpretation syncf: framing syncOk frameBytes readFrame
  by unfold_locales (simp add: syncOk_def readFrame_def readLP_frame maxFrame_def)

section \<open>Confinement\<close>

definition confine :: "string option \<Rightarrow> string \<Rightarrow> string \<Rightarrow> string option" where
  "confine cwd root rel =
     (let clean = cleanPath (joinPath root rel)
      in (case absPath cwd root of
            None \<Rightarrow> None
          | Some absRoot \<Rightarrow>
              (case absPath cwd clean of
                 None \<Rightarrow> None
               | Some full \<Rightarrow>
                   if full = absRoot then Some full
                   else if hasPrefix full (absRoot @ ''/'') then Some full
                   else None)))"

section \<open>The file system as the handlers use it\<close>

datatype sync_effect =
    Listed string bool
  | OpenedFile string
  | MadeDirs string
  | WroteFile string nat bytes
  | SetTimes string int
  | RemovedAll string

text \<open>
  What \<open>Stat\<close> says of a path's existence, what \<open>buildManifest\<close> gives below it, what opening a file
  gives (its content, and its size or the error of asking), the errors of the changing calls, what a
  file takes, and the working directory.
\<close>

record sync_world =
  sw_missing :: "string \<Rightarrow> bool"
  sw_manifest :: "string \<Rightarrow> bool \<Rightarrow> string + entry list"
  sw_open :: "string \<Rightarrow> string + (bytes \<times> (string + int))"
  sw_mkdir :: "string \<Rightarrow> string option"
  sw_create :: "string \<Rightarrow> nat \<Rightarrow> string option"
  sw_disk :: "string \<Rightarrow> disk"
  sw_remove :: "string \<Rightarrow> string option"
  sw_cwd :: "string option"

section \<open>Handlers\<close>

type_synonym reply_enc = "sync_reply \<Rightarrow> string + bytes"

definition outsideRoot :: string where
  "outsideRoot = ''path outside root''"

text \<open>Sending a reply on a stream; its error is ignored wherever the source ignores it.\<close>

definition sendReply :: "reply_enc \<Rightarrow> sync_reply \<Rightarrow> duplex \<Rightarrow> duplex" where
  "sendReply enc r s = s\<lparr>dx_out := snd (syncWriteJSON enc r (dx_out s))\<rparr>"

definition hostManifest :: "reply_enc \<Rightarrow> sync_world \<Rightarrow> string \<Rightarrow> sync_request \<Rightarrow> duplex \<Rightarrow> sync_effect list \<times> duplex" where
  "hostManifest enc w root req s =
     (case confine (sw_cwd w) root (rq_path req) of
        None \<Rightarrow> ([], sendReply enc (ManifestReply False outsideRoot []) s)
      | Some base \<Rightarrow>
          if sw_missing w base then ([], sendReply enc (ManifestReply True [] []) s)
          else
            ([Listed base (rq_gitignore req)],
             (case sw_manifest w base (rq_gitignore req) of
                Inl e \<Rightarrow> sendReply enc (ManifestReply False e []) s
              | Inr es \<Rightarrow> sendReply enc (ManifestReply True [] es) s)))"

definition hostGet :: "reply_enc \<Rightarrow> sync_world \<Rightarrow> string \<Rightarrow> sync_request \<Rightarrow> duplex \<Rightarrow> sync_effect list \<times> duplex" where
  "hostGet enc w root req s =
     (case confine (sw_cwd w) root (rq_path req) of
        None \<Rightarrow> ([], sendReply enc (GetReply False outsideRoot 0) s)
      | Some full \<Rightarrow>
          ([OpenedFile full],
           (case sw_open w full of
              Inl e \<Rightarrow> sendReply enc (GetReply False e 0) s
            | Inr (content, Inl e) \<Rightarrow> sendReply enc (GetReply False e 0) s
            | Inr (content, Inr sz) \<Rightarrow>
                (case syncWriteJSON enc (GetReply True [] sz) (dx_out s) of
                   (Some e, out) \<Rightarrow> s\<lparr>dx_out := out\<rparr>
                 | (None, out) \<Rightarrow> s\<lparr>dx_out := snd (streamWrite content out)\<rparr>))))"

text \<open>A put receives exactly \<open>Size\<close> bytes; a file that could not be received in full keeps what came.\<close>

definition hostPut :: "reply_enc \<Rightarrow> sync_world \<Rightarrow> string \<Rightarrow> sync_request \<Rightarrow> duplex \<Rightarrow> sync_effect list \<times> duplex" where
  "hostPut enc w root req s =
     (case confine (sw_cwd w) root (rq_path req) of
        None \<Rightarrow> ([], sendReply enc (Reply False outsideRoot) s)
      | Some full \<Rightarrow>
          (case sw_mkdir w (dirPath full) of
             Some e \<Rightarrow> ([MadeDirs (dirPath full)], sendReply enc (Reply False e) s)
           | None \<Rightarrow>
               let mode = (if rq_mode req = 0 then 420 else unat (rq_mode req))
               in (case sw_create w full mode of
                     Some e \<Rightarrow> ([MadeDirs (dirPath full)], sendReply enc (Reply False e) s)
                   | None \<Rightarrow>
                       let (err, rest, f) = ioCopyN (rq_size req) (dx_in s) (newFile (sw_disk w full));
                           s' = s\<lparr>dx_in := rest\<rparr>
                       in (case err of
                             Some e \<Rightarrow>
                               ([MadeDirs (dirPath full), WroteFile full mode (out_data f)],
                                sendReply enc (Reply False e) s')
                           | None \<Rightarrow>
                               ([MadeDirs (dirPath full), WroteFile full mode (out_data f)] @
                                  (if 0 < rq_mtime req then [SetTimes full (rq_mtime req)] else []),
                                sendReply enc (Reply True []) s')))))"

definition hostDelete :: "reply_enc \<Rightarrow> sync_world \<Rightarrow> string \<Rightarrow> sync_request \<Rightarrow> duplex \<Rightarrow> sync_effect list \<times> duplex" where
  "hostDelete enc w root req s =
     (case confine (sw_cwd w) root (rq_path req) of
        None \<Rightarrow> ([], sendReply enc (Reply False outsideRoot) s)
      | Some full \<Rightarrow>
          if full = root then ([], sendReply enc (Reply False outsideRoot) s)
          else
            ([RemovedAll full],
             (case sw_remove w full of
                Some e \<Rightarrow> sendReply enc (Reply False e) s
              | None \<Rightarrow> sendReply enc (Reply True []) s)))"

definition syncHandle ::
  "(bytes \<Rightarrow> string + sync_request) \<Rightarrow> reply_enc \<Rightarrow> sync_world \<Rightarrow> string \<Rightarrow> duplex \<Rightarrow> sync_effect list \<times> duplex" where
  "syncHandle dec enc w root s =
     apsnd (\<lambda>d. d\<lparr>dx_out := streamClose (dx_out d)\<rparr>)
       (case syncReadJSON dec (dx_in s) of
          (Inl e, s') \<Rightarrow> ([], s\<lparr>dx_in := s'\<rparr>)
        | (Inr req, s') \<Rightarrow>
            if rq_op req = ''manifest'' then hostManifest enc w root req (s\<lparr>dx_in := s'\<rparr>)
            else if rq_op req = ''get'' then hostGet enc w root req (s\<lparr>dx_in := s'\<rparr>)
            else if rq_op req = ''put'' then hostPut enc w root req (s\<lparr>dx_in := s'\<rparr>)
            else if rq_op req = ''delete'' then hostDelete enc w root req (s\<lparr>dx_in := s'\<rparr>)
            else ([], s\<lparr>dx_in := s'\<rparr>))"

lemmas sync_defs [go_defs] =
  maxFrame_def writeFrame_def readFrame_def syncWriteJSON_def syncReadJSON_def confine_def outsideRoot_def
  sendReply_def hostManifest_def hostGet_def hostPut_def hostDelete_def syncHandle_def

section \<open>Confinement, exactly\<close>

lemma confine_iff:
  assumes "absPath cwd root = Some r" "root \<noteq> []" "cwdOk cwd"
  shows "confine cwd root rel =
    (let R = pathElems r; W = walkFrom R rel
     in if W = R \<or> (R \<noteq> [] \<and> prefix R W) then Some (rootedPath W) else None)"
proof -
  have cwd: "cwd = Some d \<Longrightarrow> isAbs d" for d
    using assms(3) by (simp add: cwdOk_def)
  note j = abs_join [OF assms(1,2) cwd, of rel]
  let ?R = "pathElems r" and ?W = "walkFrom (pathElems r) rel"
  have "list_all plainElem ?R" "list_all plainElem ?W"
    by (simp_all add: walkFrom_plain)
  note below = below_root_iff [OF this]
  have r: "r = rootedPath ?R"
    using j by blast
  have "confine cwd root rel =
      (if hasPrefix (rootedPath ?W) (r @ ''/'') \<or> rootedPath ?W = r then Some (rootedPath ?W) else None)"
    unfolding confine_def Let_def by (simp add: assms(1) j [THEN conjunct2])
  also have "\<dots> = (if ?W = ?R \<or> (?R \<noteq> [] \<and> prefix ?R ?W) then Some (rootedPath ?W) else None)"
    unfolding prefix_checks_agree using below r by metis
  finally show ?thesis
    by (simp add: Let_def)
qed

text \<open>Where a path the host lets through can lie, for a root given as an absolute path.\<close>

lemma confine_abs:
  assumes "confine cwd (rootedPath R) rel = Some p" "list_all plainElem R" "cwdOk cwd"
  shows "\<exists>W. list_all plainElem W \<and> p = rootedPath W \<and> prefix R W"
proof -
  have r: "absPath cwd (rootedPath R) = Some (rootedPath R)" "rootedPath R \<noteq> []"
    using assms(2) by (simp_all add: absPath_abs) (simp add: rootedPath_def)
  have "p = rootedPath (walkFrom R rel)" "prefix R (walkFrom R rel)"
    using assms(1,2) unfolding confine_iff [OF r assms(3)] by (auto simp: Let_def split: if_splits)
  then show ?thesis
    using walkFrom_plain [OF assms(2)] by blast
qed

end
