(* ===== verification/Sync_Client.thy ===== *)
theory Sync_Client
  imports Sync_Host
begin

text \<open>
  relay-sync's client (\<open>planSync\<close> in \<open>examples/relay-sync/proto.go\<close>, and \<open>client.go\<close>): the plan
  that mirrors one manifest onto another, the four requests, and a push or pull as the sequence of
  calls it makes.
\<close>

section \<open>The plan\<close>

record action =
  ac_op :: string
  ac_path :: string

definition copyOf :: "string \<Rightarrow> action" where
  "copyOf p = \<lparr> ac_op = ''copy'', ac_path = p \<rparr>"

definition deleteOf :: "string \<Rightarrow> action" where
  "deleteOf p = \<lparr> ac_op = ''delete'', ac_path = p \<rparr>"

definition indexEntries :: "entry list \<Rightarrow> (string, entry) gomap" where
  "indexEntries es = fold (\<lambda>e m. mput (en_path e) e m) es []"

text \<open>
  \<open>sort.Slice\<close> by path: actions that compare equal are equal here, so the result does not depend on
  the order it leaves them in.
\<close>

definition planSync :: "entry list \<Rightarrow> entry list \<Rightarrow> bool \<Rightarrow> action list" where
  "planSync src dst del =
     (let dstByPath = indexEntries dst;
          srcByPath = fold (\<lambda>e m. mput (en_path e) () m) src [];
          copies = map (\<lambda>s. copyOf (en_path s))
            (filter (\<lambda>s. case mget dstByPath (en_path s) of
                           None \<Rightarrow> True
                         | Some d \<Rightarrow> en_size d \<noteq> en_size s \<or> en_mtime d \<noteq> en_mtime s) src);
          deletes = (if del then map (\<lambda>d. deleteOf (en_path d))
                       (filter (\<lambda>d. mget srcByPath (en_path d) = None) dst)
                     else [])
      in sort_key ac_path copies @ sort_key ac_path deletes)"

section \<open>Requests\<close>

definition request0 :: sync_request where
  "request0 = \<lparr> rq_op = [], rq_path = [], rq_size = 0, rq_mtime = 0, rq_mode = 0, rq_gitignore = False \<rparr>"

type_synonym request_enc = "sync_request \<Rightarrow> string + bytes"

text \<open>Decoding a body into each of the three reply types.\<close>

record reply_dec =
  rd_manifest :: "bytes \<Rightarrow> string + bool \<times> string \<times> entry list"
  rd_get :: "bytes \<Rightarrow> string + bool \<times> string \<times> int"
  rd_plain :: "bytes \<Rightarrow> string + bool \<times> string"

text \<open>A request on a freshly opened stream.\<close>

definition sendRequest :: "request_enc \<Rightarrow> sync_request \<Rightarrow> string + duplex \<Rightarrow> string + duplex" where
  "sendRequest enc req opened =
     (case opened of
        Inl e \<Rightarrow> Inl e
      | Inr s \<Rightarrow>
          (case syncWriteJSON enc req (dx_out s) of
             (Some e, _) \<Rightarrow> Inl e
           | (None, w) \<Rightarrow> Inr (s\<lparr>dx_out := w\<rparr>)))"

definition reqManifest ::
  "request_enc \<Rightarrow> reply_dec \<Rightarrow> string + duplex \<Rightarrow> string \<Rightarrow> bool \<Rightarrow> string + entry list" where
  "reqManifest enc dec opened dir gitignore =
     (case sendRequest enc (request0\<lparr>rq_op := ''manifest'', rq_path := dir, rq_gitignore := gitignore\<rparr>) opened of
        Inl e \<Rightarrow> Inl e
      | Inr s \<Rightarrow>
          (case fst (syncReadJSON (rd_manifest dec) (dx_in s)) of
             Inl e \<Rightarrow> Inl e
           | Inr (ok, err, es) \<Rightarrow> if ok then Inr es else Inl err))"

text \<open>The local file a put reads: its content, size, time and permission bits.\<close>

record local_file =
  lf_content :: bytes
  lf_size :: int
  lf_mtime :: int
  lf_perm :: "32 word"

definition plainReply :: "reply_dec \<Rightarrow> in_stream \<Rightarrow> string option" where
  "plainReply dec s =
     (case fst (syncReadJSON (rd_plain dec) s) of
        Inl e \<Rightarrow> Some e
      | Inr (ok, err) \<Rightarrow> if ok then None else Some err)"

definition putFile ::
  "request_enc \<Rightarrow> reply_dec \<Rightarrow> string + local_file \<Rightarrow> string + duplex \<Rightarrow> string \<Rightarrow> string option \<times> out_stream option" where
  "putFile enc dec file opened remotePath =
     (case file of
        Inl e \<Rightarrow> (Some e, None)
      | Inr f \<Rightarrow>
          (case sendRequest enc
             (request0\<lparr>rq_op := ''put'', rq_path := remotePath, rq_size := lf_size f,
                       rq_mtime := lf_mtime f, rq_mode := lf_perm f\<rparr>) opened of
             Inl e \<Rightarrow> (Some e, None)
           | Inr s \<Rightarrow>
               (case ioCopyN (lf_size f) \<lparr>in_data = lf_content f, in_end = eof\<rparr> (dx_out s) of
                  (Some e, _, w) \<Rightarrow> (Some e, Some (streamClose w))
                | (None, _, w) \<Rightarrow> (plainReply dec (dx_in s), Some (streamClose w)))))"

text \<open>
  A get: the error, and the new content of the local file if it was created, with the time set on it
  if one was. \<open>mkdirErr\<close> and \<open>createErr\<close> are what making the directories and the file gives, \<open>d\<close> what
  the file takes.
\<close>

definition getFile ::
  "request_enc \<Rightarrow> reply_dec \<Rightarrow> string + duplex \<Rightarrow> string \<Rightarrow> string option \<Rightarrow> string option \<Rightarrow> disk \<Rightarrow> int \<Rightarrow>
     string option \<times> (bytes \<times> int option) option" where
  "getFile enc dec opened remotePath mkdirErr createErr d mtime =
     (case sendRequest enc (request0\<lparr>rq_op := ''get'', rq_path := remotePath\<rparr>) opened of
        Inl e \<Rightarrow> (Some e, None)
      | Inr s \<Rightarrow>
          (case syncReadJSON (rd_get dec) (dx_in s) of
             (Inl e, _) \<Rightarrow> (Some e, None)
           | (Inr (ok, err, n), rest) \<Rightarrow>
               if \<not> ok then (Some err, None)
               else if mkdirErr \<noteq> None then (mkdirErr, None)
               else if createErr \<noteq> None then (createErr, None)
               else
                 (case ioCopyN n rest (newFile d) of
                    (Some e, _, f) \<Rightarrow> (Some e, Some (out_data f, None))
                  | (None, _, f) \<Rightarrow> (None, Some (out_data f, if 0 < mtime then Some mtime else None)))))"

definition reqDelete :: "request_enc \<Rightarrow> reply_dec \<Rightarrow> string + duplex \<Rightarrow> string \<Rightarrow> string option" where
  "reqDelete enc dec opened remotePath =
     (case sendRequest enc (request0\<lparr>rq_op := ''delete'', rq_path := remotePath\<rparr>) opened of
        Inl e \<Rightarrow> Some e
      | Inr s \<Rightarrow> plainReply dec (dx_in s))"

section \<open>Push and pull\<close>

record sync_opts =
  so_del :: bool
  so_dryRun :: bool
  so_gitignore :: bool

text \<open>A call a pass makes, with its arguments, and whether it fails.\<close>

datatype sync_call =
    PutFile string string
  | DeleteRemote string
  | GetFile string string int
  | DeleteLocal string

type_synonym call_result = "sync_call \<Rightarrow> string option"

fun runCalls :: "call_result \<Rightarrow> sync_call list \<Rightarrow> string option \<times> sync_call list" where
  "runCalls res [] = (None, [])"
| "runCalls res (c # cs) =
     (case res c of
        Some e \<Rightarrow> (Some e, [c])
      | None \<Rightarrow> apsnd (Cons c) (runCalls res cs))"

definition pushCall :: "string \<Rightarrow> string \<Rightarrow> action \<Rightarrow> sync_call" where
  "pushCall localDir remoteDir a =
     (if ac_op a = ''copy'' then PutFile (joinPath localDir (ac_path a)) (joinPath remoteDir (ac_path a))
      else DeleteRemote (joinPath remoteDir (ac_path a)))"

definition pullCall :: "string \<Rightarrow> string \<Rightarrow> (string, entry) gomap \<Rightarrow> action \<Rightarrow> sync_call" where
  "pullCall remoteDir localDir remoteBy a =
     (if ac_op a = ''copy'' then
        GetFile (joinPath remoteDir (ac_path a)) (joinPath localDir (ac_path a))
          (case mget remoteBy (ac_path a) of None \<Rightarrow> 0 | Some e \<Rightarrow> en_mtime e)
      else DeleteLocal (joinPath localDir (ac_path a)))"

text \<open>
  The manifests are given by their own functions, each as the error or the entries; the scans do not
  depend on the plan.
\<close>

definition push ::
  "string + entry list \<Rightarrow> string + entry list \<Rightarrow> call_result \<Rightarrow> string \<Rightarrow> string \<Rightarrow> sync_opts \<Rightarrow>
     string option \<times> sync_call list" where
  "push localScan remoteScan res localDir remoteDir opts =
     (case localScan of
        Inl e \<Rightarrow> (Some (''scan local: '' @ e), [])
      | Inr locals \<Rightarrow>
          (case remoteScan of
             Inl e \<Rightarrow> (Some (''remote manifest: '' @ e), [])
           | Inr remote \<Rightarrow>
               let actions = planSync locals remote (so_del opts)
               in if so_dryRun opts then (None, [])
                  else runCalls res (map (pushCall localDir remoteDir) actions)))"

definition pull ::
  "string + entry list \<Rightarrow> string + entry list \<Rightarrow> call_result \<Rightarrow> string \<Rightarrow> string \<Rightarrow> sync_opts \<Rightarrow>
     string option \<times> sync_call list" where
  "pull localScan remoteScan res remoteDir localDir opts =
     (case remoteScan of
        Inl e \<Rightarrow> (Some (''remote manifest: '' @ e), [])
      | Inr remote \<Rightarrow>
          (case localScan of
             Inl e \<Rightarrow> (Some (''scan local: '' @ e), [])
           | Inr locals \<Rightarrow>
               let actions = planSync remote locals (so_del opts)
               in if so_dryRun opts then (None, [])
                  else runCalls res (map (pullCall remoteDir localDir (indexEntries remote)) actions)))"

text \<open>The line \<open>report\<close> logs counts the copies and deletes.\<close>

definition reportCounts :: "action list \<Rightarrow> nat \<times> nat" where
  "reportCounts actions =
     fold (\<lambda>a (c, d). if ac_op a = ''copy'' then (Suc c, d) else (c, Suc d)) actions (0, 0)"

lemmas sync_client_defs [go_defs] =
  copyOf_def deleteOf_def indexEntries_def planSync_def request0_def sendRequest_def reqManifest_def
  plainReply_def putFile_def getFile_def reqDelete_def pushCall_def pullCall_def push_def pull_def
  reportCounts_def

section \<open>The plan mirrors\<close>

text \<open>A manifest as a map; of several entries for one path the last counts.\<close>

definition manifestOf :: "entry list \<Rightarrow> string \<Rightarrow> entry option" where
  "manifestOf es p = mget (indexEntries es) p"

lemma mget_index_fold:
  "mget (fold (\<lambda>e m. mput (en_path e) (f e) m) es m) p =
     (case find (\<lambda>e. en_path e = p) (rev es) of Some e \<Rightarrow> Some (f e) | None \<Rightarrow> mget m p)"
  by (induction es arbitrary: m rule: rev_induct) simp_all

lemma manifestOf_find: "manifestOf es p = find (\<lambda>e. en_path e = p) (rev es)"
  by (simp add: manifestOf_def indexEntries_def mget_index_fold split: option.split)

lemma manifestOf_SomeD: "manifestOf es p = Some e \<Longrightarrow> e \<in> set es \<and> en_path e = p"
  by (auto simp: manifestOf_find find_Some_iff) (metis nth_mem set_rev length_rev)

lemma manifestOf_None: "manifestOf es p = None \<longleftrightarrow> p \<notin> en_path ` set es"
  by (auto simp: manifestOf_find find_None_iff)

lemma manifestOf_distinct:
  assumes "distinct (map en_path es)" "e \<in> set es"
  shows "manifestOf es (en_path e) = Some e"
proof -
  have "manifestOf es (en_path e) \<noteq> None"
    using assms(2) unfolding manifestOf_None by simp
  then obtain d where d: "manifestOf es (en_path e) = Some d"
    by blast
  then have "d \<in> set es" "en_path d = en_path e"
    using manifestOf_SomeD by blast+
  then have "d = e"
    using assms by (metis distinct_map inj_onD)
  with d show ?thesis
    by simp
qed

lemma entry_eqI: "en_path d = en_path e \<Longrightarrow> en_size d = en_size e \<Longrightarrow> en_mtime d = en_mtime e \<Longrightarrow> d = (e :: entry)"
  by simp

lemma planSync_actions:
  "planSync src dst del =
     sort_key ac_path (map (\<lambda>s. copyOf (en_path s)) (filter (\<lambda>s. manifestOf dst (en_path s) \<noteq> Some s) src)) @
     sort_key ac_path (if del then map (\<lambda>d. deleteOf (en_path d))
                                (filter (\<lambda>d. en_path d \<notin> en_path ` set src) dst) else [])"
proof -
  have "(case manifestOf dst (en_path s) of None \<Rightarrow> True | Some d \<Rightarrow> en_size d \<noteq> en_size s \<or> en_mtime d \<noteq> en_mtime s)
      \<longleftrightarrow> manifestOf dst (en_path s) \<noteq> Some s" for s
  proof (cases "manifestOf dst (en_path s)")
    case (Some d)
    then have "en_path d = en_path s"
      using manifestOf_SomeD by blast
    then have "d = s \<longleftrightarrow> en_size d = en_size s \<and> en_mtime d = en_mtime s"
      by (metis entry_eqI)
    with Some show ?thesis
      by simp
  qed simp
  moreover have "mget (fold (\<lambda>e m. mput (en_path e) () m) src []) p = None \<longleftrightarrow> p \<notin> en_path ` set src" for p
  proof -
    have "find (\<lambda>e. en_path e = p) (rev src) = None \<longleftrightarrow> p \<notin> en_path ` set src"
      by (auto simp: find_None_iff)
    then show ?thesis
      using mget_index_fold [of "\<lambda>e. ()" src "[]" p] by (simp split: option.splits)
  qed
  ultimately show ?thesis
    by (simp add: planSync_def flip: manifestOf_def)
qed

text \<open>What carrying an action out does to the destination's manifest.\<close>

definition applyAction :: "(string \<Rightarrow> entry option) \<Rightarrow> (string \<Rightarrow> entry option) \<Rightarrow> action \<Rightarrow> (string \<Rightarrow> entry option)" where
  "applyAction src m a = (if ac_op a = ''copy'' then m(ac_path a := src (ac_path a)) else m(ac_path a := None))"

lemma apply_copies:
  "foldl (applyAction src) m (map copyOf ps) = (\<lambda>p. if p \<in> set ps then src p else m p)"
  by (induction ps arbitrary: m) (auto simp: applyAction_def copyOf_def fun_eq_iff)

lemma apply_deletes:
  "foldl (applyAction src) m (map deleteOf ps) = (\<lambda>p. if p \<in> set ps then None else m p)"
  by (induction ps arbitrary: m) (auto simp: applyAction_def deleteOf_def fun_eq_iff)

lemma sort_key_map_copyOf: "sort_key ac_path (map copyOf ps) = map copyOf (sort ps)"
  "sort_key ac_path (map deleteOf ps) = map deleteOf (sort ps)"
proof -
  have ins: "insort_key ac_path (copyOf p) (map copyOf qs) = map copyOf (insort p qs)"
    "insort_key ac_path (deleteOf p) (map deleteOf qs) = map deleteOf (insort p qs)" for p qs
    by (induction qs) (simp_all add: copyOf_def deleteOf_def)
  show "sort_key ac_path (map copyOf ps) = map copyOf (sort ps)"
    by (induction ps) (simp_all add: ins(1))
  show "sort_key ac_path (map deleteOf ps) = map deleteOf (sort ps)"
    by (induction ps) (simp_all add: ins(2))
qed

lemma planSync_paths:
  "planSync src dst del =
     map copyOf (sort (map en_path (filter (\<lambda>s. manifestOf dst (en_path s) \<noteq> Some s) src))) @
     map deleteOf (sort (if del then map en_path (filter (\<lambda>d. en_path d \<notin> en_path ` set src) dst) else []))"
  using sort_key_map_copyOf(1) [of "map en_path (filter (\<lambda>s. manifestOf dst (en_path s) \<noteq> Some s) src)"]
    sort_key_map_copyOf(2) [of "map en_path (filter (\<lambda>d. en_path d \<notin> en_path ` set src) dst)"]
    sort_key_map_copyOf(2) [of "[]"]
  unfolding planSync_actions by (simp add: comp_def)

lemma plan_applied:
  "foldl (applyAction (manifestOf src)) (manifestOf dst) (planSync src dst del) =
     (\<lambda>p. if p \<in> en_path ` set src then manifestOf src p else if del then None else manifestOf dst p)"
proof
  fix p
  let ?copy = "\<lambda>s. manifestOf dst (en_path s) \<noteq> Some s"
  have same: "manifestOf dst p = manifestOf src p" if "p \<in> en_path ` set src" "p \<notin> en_path ` set (filter ?copy src)"
  proof -
    have "manifestOf src p \<noteq> None"
      using that(1) unfolding manifestOf_None by simp
    then obtain e where e: "manifestOf src p = Some e"
      by blast
    then have "e \<in> set src" "en_path e = p"
      using manifestOf_SomeD by blast+
    then show ?thesis
      using that(2) e by force
  qed
  have gone: "manifestOf dst p = None"
    if "p \<notin> en_path ` set src" "p \<notin> en_path ` set (filter (\<lambda>d. en_path d \<notin> en_path ` set src) dst)"
    using that unfolding manifestOf_None by auto
  have sub: "en_path ` set (filter ?copy src) \<subseteq> en_path ` set src"
    by auto
  show "foldl (applyAction (manifestOf src)) (manifestOf dst) (planSync src dst del) p =
      (if p \<in> en_path ` set src then manifestOf src p else if del then None else manifestOf dst p)"
    unfolding planSync_paths foldl_append apply_copies apply_deletes
    using same gone sub by (auto simp: set_sort)
qed

text \<open>The paths a plan copies and deletes, as sets.\<close>

lemma plan_copies:
  assumes "distinct (map en_path src)"
  shows "en_path ` set (filter (\<lambda>s. manifestOf dst (en_path s) \<noteq> Some s) src) =
    {p. manifestOf src p \<noteq> None \<and> manifestOf dst p \<noteq> manifestOf src p}"
proof (intro set_eqI iffI)
  fix p
  assume "p \<in> en_path ` set (filter (\<lambda>s. manifestOf dst (en_path s) \<noteq> Some s) src)"
  then obtain s where "s \<in> set src" "en_path s = p" "manifestOf dst p \<noteq> Some s"
    by auto
  then show "p \<in> {p. manifestOf src p \<noteq> None \<and> manifestOf dst p \<noteq> manifestOf src p}"
    using manifestOf_distinct [OF assms, of s] by simp
next
  fix p
  assume "p \<in> {p. manifestOf src p \<noteq> None \<and> manifestOf dst p \<noteq> manifestOf src p}"
  then obtain e where e: "manifestOf src p = Some e" "manifestOf dst p \<noteq> Some e"
    by fastforce
  then have "e \<in> set src" "en_path e = p"
    using manifestOf_SomeD by blast+
  then show "p \<in> en_path ` set (filter (\<lambda>s. manifestOf dst (en_path s) \<noteq> Some s) src)"
    using e(2) by auto
qed

lemma manifestOf_paths: "p \<in> en_path ` set es \<longleftrightarrow> manifestOf es p \<noteq> None"
  unfolding manifestOf_None by simp

lemma plan_deletes:
  "en_path ` set (filter (\<lambda>d. en_path d \<notin> en_path ` set src) dst) = {p. manifestOf src p = None \<and> manifestOf dst p \<noteq> None}"
proof -
  have "en_path ` set (filter (\<lambda>d. en_path d \<notin> en_path ` set src) dst) =
      {p. p \<notin> en_path ` set src \<and> p \<in> en_path ` set dst}"
    by auto
  then show ?thesis
    unfolding manifestOf_paths not_not .
qed

text \<open>
  C17: The plan of a sync mirrors the source. Carrying its actions out in order makes the
  destination's manifest the source's where the source has a file, and elsewhere leaves it, or with
  deletion empties it; no path occurs twice, copies come before deletes and both are in byte order of
  their paths; only files that are missing or differ are copied; and once the destination agrees with
  the source there is nothing to do.
\<close>

theorem plan_mirrors:
  assumes "distinct (map en_path src)" "distinct (map en_path dst)"
  shows "foldl (applyAction (manifestOf src)) (manifestOf dst) (planSync src dst del) =
      (\<lambda>p. case manifestOf src p of Some e \<Rightarrow> Some e | None \<Rightarrow> if del then None else manifestOf dst p) \<and>
    (\<exists>cs ds. planSync src dst del = map copyOf cs @ map deleteOf ds \<and> sorted cs \<and> sorted ds \<and> distinct (cs @ ds) \<and>
       set cs = {p. manifestOf src p \<noteq> None \<and> manifestOf dst p \<noteq> manifestOf src p} \<and>
       set ds = (if del then {p. manifestOf src p = None \<and> manifestOf dst p \<noteq> None} else {})) \<and>
    (manifestOf dst = manifestOf src \<longrightarrow> planSync src dst del = [])"
proof -
  let ?cs = "sort (map en_path (filter (\<lambda>s. manifestOf dst (en_path s) \<noteq> Some s) src))"
  let ?ds = "sort (if del then map en_path (filter (\<lambda>d. en_path d \<notin> en_path ` set src) dst) else [])"
  have cs: "set ?cs = {p. manifestOf src p \<noteq> None \<and> manifestOf dst p \<noteq> manifestOf src p}"
    unfolding plan_copies [OF assms(1), symmetric] by simp
  have ds: "set ?ds = (if del then {p. manifestOf src p = None \<and> manifestOf dst p \<noteq> None} else {})"
    unfolding plan_deletes [symmetric] by simp
  have "distinct ?cs" "distinct ?ds"
    using distinct_map_filter [OF assms(1)] distinct_map_filter [OF assms(2)]
    by (simp_all add: if_distrib [of distinct])
  then have disj: "distinct (?cs @ ?ds)"
    unfolding distinct_append cs ds by auto
  have empty: "planSync src dst del = []" if "manifestOf dst = manifestOf src"
  proof -
    have "set ?cs = {}" "set ?ds = {}"
      unfolding cs ds using that by auto
    then show ?thesis
      unfolding planSync_paths set_empty by simp
  qed
  show ?thesis
  proof (intro conjI exI impI)
    show "foldl (applyAction (manifestOf src)) (manifestOf dst) (planSync src dst del) =
        (\<lambda>p. case manifestOf src p of Some e \<Rightarrow> Some e | None \<Rightarrow> if del then None else manifestOf dst p)"
      unfolding plan_applied manifestOf_paths by (auto split: option.split)
    show "planSync src dst del = map copyOf ?cs @ map deleteOf ?ds"
      by (rule planSync_paths)
    show "set ?cs = {p. manifestOf src p \<noteq> None \<and> manifestOf dst p \<noteq> manifestOf src p}"
      by (rule cs)
    show "set ?ds = (if del then {p. manifestOf src p = None \<and> manifestOf dst p \<noteq> None} else {})"
      by (rule ds)
  qed (use disj empty in simp_all)
qed

definition planSrc :: "entry list" where
  "planSrc = [\<lparr> en_path = ''b'', en_size = 1, en_mtime = 5 \<rparr>, \<lparr> en_path = ''a'', en_size = 2, en_mtime = 5 \<rparr>]"

definition planDst :: "entry list" where
  "planDst = [\<lparr> en_path = ''a'', en_size = 2, en_mtime = 4 \<rparr>, \<lparr> en_path = ''c'', en_size = 3, en_mtime = 5 \<rparr>]"

theorem plan_mirrors_witness:
  "foldl (applyAction (manifestOf planSrc)) (manifestOf planDst) (planSync planSrc planDst True) ''c'' = None"
proof -
  have "distinct (map en_path planSrc)" "distinct (map en_path planDst)" "manifestOf planSrc ''c'' = None"
    by (simp_all add: planSrc_def planDst_def manifestOf_find)
  then show ?thesis
    using plan_mirrors [of planSrc planDst True] by simp
qed

end
