(* ===== verification/Sync_Cli.thy ===== *)
theory Sync_Cli
  imports Backoff Cli_Props Sync_Client
begin

text \<open>
  relay-sync's command line and its retry loop (\<open>examples/relay-sync/main.go\<close>, \<open>serve\<close> in
  \<open>host.go\<close>): finding the command among the arguments, the endpoint from flags and config, and passes
  repeated with backoff.
\<close>

section \<open>The command\<close>

definition syncCommands :: "string list" where
  "syncCommands = [''serve'', ''push'', ''pull'']"

definition valueFlags :: "string list" where
  "valueFlags = [''config'', ''server'', ''code'', ''retry'']"

text \<open>The name of a flag and whether its value is attached; a non-flag has the empty name.\<close>

definition flagName :: "string \<Rightarrow> string \<times> bool" where
  "flagName arg =
     (if \<not> hasPrefix arg ''-'' \<or> arg = ''-'' \<or> arg = ''--'' then ([], False)
      else
        let trimmed = trimLeftByte (CHR ''-'') arg
        in (case indexByte (CHR ''='') trimmed of
              Some i \<Rightarrow> (take i trimmed, True)
            | None \<Rightarrow> (trimmed, False)))"

fun splitLoop :: "string \<Rightarrow> bool \<Rightarrow> string list \<Rightarrow> string \<times> string list" where
  "splitLoop cmd skipValue [] = (cmd, [])"
| "splitLoop cmd skipValue (a # as) =
     (if skipValue then apsnd (Cons a) (splitLoop cmd False as)
      else if cmd = [] \<and> a \<in> set syncCommands then splitLoop a False as
      else
        let (name, attached) = flagName a;
            sk = (name \<noteq> [] \<and> \<not> attached \<and> name \<in> set valueFlags \<and> as \<noteq> [])
        in apsnd (Cons a) (splitLoop cmd sk as))"

text \<open>Called with at least one argument. \<open>quote\<close> is \<open>strconv.Quote\<close>.\<close>

definition splitCommand :: "(string \<Rightarrow> string) \<Rightarrow> string list \<Rightarrow> string + string \<times> string list" where
  "splitCommand quote args =
     (let (cmd, rest) = splitLoop [] False args
      in if cmd = [] then
           (if hasPrefix (hd args) ''-'' then
              Inl (''no command given; expected serve, push or pull alongside '' @ hd args)
            else Inl (''unknown command '' @ quote (hd args)))
         else Inr (cmd, rest))"

datatype sync_main = SyncUsage bool | SyncExample | SyncFail string | SyncServe "string list" | SyncPass string "string list"

definition syncMain :: "(string \<Rightarrow> string) \<Rightarrow> string list \<Rightarrow> sync_main" where
  "syncMain quote args =
     (case args of
        [] \<Rightarrow> SyncUsage True
      | a # _ \<Rightarrow>
          if a \<in> {''example-config'', ''-example-config'', ''--example-config''} then SyncExample
          else if a \<in> {''-h'', ''--help'', ''help''} then SyncUsage False
          else
            (case splitCommand quote args of
               Inl e \<Rightarrow> SyncFail e
             | Inr (cmd, rest) \<Rightarrow> if cmd = ''serve'' then SyncServe rest else SyncPass cmd rest))"

text \<open>
  \<open>parsePositional\<close>: flags are parsed up to a positional argument, that is taken, and so on with the rest;
  the flag set keeps what it has been given.
\<close>

function parsePositional ::
  "(string \<Rightarrow> string) \<Rightarrow> (string \<Rightarrow> nat \<Rightarrow> nat) \<Rightarrow> flagset \<Rightarrow> string list \<Rightarrow> flag_stop + flagset \<times> string list" where
  "parsePositional quote frac fs args =
     (case parseFlags quote frac fs args of
        Inl e \<Rightarrow> Inl e
      | Inr (fs', []) \<Rightarrow> Inr (fs', [])
      | Inr (fs', a # as) \<Rightarrow>
          (case parsePositional quote frac fs' as of
             Inl e \<Rightarrow> Inl e
           | Inr (fs'', pos) \<Rightarrow> Inr (fs'', a # pos)))"
  by pat_completeness auto

termination
  by (relation "measure (\<lambda>(quote, frac, fs, args). length args)") (auto dest!: parseFlags_shorter)

declare parsePositional.simps [simp del]

definition resolveEndpoint :: "cli_env \<Rightarrow> flagset \<Rightarrow> string \<Rightarrow> program_exit + string \<times> string" where
  "resolveEndpoint env fs which =
     (case mainLoadConfig env fs of
        Inl e \<Rightarrow> Inl e
      | Inr cfg \<Rightarrow>
          let (secServer, secCode) =
                (if which = ''connect'' then (cn_server (cf_connect cfg), cn_code (cf_connect cfg))
                 else (ex_server (cf_expose cfg), ex_code (cf_expose cfg)))
          in Inr (if \<not> wasSet fs ''server'' \<and> secServer \<noteq> [] then secServer else strOf fs ''server'',
                  if \<not> wasSet fs ''code'' \<and> secCode \<noteq> [] then secCode else strOf fs ''code''))"

text \<open>What \<open>cmdServe\<close> and \<open>cmdSync\<close> start with, or how they end before.\<close>

definition serveFlags :: flagset where
  "serveFlags = newFlags [(''config'', StrV defaultPath), (''server'', StrV []), (''code'', StrV [])]"

definition syncFlags :: flagset where
  "syncFlags = newFlags
     [(''config'', StrV defaultPath), (''server'', StrV []), (''code'', StrV []), (''delete'', BoolV False),
      (''dry-run'', BoolV False), (''gitignore'', BoolV True), (''retry'', DurV minute)]"

definition cmdServe :: "cli_env \<Rightarrow> string list \<Rightarrow> program_exit + string \<times> string \<times> string" where
  "cmdServe env args =
     (case parsePositional (ce_quote env) (ce_frac env) serveFlags args of
        Inl e \<Rightarrow> Inl (flagExit e)
      | Inr (fs, rest) \<Rightarrow>
          (case resolveEndpoint env fs ''expose'' of
             Inl e \<Rightarrow> Inl e
           | Inr (srv, code) \<Rightarrow>
               if srv = [] \<or> code = [] then
                 Inl (fatal ''--server and --code are required (flag or config [expose] section)'')
               else case rest of [dir] \<Rightarrow> Inr (srv, code, dir)
                    | _ \<Rightarrow> Inl (fatal ''usage: relay-sync serve --server URL --code CODE DIR'')))"

record sync_args =
  sa_server :: string
  sa_code :: string
  sa_from :: string
  sa_to :: string
  sa_opts :: sync_opts
  sa_retry :: duration

definition cmdSync :: "cli_env \<Rightarrow> string \<Rightarrow> string list \<Rightarrow> program_exit + sync_args" where
  "cmdSync env direction args =
     (case parsePositional (ce_quote env) (ce_frac env) syncFlags args of
        Inl e \<Rightarrow> Inl (flagExit e)
      | Inr (fs, rest) \<Rightarrow>
          (case resolveEndpoint env fs ''connect'' of
             Inl e \<Rightarrow> Inl e
           | Inr (srv, code) \<Rightarrow>
               if srv = [] \<or> code = [] then
                 Inl (fatal ''--server and --code are required (flag or config [connect] section)'')
               else case rest of
                   [a, b] \<Rightarrow> Inr \<lparr> sa_server = srv, sa_code = code, sa_from = a, sa_to = b,
                     sa_opts = \<lparr> so_del = boolOf fs ''delete'', so_dryRun = boolOf fs ''dry-run'',
                       so_gitignore = boolOf fs ''gitignore'' \<rparr>,
                     sa_retry = durOf fs ''retry'' \<rparr>
                 | _ \<Rightarrow> Inl (fatal (''usage: relay-sync '' @ direction @ '' --server URL --code CODE SRC DST''))))"

text \<open>The whole program, up to what it runs.\<close>

datatype sync_run =
    SyncFinished program_exit
  | SyncPrints string
  | SyncPrintsUsage
  | RunsServe "string \<times> string \<times> string"
  | RunsSync string sync_args

definition syncProgram :: "cli_env \<Rightarrow> string list \<Rightarrow> sync_run" where
  "syncProgram env args =
     (case syncMain (ce_quote env) args of
        SyncUsage bad \<Rightarrow> if bad then SyncFinished (Exit 2 []) else SyncPrintsUsage
      | SyncExample \<Rightarrow> SyncPrints example
      | SyncFail e \<Rightarrow> SyncFinished (Exit 2 e)
      | SyncServe rest \<Rightarrow> (case cmdServe env rest of Inl e \<Rightarrow> SyncFinished e | Inr r \<Rightarrow> RunsServe r)
      | SyncPass cmd rest \<Rightarrow> (case cmdSync env cmd rest of Inl e \<Rightarrow> SyncFinished e | Inr a \<Rightarrow> RunsSync cmd a))"

text \<open>How a run ends: \<open>serve\<close> with its error, a sync with what \<open>runWithRetry\<close> returned.\<close>

definition syncRunEnd :: "string \<Rightarrow> string option \<Rightarrow> program_exit" where
  "syncRunEnd what err = (case err of None \<Rightarrow> Exit 0 [] | Some e \<Rightarrow> fatal (what @ '': '' @ e))"

section \<open>Passes with retry\<close>

definition retryFirst :: duration where
  "retryFirst = second"

definition retryCap :: duration where
  "retryCap = 15 * second"

definition retryNext :: "duration \<Rightarrow> duration" where
  "retryNext b = (let b2 = b * 2 in if retryCap < b2 then retryCap else b2)"

interpretation retry: backoff retryFirst retryCap retryNext
  by unfold_locales (auto simp: retryFirst_def retryCap_def retryNext_def duration_defs Let_def)

text \<open>
  One attempt as the loop sees it: its error, whether the context is done after it, the clock when the
  window is tested, and whether the context is done before the delay is over. The result is the error
  the loop returns with, nothing while it goes on, and the delays it waited for.
\<close>

record attempt =
  at_err :: "string option"
  at_cancelled :: bool
  at_now :: time
  at_doneWaiting :: bool

fun retryLoop :: "time \<Rightarrow> duration \<Rightarrow> duration \<Rightarrow> attempt list \<Rightarrow> string option option \<times> duration list" where
  "retryLoop deadline window b [] = (None, [])"
| "retryLoop deadline window b (a # as) =
     (case at_err a of
        None \<Rightarrow> (Some None, [])
      | Some e \<Rightarrow>
          if at_cancelled a then (Some (Some e), [])
          else if window = 0 \<or> deadline < at_now a then (Some (Some e), [])
          else if at_doneWaiting a then (Some (Some e), [b])
          else apsnd (Cons b) (retryLoop deadline window (retryNext b) as))"

definition runWithRetry :: "time \<Rightarrow> duration \<Rightarrow> attempt list \<Rightarrow> string option option \<times> duration list" where
  "runWithRetry now window attempts = retryLoop (now + window) window retryFirst attempts"

lemmas sync_cli_defs [go_defs] =
  syncCommands_def valueFlags_def flagName_def splitCommand_def syncMain_def retryFirst_def retryCap_def retryNext_def runWithRetry_def

section \<open>Properties\<close>

text \<open>The arguments around the command are kept in order, and nothing else is dropped.\<close>

lemma splitLoop_keeps:
  "splitLoop cmd sk args = (cmd', rest) \<Longrightarrow>
   if cmd = [] \<and> cmd' \<noteq> [] then cmd' \<in> set syncCommands \<and> (\<exists>xs ys. args = xs @ cmd' # ys \<and> rest = xs @ ys)
   else cmd' = cmd \<and> rest = args"
proof (induction cmd sk args arbitrary: cmd' rest rule: splitLoop.induct)
  case (2 cmd sk a as)
  have ne: "c \<noteq> []" if "c \<in> set syncCommands" for c
    using that by (auto simp: syncCommands_def)
  have step: ?case if s1: "splitLoop cmd sk' as = (cmd', r)" and s2: "rest = a # r"
    and s3: "if cmd = [] \<and> cmd' \<noteq> [] then cmd' \<in> set syncCommands \<and> (\<exists>xs ys. as = xs @ cmd' # ys \<and> r = xs @ ys)
     else cmd' = cmd \<and> r = as" for sk' r
  proof (cases "cmd = [] \<and> cmd' \<noteq> []")
    case True
    then obtain xs ys where "cmd' \<in> set syncCommands" "as = xs @ cmd' # ys" "r = xs @ ys"
      using s3 by auto
    then have "\<exists>xs ys. a # as = xs @ cmd' # ys \<and> rest = xs @ ys"
      using s2 by (intro exI [of _ "a # xs"] exI [of _ ys]) simp
    then show ?thesis
      unfolding if_P [OF True] using \<open>cmd' \<in> set syncCommands\<close> by blast
  next
    case False
    then show ?thesis
      using s2 s3 by auto
  qed
  show ?case
  proof (cases sk)
    case True
    then obtain r where "splitLoop cmd False as = (cmd', r)" "rest = a # r"
      using 2(4) by (cases "splitLoop cmd False as") auto
    then show ?thesis
      using step 2(1) [OF True] by blast
  next
    case nsk: False
    show ?thesis
    proof (cases "cmd = [] \<and> a \<in> set syncCommands")
      case True
      then have "splitLoop a False as = (cmd', rest)"
        using 2(4) nsk by simp
      then have "cmd' = a \<and> rest = as"
        using 2(2) [OF nsk True] ne True by auto
      then show ?thesis
        using True ne by (auto intro: exI [of _ "[]"])
    next
      case False
      obtain name att where f: "flagName a = (name, att)"
        by fastforce
      let ?sk = "name \<noteq> [] \<and> \<not> att \<and> name \<in> set valueFlags \<and> as \<noteq> []"
      obtain r where r: "splitLoop cmd ?sk as = (cmd', r)" "rest = a # r"
        using 2(4) nsk False f by (cases "splitLoop cmd ?sk as") auto
      then show ?thesis
        using step 2(3) [OF nsk False f [symmetric] refl refl] by blast
    qed
  qed
qed simp

text \<open>
  The delays are those of the backoff, from a second up to fifteen; and the loop returns as soon as an
  attempt ends with the clock past the window.
\<close>

lemma retryLoop_delays:
  "retryLoop deadline window (retry.delay n) as = (r, ds) \<Longrightarrow> ds = map retry.delay [n..<n + length ds]"
proof (induction as arbitrary: n r ds)
  case (Cons a as)
  have step: "retryNext (retry.delay n) = retry.delay (Suc n)"
    by (simp add: retry.delay_Suc)
  obtain r' ds' where rec: "retryLoop deadline window (retry.delay (Suc n)) as = (r', ds')"
    by fastforce
  have "ds' = map retry.delay [Suc n..<Suc n + length ds']"
    by (rule Cons.IH [OF rec])
  moreover have "ds = [] \<or> ds = [retry.delay n] \<or> ds = retry.delay n # ds'"
    using Cons.prems rec step by (auto split: option.splits if_splits)
  ultimately show ?case
    by (elim disjE) (simp_all add: upt_conv_Cons del: upt_Suc)
qed simp

lemma runWithRetry_returns:
  assumes "a \<in> set attempts" "at_err a = None \<or> at_cancelled a \<or> window = 0 \<or> now + window < at_now a"
  shows "fst (runWithRetry now window attempts) \<noteq> None"
proof -
  have "fst (retryLoop deadline window b attempts) \<noteq> None" if "deadline = now + window" for deadline b
    using assms that by (induction attempts arbitrary: b) (auto split: option.split)
  then show ?thesis
    by (simp add: runWithRetry_def)
qed

section \<open>Arguments in any order\<close>

text \<open>A command line as a sequence of settings and positional arguments.\<close>

datatype cmd_item = Opt setting | Pos string

fun itemText :: "cmd_item \<Rightarrow> string list" where
  "itemText (Opt st) = settingText st"
| "itemText (Pos p) = [p]"

definition itemTexts :: "cmd_item list \<Rightarrow> string list" where
  "itemTexts xs = concat (map itemText xs)"

fun itemSettings :: "cmd_item list \<Rightarrow> setting list" where
  "itemSettings [] = []"
| "itemSettings (Opt st # xs) = st # itemSettings xs"
| "itemSettings (Pos p # xs) = itemSettings xs"

fun itemPositionals :: "cmd_item list \<Rightarrow> string list" where
  "itemPositionals [] = []"
| "itemPositionals (Opt st # xs) = itemPositionals xs"
| "itemPositionals (Pos p # xs) = p # itemPositionals xs"

lemma items_append [simp]:
  "itemSettings (xs @ ys) = itemSettings xs @ itemSettings ys"
  "itemPositionals (xs @ ys) = itemPositionals xs @ itemPositionals ys"
  "itemTexts (xs @ ys) = itemTexts xs @ itemTexts ys"
  "itemTexts (x # xs) = itemText x @ itemTexts xs" "itemTexts [] = []"
  by (induction xs rule: itemSettings.induct) (simp_all add: itemTexts_def)

lemma parsePositional_setting:
  assumes "applySetting frac st fs = Some fs'" "plainFlag (settingName st)"
  shows "parsePositional quote frac fs (settingText st @ rest) = parsePositional quote frac fs' rest"
proof -
  have "parseFlags quote frac fs (settingText st @ rest) = parseFlags quote frac fs' rest"
    using parseOne_setting [OF assms(2,1)] by (simp add: parseFlags.simps [of quote frac fs])
  then show ?thesis
    by (simp add: parsePositional.simps [of quote frac fs] parsePositional.simps [of quote frac fs'])
qed

lemma parsePositional_argument:
  assumes "noFlag p"
  shows "parsePositional quote frac fs (p # rest) = map_sum id (apsnd (Cons p)) (parsePositional quote frac fs rest)"
proof -
  have "parseFlags quote frac fs (p # rest) = Inr (fs, p # rest)"
    using assms by (intro parseFlags_stops) (simp add: stops_def)
  then show ?thesis
    by (simp add: parsePositional.simps [of quote frac fs "p # rest"] split: sum.split)
qed

lemma positionals_interspersed:
  assumes "applySettings frac (itemSettings xs) fs = Some fs'" "list_all (\<lambda>st. plainFlag (settingName st)) (itemSettings xs)"
    and "list_all noFlag (itemPositionals xs)"
  shows "parsePositional quote frac fs (itemTexts xs) = Inr (fs', itemPositionals xs)"
  using assms
proof (induction xs arbitrary: fs rule: itemSettings.induct)
  case 1
  then show ?case
    by (simp add: parsePositional.simps [of _ _ _ "[]"] parseFlags_stops stops_def)
next
  case (2 st xs)
  then show ?case
    by (auto simp: parsePositional_setting split: option.splits)
next
  case (3 p xs)
  then show ?case
    by (simp add: parsePositional_argument)
qed

text \<open>Looking for the command skips the same arguments as parsing does.\<close>

definition skipsAlike :: "setting \<Rightarrow> bool" where
  "skipsAlike st \<longleftrightarrow> plainFlag (settingName st) \<and>
     (case st of Attached two n t \<Rightarrow> True | Apart two n t \<Rightarrow> n \<in> set valueFlags | Switch two n \<Rightarrow> n \<notin> set valueFlags)"

lemma dashed_not_command: "dashes two @ t \<notin> set syncCommands"
  by (auto simp: dashes_def syncCommands_def)

lemma flagName_dashed:
  assumes "plainFlag n"
  shows "flagName (dashes two @ n) = (n, False)" "flagName (dashes two @ n @ CHR ''='' # t) = (n, True)"
proof -
  have trim: "trimLeftByte (CHR ''-'') (dashes two @ n @ u) = n @ u" for u
    using assms by (cases n) (auto simp: trimLeftByte_def dashes_def plainFlag_def)
  have "hasPrefix (dashes two @ u) ''-''" for u
    by (simp add: hasPrefix_def dashes_def)
  moreover have ne: "dashes two @ n @ u \<noteq> ''-'' \<and> dashes two @ n @ u \<noteq> ''--''" for u
    using assms by (cases n) (auto simp: dashes_def plainFlag_def)
  moreover have "indexByte (CHR ''='') n = None"
    using assms by (subst indexByte_None) (simp add: plainFlag_def)
  moreover have "indexByte (CHR ''='') (n @ CHR ''='' # t) = Some (length n)"
    using assms by (simp add: indexByte_at plainFlag_def)
  ultimately show "flagName (dashes two @ n) = (n, False)" "flagName (dashes two @ n @ CHR ''='' # t) = (n, True)"
    using trim [of "[]"] trim [of "CHR ''='' # t"] ne [of "[]"] ne [of "CHR ''='' # t"] by (simp_all add: flagName_def Let_def del: indexByte_None)
qed

lemma plainFlag_ne: "plainFlag n \<Longrightarrow> n \<noteq> []"
  by (simp add: plainFlag_def)

lemma splitLoop_setting:
  assumes "skipsAlike st"
  shows "splitLoop [] False (settingText st @ rest) = apsnd (append (settingText st)) (splitLoop [] False rest)"
  using assms dashed_not_command plainFlag_ne [of "settingName st"]
  by (cases st) (simp_all add: skipsAlike_def flagName_dashed Let_def apsnd_def map_prod_def split: prod.split)

lemma splitLoop_argument:
  assumes "noFlag p" "p \<notin> set syncCommands"
  shows "splitLoop [] False (p # rest) = apsnd (Cons p) (splitLoop [] False rest)"
proof -
  have "fst (flagName p) = []"
    using assms(1) by (cases p; cases "tl p") (auto simp: noFlag_def flagName_def hasPrefix_def)
  then show ?thesis
    using assms(2) by (cases "flagName p") (simp add: Let_def)
qed

lemma splitLoop_items:
  "list_all skipsAlike (itemSettings xs) \<Longrightarrow> list_all (\<lambda>p. noFlag p \<and> p \<notin> set syncCommands) (itemPositionals xs) \<Longrightarrow>
   splitLoop [] False (itemTexts xs @ rest) = apsnd (append (itemTexts xs)) (splitLoop [] False rest)"
proof (induction xs rule: itemSettings.induct)
  case (2 st xs)
  then show ?case
    using splitLoop_setting [of st "itemTexts xs @ rest"] by (cases "splitLoop [] False rest") simp
next
  case (3 p xs)
  then show ?case
    using splitLoop_argument [of p "itemTexts xs @ rest"] by (cases "splitLoop [] False rest") simp
qed (simp add: prod.expand)

lemma splitLoop_command:
  assumes "list_all skipsAlike (itemSettings xs)" "list_all (\<lambda>p. noFlag p \<and> p \<notin> set syncCommands) (itemPositionals xs)"
    and "cmd \<in> set syncCommands"
  shows "splitLoop [] False (itemTexts xs @ cmd # rest) = (cmd, itemTexts xs @ rest)"
proof -
  have "cmd \<noteq> []"
    using assms(3) by (auto simp: syncCommands_def)
  moreover obtain c r where cr: "splitLoop cmd False rest = (c, r)"
    by fastforce
  ultimately have "splitLoop cmd False rest = (cmd, rest)"
    using splitLoop_keeps [OF cr] by simp
  then show ?thesis
    using assms by (simp add: splitLoop_items)
qed

lemma settingValue_kind: "settingValue frac st v = Some w \<Longrightarrow> isBoolFlag w = isBoolFlag v"
  by (cases st; cases v) (auto simp: setFlag_def isBoolFlag_def split: if_splits)

lemma setting_kinds:
  "applySettings frac sts fs = Some fs' \<Longrightarrow> st \<in> set sts \<Longrightarrow>
   \<exists>v. mget (fg_formal fs) (settingName st) = Some v \<and>
     (case st of Attached two n t \<Rightarrow> True | Apart two n t \<Rightarrow> \<not> isBoolFlag v | Switch two n \<Rightarrow> isBoolFlag v)"
proof (induction sts arbitrary: fs)
  case (Cons a sts)
  from Cons.prems(1) obtain v w where s: "mget (fg_formal fs) (settingName a) = Some v"
    "settingValue frac a v = Some w" "applySettings frac sts (putFlag (settingName a) w fs) = Some fs'"
    by (rule applySettings_step)
  show ?case
  proof (cases "st = a")
    case True
    then show ?thesis
      using s(1,2) by (cases a) (auto split: if_splits)
  next
    case False
    then obtain u where "mget (fg_formal (putFlag (settingName a) w fs)) (settingName st) = Some u"
      "case st of Attached two n t \<Rightarrow> True | Apart two n t \<Rightarrow> \<not> isBoolFlag u | Switch two n \<Rightarrow> isBoolFlag u"
      using Cons.IH [OF s(3)] Cons.prems(2) by auto
    then show ?thesis
      using s(1) settingValue_kind [OF s(2)] by (cases "settingName st = settingName a"; cases st) auto
  qed
qed simp

lemma sync_flag_table:
  assumes "mget (fg_formal syncFlags) n = Some v"
  shows "plainFlag n" "isBoolFlag v \<longleftrightarrow> n \<notin> set valueFlags"
    "n \<in> {''config'', ''server'', ''code'', ''delete'', ''dry-run'', ''gitignore'', ''retry''}"
proof -
  have "list_all (\<lambda>(n, v). plainFlag n \<and> (isBoolFlag v \<longleftrightarrow> n \<notin> set valueFlags) \<and>
      n \<in> {''config'', ''server'', ''code'', ''delete'', ''dry-run'', ''gitignore'', ''retry''}) (fg_formal syncFlags)"
    by (simp add: syncFlags_def isBoolFlag_def valueFlags_def plainFlag_def)
  moreover have "(n, v) \<in> set (fg_formal syncFlags)"
    using assms by (simp add: mget_def map_of_SomeD)
  ultimately have "case (n, v) of (n, v) \<Rightarrow> plainFlag n \<and> (isBoolFlag v \<longleftrightarrow> n \<notin> set valueFlags) \<and>
      n \<in> {''config'', ''server'', ''code'', ''delete'', ''dry-run'', ''gitignore'', ''retry''}"
    unfolding list_all_iff by (rule bspec)
  then show "plainFlag n" "isBoolFlag v \<longleftrightarrow> n \<notin> set valueFlags"
    "n \<in> {''config'', ''server'', ''code'', ''delete'', ''dry-run'', ''gitignore'', ''retry''}"
    by (simp_all only: prod.case)
qed

lemma sync_settings:
  assumes "applySettings frac sts syncFlags = Some fs"
  shows "list_all skipsAlike sts"
  unfolding list_all_iff
proof
  fix st
  assume "st \<in> set sts"
  then obtain v where v: "mget (fg_formal syncFlags) (settingName st) = Some v"
    "case st of Attached two n t \<Rightarrow> True | Apart two n t \<Rightarrow> \<not> isBoolFlag v | Switch two n \<Rightarrow> isBoolFlag v"
    using setting_kinds [OF assms] by blast
  then show "skipsAlike st"
    using sync_flag_table(1,2) [OF v(1)] by (cases st) (simp_all add: skipsAlike_def)
qed

text \<open>The words that ask for the usage or the sample as the first argument.\<close>

definition specialWords :: "string list" where
  "specialWords = [''example-config'', ''-example-config'', ''--example-config'', ''-h'', ''--help'', ''help'']"

lemma setting_not_special:
  assumes "applySettings frac (st # sts) syncFlags = Some fs"
  shows "hd (settingText st @ rest) \<notin> set specialWords"
proof -
  obtain v where v: "mget (fg_formal syncFlags) (settingName st) = Some v"
    using assms by (rule applySettings_step)
  then show ?thesis
    using sync_flag_table(3) [OF v] by (cases st) (auto simp: specialWords_def dashes_def)
qed

lemma first_not_special:
  assumes "applySettings frac (itemSettings xs @ sts) syncFlags = Some fs" "cmd \<in> set syncCommands"
    and "list_all (\<lambda>p. p \<notin> set specialWords) (itemPositionals xs)"
  shows "hd (itemTexts xs @ cmd # rest) \<notin> set specialWords"
proof (cases xs)
  case Nil
  then show ?thesis
    using assms(2) by (auto simp: syncCommands_def specialWords_def)
next
  case (Cons x ys)
  show ?thesis
  proof (cases x)
    case (Opt st)
    then show ?thesis
      using setting_not_special [of frac st "itemSettings ys @ sts" fs "itemTexts ys @ cmd # rest"] assms(1) Cons by simp
  next
    case (Pos p)
    then show ?thesis
      using assms(3) Cons by simp
  qed
qed

text \<open>A command among its flags and arguments is found, and what is around it is what it gets.\<close>

lemma command_found:
  assumes "cmd \<in> {''push'', ''pull''}"
    and "applySettings frac (itemSettings (xs @ ys)) syncFlags = Some fs"
    and "list_all noFlag (itemPositionals (xs @ ys))"
    and "\<And>p. p \<in> set (itemPositionals xs) \<Longrightarrow> p \<notin> {''serve'', ''push'', ''pull'', ''help'', ''example-config''}"
  shows "syncMain quote (itemTexts xs @ cmd # itemTexts ys) = SyncPass cmd (itemTexts (xs @ ys))"
proof -
  have cmd: "cmd \<in> set syncCommands"
    using assms(1) by (auto simp: syncCommands_def)
  have "list_all (\<lambda>p. noFlag p \<longrightarrow> p \<in> {''help'', ''example-config''}) specialWords"
    by (simp add: specialWords_def noFlag_def)
  then have words: "noFlag p \<longrightarrow> p \<in> {''help'', ''example-config''}" if "p \<in> set specialWords" for p
    using that unfolding list_all_iff by (rule bspec)
  have "noFlag p \<and> p \<notin> set syncCommands \<and> p \<notin> set specialWords" if p: "p \<in> set (itemPositionals xs)" for p
  proof -
    have "noFlag p"
      using assms(3) p by (simp add: list_all_iff)
    moreover have "p \<notin> set syncCommands"
      using assms(4) [OF p] by (simp add: syncCommands_def)
    moreover have "p \<notin> {''help'', ''example-config''}"
      using assms(4) [OF p] by simp
    ultimately show ?thesis
      using words by metis
  qed
  then have before: "list_all (\<lambda>p. noFlag p \<and> p \<notin> set syncCommands) (itemPositionals xs)"
    "list_all (\<lambda>p. p \<notin> set specialWords) (itemPositionals xs)"
    by (simp_all add: list_all_iff)
  have special: "hd (itemTexts xs @ cmd # itemTexts ys) \<notin> set specialWords"
    using first_not_special [OF _ cmd before(2)] assms(2) by simp
  have "splitLoop [] False (itemTexts xs @ cmd # itemTexts ys) = (cmd, itemTexts (xs @ ys))"
    using splitLoop_command [OF _ before(1) cmd, of "itemTexts ys"] sync_settings [OF assms(2)] by simp
  then show ?thesis
    using special assms(1)
    by (cases "itemTexts xs @ cmd # itemTexts ys")
      (auto simp: syncMain_def splitCommand_def specialWords_def simp del: splitLoop.simps)
qed



text \<open>
  The terminator \<open>--\<close> protects the next argument only: the one after it is parsed again, and a name that
  starts with a dash ends the program.
\<close>

lemma terminator_protects_one:
  "syncProgram cliEnv [''push'', ''--'', ''a'', ''-x''] = SyncFinished (Exit 2 ''flag provided but not defined: -x'')"
proof -
  have "parsePositional quote frac syncFlags [''--'', ''a'', ''-x''] =
      Inl (BadFlag ''flag provided but not defined: -x'')" for quote frac
    by (simp add: parsePositional.simps [of _ _ _ "[''--'', ''a'', ''-x'']"] parsePositional.simps [of _ _ _ "[''-x'']"]
        parseFlags.simps parseOne_def noFlag_def cutValue_def syncFlags_def newFlags_def table_lookup)
  moreover have "syncMain (\<lambda>t. t) [''push'', ''--'', ''a'', ''-x''] = SyncPass ''push'' [''--'', ''a'', ''-x'']"
    by (simp add: syncMain_def splitCommand_def syncCommands_def flagName_def hasPrefix_def trimLeftByte_def)
  ultimately show ?thesis
    by (simp add: syncProgram_def cmdSync_def flagExit_def cliEnv_def)
qed

end

