(* ===== verification/Sync_Props.thy ===== *)
theory Sync_Props
  imports Sync_Client Host_App
begin

text \<open>
  Files and their roots: the path check of both programs against what it should let through, what
  relay-sync's host touches, and what its client trusts.
\<close>

section \<open>The path check\<close>

text \<open>
  C10: The path checks, exactly. For a root whose absolute path is known, the tunnel's host and
  relay-sync's agree on every requested path: they follow its elements from the root, \<open>..\<close> going up,
  and let it through as that place exactly if it is the root or below it - except that with the root
  of the file system itself as root nothing below it is let through. A path of ordinary names is
  always let through under any other root, as the root followed by the names.
\<close>

theorem confine_exact:
  assumes "absPath cwd root = Some r" "root \<noteq> []" "cwdOk cwd"
  shows "hostPath cwd root rel = confine cwd root rel \<and>
    confine cwd root rel =
      (let R = pathElems r; W = walkFrom R rel
       in if W = R \<or> (R \<noteq> [] \<and> prefix R W) then Some (rootedPath W) else None) \<and>
    (pathElems r \<noteq> [] \<and> list_all plainElem (splitOn slash rel) \<longrightarrow>
      confine cwd root rel = Some (rootedPath (pathElems r @ splitOn slash rel)))"
  unfolding hostPath_iff [OF assms] confine_iff [OF assms]
  by (simp add: Let_def walkFrom_below)

theorem confine_exact_witness:
  "hostPath None ''/'' ''etc'' = None \<and> confine None ''/srv'' ''a/b'' = Some ''/srv/a/b'' \<and>
   confine None ''/srv'' ''../srv2'' = None"
proof -
  have "absPath None ''/'' = Some (rootedPath [])" "absPath None ''/srv'' = Some (rootedPath [''srv''])" "cwdOk None"
    by (simp_all add: absPath_def isAbs_def hasPrefix_def cleanPath_def cleanElems_def cleanElem.simps rootedPath_def cwdOk_def)
  note 1 = confine_exact [OF this(1) _ this(3), of "''etc''"]
    and 2 = confine_exact [OF this(2) _ this(3), of "''a/b''"]
    and 3 = confine_exact [OF this(2) _ this(3), of "''../srv2''"]
  show ?thesis
    using 1 2 3 by (simp add: pathElems_def walkFrom_def cleanElems_def cleanElem.simps rootedPath_def plainElem_def)
qed

section \<open>What the sync host touches\<close>

definition below :: "string list \<Rightarrow> string \<Rightarrow> bool" where
  "below R p \<longleftrightarrow> (\<exists>W. list_all plainElem W \<and> p = rootedPath W \<and> prefix R W)"

definition syncPermitted :: "string list \<Rightarrow> sync_effect \<Rightarrow> bool" where
  "syncPermitted R e =
     (case e of
        Listed p gitignore \<Rightarrow> below R p
      | OpenedFile p \<Rightarrow> below R p
      | MadeDirs d \<Rightarrow> (\<exists>p. below R p \<and> d = dirPath p)
      | WroteFile p mode content \<Rightarrow> below R p
      | SetTimes p t \<Rightarrow> below R p
      | RemovedAll p \<Rightarrow> below R p \<and> p \<noteq> rootedPath R)"

lemma confine_below:
  "confine cwd (rootedPath R) rel = Some p \<Longrightarrow> list_all plainElem R \<Longrightarrow> cwdOk cwd \<Longrightarrow> below R p"
  unfolding below_def by (rule confine_abs)

lemma handlers_confined:
  assumes "list_all plainElem R" "cwdOk (sw_cwd w)"
  shows "list_all (syncPermitted R) (fst (hostManifest enc w (rootedPath R) req s))"
    "list_all (syncPermitted R) (fst (hostGet enc w (rootedPath R) req s))"
    "list_all (syncPermitted R) (fst (hostPut enc w (rootedPath R) req s))"
    "list_all (syncPermitted R) (fst (hostDelete enc w (rootedPath R) req s))"
  using confine_below [OF _ assms, of "rq_path req"]
  by (auto simp: hostManifest_def hostGet_def hostPut_def hostDelete_def syncPermitted_def Let_def
      split: option.split prod.split)

lemma syncHandle_confined:
  assumes "list_all plainElem R" "cwdOk (sw_cwd w)"
  shows "list_all (syncPermitted R) (fst (syncHandle dec enc w (rootedPath R) s))"
  using handlers_confined [OF assms]
  by (simp add: syncHandle_def split: prod.split sum.split)


definition swWorld :: sync_world where
  "swWorld = \<lparr> sw_missing = (\<lambda>p. False), sw_manifest = (\<lambda>p g. Inr []), sw_open = (\<lambda>p. Inl ''no''),
     sw_mkdir = (\<lambda>p. None), sw_create = (\<lambda>p m. None), sw_disk = (\<lambda>p. None), sw_remove = (\<lambda>p. None), sw_cwd = None \<rparr>"


section \<open>A file pushed\<close>

definition syncOut :: out_stream where
  "syncOut = \<lparr> out_data = [], out_room = None, out_err = [], out_closed = False \<rparr>"

definition syncIn :: "bytes \<Rightarrow> in_stream" where
  "syncIn b = \<lparr> in_data = b, in_end = eof \<rparr>"

definition putRequest :: "local_file \<Rightarrow> string \<Rightarrow> sync_request" where
  "putRequest f path =
     request0\<lparr>rq_op := ''put'', rq_path := path, rq_size := lf_size f, rq_mtime := lf_mtime f, rq_mode := lf_perm f\<rparr>"

lemma putRequest_sel [simp]:
  "rq_op (putRequest f path) = ''put''" "rq_path (putRequest f path) = path"
  "rq_size (putRequest f path) = lf_size f" "rq_mtime (putRequest f path) = lf_mtime f"
  "rq_mode (putRequest f path) = lf_perm f"
  by (simp_all add: putRequest_def)

lemma putFile_sends:
  assumes "enc (putRequest f path) = Inr b" "dx_out s = syncOut" "lf_size f = int (length (lf_content f))"
  shows "putFile enc dec (Inr f) (Inr s) path =
    (plainReply dec (dx_in s), Some (syncOut\<lparr>out_data := frameBytes b @ lf_content f, out_closed := True\<rparr>))"
  using assms
  by (simp add: putFile_def sendRequest_def syncWriteJSON_def writeFrame_def writeLP_open syncOut_def ioCopyN_def
      streamWrite_def streamClose_def putRequest_def Let_def)

lemma syncHandle_put:
  assumes "rdec b = Inr req" "length b \<le> maxFrame" "rq_op req = ''put''" "rq_size req = int (length content)"
    and "dx_in h = syncIn (frameBytes b @ content)" "dx_out h = syncOut"
    and "confine (sw_cwd w) root (rq_path req) = Some p"
    and "sw_mkdir w (dirPath p) = None" "sw_create w p (if rq_mode req = 0 then 420 else unat (rq_mode req)) = None"
    and "sw_disk w p = None" "renc (Reply True []) = Inr rb"
  shows "syncHandle rdec renc w root h =
    ([MadeDirs (dirPath p), WroteFile p (if rq_mode req = 0 then 420 else unat (rq_mode req)) content] @
       (if 0 < rq_mtime req then [SetTimes p (rq_mtime req)] else []),
     \<lparr> dx_in = syncIn [], dx_out = syncOut\<lparr>out_data := frameBytes rb, out_closed := True\<rparr> \<rparr>)"
proof -
  have "readFrame (dx_in h) = (Inr b, syncIn content)"
    using syncf.dec_enc [of b content eof] assms(2,5) by (simp add: syncOk_def syncIn_def)
  then have "syncReadJSON rdec (dx_in h) = (Inr req, syncIn content)"
    using assms(1) by (simp add: syncReadJSON_def)
  moreover have "ioCopyN (int (length content)) (syncIn content) (newFile None) =
      (None, syncIn [], \<lparr> out_data = content, out_room = None, out_err = [], out_closed = False \<rparr>)"
    by (simp add: ioCopyN_def syncIn_def)
  ultimately show ?thesis
    using assms
    by (cases h) (auto simp: syncHandle_def hostPut_def sendReply_def syncWriteJSON_def writeFrame_def writeLP_open
        syncOut_def streamClose_def Let_def)
qed

text \<open>
  A pushed file arrives whole. When the client uploads a local file to a path the host's root lets
  through and nothing on the host's disk fails, the host makes the file's directory, writes exactly the
  local content with the local permission bits (\<open>0644\<close> if there are none) to the path under its root,
  sets the local modification time on it, and the client reads success.
\<close>

lemma pushed_file_arrives:
  assumes "enc (putRequest f path) = Inr b" "rdec b = Inr (putRequest f path)" "length b \<le> maxFrame"
    and "renc (Reply True []) = Inr rb" "rd_plain dec rb = Inr (True, [])" "length rb \<le> maxFrame"
    and "lf_size f = int (length (lf_content f))" "mode = (if lf_perm f = 0 then 420 else unat (lf_perm f))"
    and "confine (sw_cwd w) root path = Some p"
    and "sw_mkdir w (dirPath p) = None" "sw_create w p mode = None" "sw_disk w p = None"
    and "putFile enc dec (Inr f) (Inr s) path = (err, Some out)" "dx_out s = syncOut"
    and "dx_in h = syncIn (out_data out)" "dx_out h = syncOut"
    and "dx_in s = syncIn (out_data (dx_out (snd (syncHandle rdec renc w root h))))"
  shows "fst (syncHandle rdec renc w root h) =
      [MadeDirs (dirPath p), WroteFile p mode (lf_content f)] @ (if 0 < lf_mtime f then [SetTimes p (lf_mtime f)] else []) \<and>
    err = None"
proof -
  have put: "err = plainReply dec (dx_in s)" "out_data out = frameBytes b @ lf_content f"
    using assms(13) putFile_sends [where enc = enc, OF assms(1,14,7), of dec] by auto
  have "syncHandle rdec renc w root h =
      ([MadeDirs (dirPath p), WroteFile p mode (lf_content f)] @ (if 0 < lf_mtime f then [SetTimes p (lf_mtime f)] else []),
       \<lparr> dx_in = syncIn [], dx_out = syncOut\<lparr>out_data := frameBytes rb, out_closed := True\<rparr> \<rparr>)"
    using syncHandle_put [where rdec = rdec and req = "putRequest f path" and content = "lf_content f" and h = h
        and renc = renc and root = root and w = w and p = p and rb = rb, OF assms(2,3), unfolded putRequest_sel]
      assms(4,7-12,15,16) put(2)
    by simp
  moreover from this have "plainReply dec (dx_in s) = None"
    using assms(5,6,17) syncf.dec_enc [of rb "[]" eof]
    by (simp add: plainReply_def syncReadJSON_def syncIn_def syncOk_def)
  ultimately show ?thesis
    using put(1) by simp
qed

definition pushFile :: local_file where
  "pushFile = \<lparr> lf_content = ''data'', lf_size = 4, lf_mtime = 9, lf_perm = 0 \<rparr>"

lemma pushed_file_arrives_witness:
  "\<exists>h. fst (syncHandle (\<lambda>b. Inr (putRequest pushFile ''f'')) (\<lambda>r. Inr ''ok'') swWorld ''/srv'' h) =
     [MadeDirs ''/srv'', WroteFile ''/srv/f'' 420 ''data'', SetTimes ''/srv/f'' 9]"
proof -
  let ?rdec = "\<lambda>b :: bytes. Inr (putRequest pushFile ''f'') :: string + sync_request"
  let ?renc = "\<lambda>r :: sync_reply. Inr ''ok'' :: string + bytes"
  let ?enc = "\<lambda>r :: sync_request. Inr ''q'' :: string + bytes"
  let ?dec = "\<lparr> rd_manifest = (\<lambda>b. Inl []), rd_get = (\<lambda>b. Inl []), rd_plain = (\<lambda>b. Inr (True, [])) \<rparr>"
  let ?h = "\<lparr> dx_in = syncIn (frameBytes ''q'' @ ''data''), dx_out = syncOut \<rparr>"
  let ?s = "\<lparr> dx_in = syncIn (frameBytes ''ok''), dx_out = syncOut \<rparr>"
  have path: "confine (sw_cwd swWorld) ''/srv'' ''f'' = Some ''/srv/f''" "dirPath ''/srv/f'' = ''/srv''"
    by (simp_all add: confine_def swWorld_def gopath_defs cleanElem.simps hasPrefix_def Let_def)
  have put: "putFile ?enc ?dec (Inr pushFile) (Inr ?s) ''f'' =
      (plainReply ?dec (dx_in ?s), Some (syncOut\<lparr>out_data := frameBytes ''q'' @ ''data'', out_closed := True\<rparr>))"
    using putFile_sends [of ?enc pushFile "''f''" "''q''" ?s ?dec] by (simp add: pushFile_def)
  have host: "snd (syncHandle ?rdec ?renc swWorld ''/srv'' ?h) =
      \<lparr> dx_in = syncIn [], dx_out = syncOut\<lparr>out_data := frameBytes ''ok'', out_closed := True\<rparr> \<rparr>"
    using syncHandle_put [where rdec = ?rdec and req = "putRequest pushFile ''f''" and b = "''q''" and h = ?h
        and content = "''data''" and p = "''/srv/f''" and w = swWorld and root = "''/srv''" and renc = ?renc
        and rb = "''ok''"] path
    by (simp add: pushFile_def maxFrame_def swWorld_def)
  have reply: "dx_in ?s = syncIn (out_data (dx_out (snd (syncHandle ?rdec ?renc swWorld ''/srv'' ?h))))"
    unfolding host by simp
  have len: "length ''q'' \<le> maxFrame" "length ''ok'' \<le> maxFrame"
    by (simp_all add: maxFrame_def)
  have "fst (syncHandle ?rdec ?renc swWorld ''/srv'' ?h) =
      [MadeDirs (dirPath ''/srv/f''), WroteFile ''/srv/f'' 420 (lf_content pushFile)] @
        (if 0 < lf_mtime pushFile then [SetTimes ''/srv/f'' (lf_mtime pushFile)] else []) \<and>
      plainReply ?dec (dx_in ?s) = None"
    by (rule pushed_file_arrives [OF _ _ len(1) _ _ len(2) _ _ path(1) _ _ _ put _ _ _ reply])
      (simp_all add: pushFile_def swWorld_def)
  then show ?thesis
    by (intro exI [of _ ?h]) (simp add: pushFile_def path(2))
qed

section \<open>What the client trusts\<close>

text \<open>
  A pull writes where the host's manifest says, inside the local directory or not: for any
  absolute local directory and any path the host lists that the client does not have, the pull writes
  the place reached by following that path's elements, so a listed \<open>../x\<close> lands beside the directory.
\<close>

lemma pull_follows_host_paths:
  assumes "isAbs localDir" "manifestOf locals (en_path e) = None" "so_dryRun opts = False"
  shows "\<exists>remotePath t. snd (pull (Inr locals) (Inr [e]) (\<lambda>c. None) remoteDir localDir opts) =
     GetFile remotePath (rootedPath (walkFrom (pathElems localDir) (en_path e))) t #
       map DeleteLocal (if so_del opts then map (joinPath localDir) (sort (map en_path locals)) else [])"
proof -
  have all: "snd (runCalls (\<lambda>c. None) cs) = cs" for cs
    by (induction cs) simp_all
  have ne: "en_path d \<noteq> en_path e" if "d \<in> set locals" for d
    using assms(2) that unfolding manifestOf_None by (metis image_eqI)
  then have "filter (\<lambda>d. en_path d \<notin> en_path ` set [e]) locals = locals"
    by (simp add: filter_id_conv)
  then have "planSync [e] locals (so_del opts) =
      copyOf (en_path e) # map deleteOf (if so_del opts then sort (map en_path locals) else [])"
    using assms(2) by (auto simp: planSync_paths)
  then show ?thesis
    using assms(1,3) by (auto simp: pull_def Let_def all pullCall_def copyOf_def deleteOf_def joinPath_abs comp_def)
qed

lemma pull_follows_host_paths_witness:
  "\<exists>remotePath t. snd (pull (Inr []) (Inr [\<lparr> en_path = ''../x'', en_size = 1, en_mtime = 1 \<rparr>]) (\<lambda>c. None) ''r'' ''/home/d''
     \<lparr> so_del = False, so_dryRun = False, so_gitignore = False \<rparr>) = [GetFile remotePath ''/home/x'' t]"
  using pull_follows_host_paths [of "''/home/d''" "[]" "\<lparr> en_path = ''../x'', en_size = 1, en_mtime = 1 \<rparr>"
      "\<lparr> so_del = False, so_dryRun = False, so_gitignore = False \<rparr>" "''r''"]
  by (simp add: isAbs_def hasPrefix_def manifestOf_find pathElems_def walkFrom_def cleanElems_def cleanElem.simps rootedPath_def)

end
