(* ===== verification/Sessions.thy ===== *)
theory Sessions
  imports Transport Tunnel_Props Sync_Cli Sync_Props
begin

text \<open>
  Rendezvous, transport and application put together: one round of a tunnel's host (\<open>hostOnce\<close> in
  \<open>cmd/relay-tunnel/main.go\<close>), the connection of its client (the \<open>dial\<close> of \<open>runConnect\<close>), and the
  same for relay-sync (\<open>serve\<close>, \<open>serveOnce\<close> in \<open>host.go\<close>, \<open>dialClient\<close> in \<open>client.go\<close>, the pass of
  \<open>main.go\<close>). A QUIC connection is of any type; \<open>streams\<close> says what accepting on it gives. A result
  of nothing means that the rendezvous has not returned.
\<close>

section \<open>The tunnel\<close>

definition hostOnce ::
  "resolver \<Rightarrow> 'c quic_listener \<Rightarrow> ('c \<Rightarrow> (string + duplex) list) \<Rightarrow> unmarshaller \<Rightarrow> host_world \<Rightarrow> bytes list \<Rightarrow>
     host_policy \<Rightarrow> dial_params \<Rightarrow> dial_world \<Rightarrow> (string option \<times> host_effect list) option" where
  "hostOnce resolve quic streams unmarshal w certs pol p dw =
     (case fst (dial resolve p dw) of
        None \<Rightarrow> None
      | Some (Inl e) \<Rightarrow> Some (Some e, [])
      | Some (Inr sess) \<Rightarrow>
          (case transportListen quic certs of
             Inl e \<Rightarrow> Some (Some e, [])
           | Inr conn \<Rightarrow> Some (serveHost unmarshal w pol (streams conn))))"

text \<open>
  Rounds without an end, as both hosts run them: a round is whether the context was done before it, what
  it finds, and whether the context was done after it. The result is what the rounds did.
\<close>

fun serveRounds ::
  "('r \<Rightarrow> (string option \<times> 'e list) option) \<Rightarrow> (bool \<times> 'r \<times> bool) list \<Rightarrow> 'e list" where
  "serveRounds once [] = []"
| "serveRounds once ((doneBefore, r, doneAfter) # rest) =
     (if doneBefore then []
      else
        (case once r of
           None \<Rightarrow> []
         | Some (e, effects) \<Rightarrow> effects @ (if doneAfter then [] else serveRounds once rest)))"

text \<open>\<open>runExpose\<close>: its errors, or what its rounds did; \<open>random\<close> is what a new code is made of.\<close>

definition runExpose ::
  "resolver \<Rightarrow> 'c quic_listener \<Rightarrow> ('c \<Rightarrow> (string + duplex) list) \<Rightarrow> unmarshaller \<Rightarrow> bytes \<Rightarrow>
     string + bytes list \<times> string \<Rightarrow> expose_args \<Rightarrow> (bool \<times> (dial_world \<times> host_world) \<times> bool) list \<Rightarrow>
     string option \<times> host_effect list" where
  "runExpose resolve quic streams unmarshal random cert a rounds =
     (if ea_server a = [] then (Some ''expose: server is required (flag or config)'', [])
      else
        (let code = (if ea_code a = [] then newCode random else ea_code a)
         in (case cert of
               Inl e \<Rightarrow> (Some (''cert: '' @ e), [])
             | Inr (certs, fp) \<Rightarrow>
                 (None, serveRounds (\<lambda>(dw, w). hostOnce resolve quic streams unmarshal w certs (ea_policy a)
                    (hostParams code (ea_name a) fp) dw) rounds))))"

definition clientConnect ::
  "string \<Rightarrow> resolver \<Rightarrow> (bytes \<Rightarrow> bytes) \<Rightarrow> 'c quic_dialer \<Rightarrow> dial_params \<Rightarrow> dial_world \<Rightarrow> (string + 'c) option" where
  "clientConnect what resolve sha quic p dw =
     (case fst (dial resolve p dw) of
        None \<Rightarrow> None
      | Some (Inl e) \<Rightarrow> Some (Inl (''rendezvous: '' @ e))
      | Some (Inr sess) \<Rightarrow>
          (case transportDial sha quic sess of
             Inl e \<Rightarrow> Some (Inl (what @ e))
           | Inr conn \<Rightarrow> Some (Inr conn)))"

definition tunnelDial ::
  "resolver \<Rightarrow> (bytes \<Rightarrow> bytes) \<Rightarrow> 'c quic_dialer \<Rightarrow> dial_params \<Rightarrow> dial_world \<Rightarrow> (string + 'c) option" where
  "tunnelDial resolve sha quic p dw = clientConnect ''quic dial: '' resolve sha quic p dw"

section \<open>relay-sync\<close>

definition syncHostParams :: "string \<Rightarrow> string \<Rightarrow> dial_params" where
  "syncHostParams code fp =
     \<lparr> dp_code = code, dp_role = roleHost, dp_name = [], dp_fp = fp, dp_punchTimeout = 0 \<rparr>"

definition syncClientParams :: "string \<Rightarrow> dial_params" where
  "syncClientParams code =
     \<lparr> dp_code = code, dp_role = roleClient, dp_name = [], dp_fp = [], dp_punchTimeout = 0 \<rparr>"

fun serveStreams ::
  "(bytes \<Rightarrow> string + sync_request) \<Rightarrow> reply_enc \<Rightarrow> sync_world \<Rightarrow> string \<Rightarrow> (string + duplex) list \<Rightarrow>
     string option \<times> sync_effect list" where
  "serveStreams dec enc w root [] = (None, [])"
| "serveStreams dec enc w root (Inl e # rest) = (Some e, [])"
| "serveStreams dec enc w root (Inr s # rest) =
     apsnd (append (fst (syncHandle dec enc w root s))) (serveStreams dec enc w root rest)"

definition serveOnce ::
  "resolver \<Rightarrow> 'c quic_listener \<Rightarrow> ('c \<Rightarrow> (string + duplex) list) \<Rightarrow> (bytes \<Rightarrow> string + sync_request) \<Rightarrow> reply_enc \<Rightarrow>
     sync_world \<Rightarrow> string \<Rightarrow> bytes list \<Rightarrow> string \<Rightarrow> string \<Rightarrow> dial_world \<Rightarrow> (string option \<times> sync_effect list) option" where
  "serveOnce resolve quic streams dec enc w code certs fp root dw =
     (case fst (dial resolve (syncHostParams code fp) dw) of
        None \<Rightarrow> None
      | Some (Inl e) \<Rightarrow> Some (Some e, [])
      | Some (Inr sess) \<Rightarrow>
          (case transportListen quic certs of
             Inl e \<Rightarrow> Some (Some e, [])
           | Inr conn \<Rightarrow> Some (serveStreams dec enc w root (streams conn))))"

text \<open>
  \<open>serve\<close>: its errors, or the effects of its rounds. The working directory is given, or the error of
  finding it; that is when no absolute path can be had.
\<close>

definition workDir :: "string + string \<Rightarrow> string option" where
  "workDir cwd = (case cwd of Inl e \<Rightarrow> None | Inr d \<Rightarrow> Some d)"

definition serveSync ::
  "(string \<Rightarrow> string) \<Rightarrow> resolver \<Rightarrow> 'c quic_listener \<Rightarrow> ('c \<Rightarrow> (string + duplex) list) \<Rightarrow>
     (bytes \<Rightarrow> string + sync_request) \<Rightarrow> reply_enc \<Rightarrow> string + string \<Rightarrow> (string \<Rightarrow> bool) \<Rightarrow> string + bytes list \<times> string \<Rightarrow> string \<Rightarrow> string \<Rightarrow>
     (bool \<times> (dial_world \<times> sync_world) \<times> bool) list \<Rightarrow> string option \<times> sync_effect list" where
  "serveSync quote resolve quic streams dec enc cwd isDir cert code root rounds =
     (case absPath (workDir cwd) root of
        None \<Rightarrow> (case cwd of Inl e \<Rightarrow> Some e | Inr d \<Rightarrow> None, [])
      | Some absRoot \<Rightarrow>
          if \<not> isDir absRoot then (Some (''serve root '' @ quote root @ '' is not a directory''), [])
          else
            (case cert of
               Inl e \<Rightarrow> (Some (''cert: '' @ e), [])
             | Inr (certs, fp) \<Rightarrow>
                 (None, serveRounds (\<lambda>(dw, w). serveOnce resolve quic streams dec enc w code certs fp absRoot dw) rounds)))"

definition dialClient ::
  "resolver \<Rightarrow> (bytes \<Rightarrow> bytes) \<Rightarrow> 'c quic_dialer \<Rightarrow> string \<Rightarrow> dial_world \<Rightarrow> (string + 'c) option" where
  "dialClient resolve sha quic code dw = clientConnect ''connect: '' resolve sha quic (syncClientParams code) dw"

text \<open>One pass: the manifests and calls over the connection are given by functions of it.\<close>

definition syncPass ::
  "(string + 'c) option \<Rightarrow> string + entry list \<Rightarrow> ('c \<Rightarrow> string + entry list) \<Rightarrow> ('c \<Rightarrow> call_result) \<Rightarrow>
     string \<Rightarrow> string \<Rightarrow> string \<Rightarrow> sync_opts \<Rightarrow> (string option \<times> sync_call list) option" where
  "syncPass conn localScan remoteScan res direction a b opts =
     (case conn of
        None \<Rightarrow> None
      | Some (Inl e) \<Rightarrow> Some (Some e, [])
      | Some (Inr c) \<Rightarrow>
          Some (if direction = ''push'' then push localScan (remoteScan c) (res c) a b opts
                else pull localScan (remoteScan c) (res c) a b opts))"

lemmas session_defs [go_defs] =
  hostOnce_def runExpose_def clientConnect_def tunnelDial_def syncHostParams_def syncClientParams_def serveOnce_def workDir_def
  serveSync_def dialClient_def syncPass_def

section \<open>What carries over\<close>

lemma hostOnce_permitted:
  assumes "cwdOk (hw_cwd w)" "hp_fileRoot pol \<noteq> [] \<Longrightarrow> absPath (hw_cwd w) (hp_fileRoot pol) \<noteq> None"
    and "hostOnce resolve quic streams unmarshal w certs pol p dw = Some (e, effects)"
  shows "list_all (permitted pol (hw_cwd w)) effects"
  using assms(3) serveHost_permitted [OF assms(1,2), of unmarshal]
  by (auto simp: hostOnce_def split: option.splits sum.splits) (metis snd_conv)

lemma serveRounds_all:
  assumes "\<forall>(b, r, a) \<in> set rounds. \<forall>e es. once r = Some (e, es) \<longrightarrow> list_all P es"
  shows "list_all P (serveRounds once rounds)"
  using assms
proof (induction rounds)
  case (Cons x rest)
  then show ?case
    by (cases x) (auto split: option.splits)
qed simp

lemma runExpose_permitted:
  assumes "\<forall>(b, (dw, w), a') \<in> set rounds. hw_cwd w = cwd" "cwdOk cwd"
    and "hp_fileRoot (ea_policy a) \<noteq> [] \<Longrightarrow> absPath cwd (hp_fileRoot (ea_policy a)) \<noteq> None"
  shows "list_all (permitted (ea_policy a) cwd)
    (snd (runExpose resolve quic streams unmarshal random cert a rounds))"
proof -
  have "list_all (permitted (ea_policy a) cwd) (serveRounds (\<lambda>(dw, w). hostOnce resolve quic streams unmarshal w certs
      (ea_policy a) p dw) rounds)" for certs p
    using assms(1) hostOnce_permitted [of _ "ea_policy a" resolve quic streams unmarshal certs p] assms(2,3)
    by (intro serveRounds_all) fastforce
  then show ?thesis
    by (simp add: runExpose_def Let_def split: sum.split)
qed

lemma serveStreams_confined:
  assumes "list_all plainElem R" "cwdOk (sw_cwd w)"
  shows "list_all (syncPermitted R) (snd (serveStreams dec enc w (rootedPath R) streams))"
proof (induction streams)
  case (Cons x rest)
  then show ?case
    using syncHandle_confined [OF assms] by (cases x) simp_all
qed simp

text \<open>A whole run of relay-sync's host, over any rounds and streams, stays below its directory.\<close>

lemma serveSync_confined:
  assumes "absPath (workDir cwd) root = Some (rootedPath R)" "list_all plainElem R"
    and "\<forall>(b, (dw, w), a) \<in> set rounds. cwdOk (sw_cwd w)"
  shows "list_all (syncPermitted R) (snd (serveSync quote resolve quic streams dec enc cwd isDir cert code root rounds))"
proof -
  have once: "list_all (syncPermitted R) es"
    if "serveOnce resolve quic streams dec enc w code certs fp (rootedPath R) dw = Some (e, es)" "cwdOk (sw_cwd w)"
    for w certs fp dw e es
    using that(1) serveStreams_confined [OF assms(2) that(2), of dec enc]
    by (auto simp: serveOnce_def split: option.splits sum.splits) (metis snd_conv)
  have "list_all (syncPermitted R)
      (serveRounds (\<lambda>(dw, w). serveOnce resolve quic streams dec enc w code certs fp (rootedPath R) dw) rounds)" for certs fp
    using assms(3) once by (intro serveRounds_all) fastforce
  then show ?thesis
    using assms(1) by (auto simp: serveSync_def split: sum.splits)
qed

text \<open>Both clients dial with the transport's pin.\<close>

lemma clientConnect_pinned:
  assumes "clientConnect what resolve sha quic p dw = Some (Inr c)"
    and "\<forall>a proto verify c. quic a proto verify = Inr c \<longrightarrow> verify (presented c) = None"
  shows "\<exists>sess leaf rest. fst (dial resolve p dw) = Some (Inr sess) \<and> presented c = leaf # rest \<and>
    ds_fp sess = fingerprint sha leaf"
proof -
  obtain sess where s: "fst (dial resolve p dw) = Some (Inr sess)" "transportDial sha quic sess = Inr c"
    using assms(1) by (auto simp: clientConnect_def split: option.splits sum.splits)
  then have "verifyPinned sha (ds_fp sess) (presented c) = None"
    using assms(2) by (auto simp: transportDial_def split: if_splits)
  then show ?thesis
    using s(1) unfolding verifyPinned_None fingerprint_def by blast
qed

end
