(* ===== verification/Gitignore.thy ===== *)
theory Gitignore
  imports Go_Text Go_Path
begin

text \<open>
  The .gitignore matcher (\<open>examples/relay-sync/gitignore.go\<close>): lines to rules, globs to regular
  expressions, and which rule decides. Go's regular expressions are modelled for the expressions
  \<open>globToRegex\<close> builds: an anchored sequence of literals, classes without the slash, and stars. They
  are matched against the runes of a name, an ill-formed byte counting as \<open>RuneError\<close>.
\<close>

section \<open>From glob to regular expression\<close>

definition regexSpecial :: "char \<Rightarrow> bool" where
  "regexSpecial c \<longleftrightarrow> c \<in> set ''.+()|^$[]{}'' \<or> c = CHR 0x5C"

fun globBody :: "string \<Rightarrow> string" where
  "globBody [] = []"
| "globBody (c # g) =
     (if c = CHR ''*'' then
        (if hasPrefix g ''*'' then
           (if hasPrefix g ''*/'' then ''(?:.*/)?'' @ globBody (drop 2 g)
            else ''.*'' @ globBody (drop 1 g))
         else ''[^/]*'' @ globBody g)
      else if c = CHR ''?'' then ''[^/]'' @ globBody g
      else if c = slash then ''/'' @ globBody g
      else (if regexSpecial c then [CHR 0x5C, c] else [c]) @ globBody g)"

definition globToRegex :: "string \<Rightarrow> string" where
  "globToRegex glob = ''^'' @ globBody glob @ ''$''"

section \<open>The regular expressions\<close>

text \<open>The items of such an expression, in the order they are written.\<close>

datatype re_item = Lit nat | NonSlash | NonSlashes | Anything | Dirs

definition asRunes :: "string \<Rightarrow> nat list" where
  "asRunes s = map of_char s"

definition stripRunes :: "string \<Rightarrow> nat list \<Rightarrow> nat list option" where
  "stripRunes p rs = (if take (length p) rs = asRunes p then Some (drop (length p) rs) else None)"

lemma stripRunes_shorter: "stripRunes p rs = Some rs' \<Longrightarrow> p \<noteq> [] \<Longrightarrow> length rs' < length rs"
proof -
  assume s: "stripRunes p rs = Some rs'" and "p \<noteq> []"
  then have "take (length p) rs = asRunes p" "rs' = drop (length p) rs"
    by (auto simp: stripRunes_def split: if_splits)
  with \<open>p \<noteq> []\<close> show ?thesis
    by (cases rs) (auto simp: asRunes_def)
qed

function reItems :: "nat list \<Rightarrow> re_item list" where
  "reItems rs =
     (case stripRunes ''(?:.*/)?'' rs of Some rest \<Rightarrow> Dirs # reItems rest
      | None \<Rightarrow>
        (case stripRunes ''.*'' rs of Some rest \<Rightarrow> Anything # reItems rest
         | None \<Rightarrow>
           (case stripRunes ''[^/]*'' rs of Some rest \<Rightarrow> NonSlashes # reItems rest
            | None \<Rightarrow>
              (case stripRunes ''[^/]'' rs of Some rest \<Rightarrow> NonSlash # reItems rest
               | None \<Rightarrow>
                 (case rs of
                    [] \<Rightarrow> []
                  | r # rest \<Rightarrow>
                      if r = 0x24 \<and> rest = [] then []
                      else if r = 0x5C then
                        (case rest of [] \<Rightarrow> [] | q # rest' \<Rightarrow> Lit q # reItems rest')
                      else Lit r # reItems rest)))))"
  by pat_completeness auto
termination
  by (relation "measure length") (auto dest: stripRunes_shorter)

declare reItems.simps [simp del]

text \<open>Compiling fails exactly when the source is not well-formed UTF-8.\<close>

definition validUtf8 :: "string \<Rightarrow> bool" where
  "validUtf8 s \<longleftrightarrow> list_all (\<lambda>(r, b). \<not> (r = runeError \<and> length b = 1)) (spans s)"

definition regexCompile :: "string \<Rightarrow> re_item list option" where
  "regexCompile src = (if validUtf8 src then Some (reItems (drop 1 (runes src))) else None)"

fun itemWeight :: "re_item \<Rightarrow> nat" where
  "itemWeight Dirs = 3"
| "itemWeight _ = 1"

text \<open>Matching the whole text; \<open>.\<close> does not match a line break, a negated class does.\<close>

function reMatch :: "re_item list \<Rightarrow> nat list \<Rightarrow> bool" where
  "reMatch [] s = (s = [])"
| "reMatch (Lit c # ts) s = (case s of [] \<Rightarrow> False | x # s' \<Rightarrow> x = c \<and> reMatch ts s')"
| "reMatch (NonSlash # ts) s = (case s of [] \<Rightarrow> False | x # s' \<Rightarrow> x \<noteq> 0x2F \<and> reMatch ts s')"
| "reMatch (NonSlashes # ts) s =
     (reMatch ts s \<or> (case s of [] \<Rightarrow> False | x # s' \<Rightarrow> x \<noteq> 0x2F \<and> reMatch (NonSlashes # ts) s'))"
| "reMatch (Anything # ts) s =
     (reMatch ts s \<or> (case s of [] \<Rightarrow> False | x # s' \<Rightarrow> x \<noteq> 0x0A \<and> reMatch (Anything # ts) s'))"
| "reMatch (Dirs # ts) s = (reMatch ts s \<or> reMatch (Anything # Lit 0x2F # ts) s)"
  by pat_completeness auto
termination
  by (relation "measure (\<lambda>(ts, s). sum_list (map itemWeight ts) + length s)") auto

section \<open>Rules\<close>

record ignore_rule =
  ir_base :: string
  ir_negate :: bool
  ir_dirOnly :: bool
  ir_anchored :: bool
  ir_re :: "re_item list"

text \<open>A line that is no rule, one whose compilation panics, and one that is a rule.\<close>

datatype compiled = NoRule | CompilePanic | Rule ignore_rule

text \<open>A line as negation, directories only, anchored, and the glob; nothing for a line that is no rule.\<close>

definition parseIgnoreLine :: "string \<Rightarrow> (bool \<times> bool \<times> bool \<times> string) option" where
  "parseIgnoreLine line =
     (let l1 = trimRightByte (CHR 0x0D) line
      in if l1 = [] \<or> hasPrefix l1 ''#'' then None
         else
           let l2 = trimRightByte (CHR '' '') l1
           in if l2 = [] then None
              else
                let negate = hasPrefix l2 ''!'';
                    l3 = (if negate then drop 1 l2 else l2);
                    l4 = (if hasPrefix l3 [CHR 0x5C, CHR ''#''] \<or> hasPrefix l3 [CHR 0x5C, CHR ''!''] then drop 1 l3 else l3);
                    dirOnly = hasSuffix l4 ''/'';
                    l5 = (if dirOnly then trimSuffix l4 ''/'' else l4);
                    anchored = (slash \<in> set l5);
                    l6 = trimPrefix l5 ''/''
                in if l6 = [] then None else Some (negate, dirOnly, anchored, l6))"

definition compileIgnoreLine :: "string \<Rightarrow> string \<Rightarrow> compiled" where
  "compileIgnoreLine line base =
     (case parseIgnoreLine line of
        None \<Rightarrow> NoRule
      | Some (negate, dirOnly, anchored, glob) \<Rightarrow>
          (case regexCompile (globToRegex glob) of
             None \<Rightarrow> CompilePanic
           | Some re \<Rightarrow>
               Rule \<lparr> ir_base = base, ir_negate = negate, ir_dirOnly = dirOnly,
                      ir_anchored = anchored, ir_re = re \<rparr>))"

definition ruleMatches :: "ignore_rule \<Rightarrow> string \<Rightarrow> bool \<Rightarrow> bool" where
  "ruleMatches r rel isDir =
     (if ir_dirOnly r \<and> \<not> isDir then False
      else if ir_base r \<noteq> [] \<and> \<not> hasPrefix rel (ir_base r @ ''/'') then False
      else
        let sub = (if ir_base r = [] then rel else drop (length (ir_base r) + 1) rel)
        in if ir_anchored r then reMatch (ir_re r) (runes sub)
           else reMatch (ir_re r) (runes (basePath sub)))"

definition isIgnored :: "ignore_rule list \<Rightarrow> string \<Rightarrow> bool \<Rightarrow> bool" where
  "isIgnored rules rel isDir =
     fold (\<lambda>r ignored. if ruleMatches r rel isDir then \<not> ir_negate r else ignored) rules False"

text \<open>
  \<open>loadIgnoreRules\<close> on a file's content: \<open>bufio.Scanner\<close> cuts it into lines, without their ends, and
  gives up at a line that does not fit its buffer. The result is the rules with the error, or nothing
  after a panic.
\<close>

fun scanLines :: "string list \<Rightarrow> string list \<times> string option" where
  "scanLines [] = ([], None)"
| "scanLines [l] = (if l = [] then ([], None) else if 65536 \<le> length l then ([], Some ''token too long'')
                    else ([trimSuffix l [CHR 0x0D]], None))"
| "scanLines (l # k # ls) =
     (if 65536 \<le> length l then ([], Some ''token too long'') else apfst (Cons (trimSuffix l [CHR 0x0D])) (scanLines (k # ls)))"

fun compileLines :: "string \<Rightarrow> string list \<Rightarrow> ignore_rule list option" where
  "compileLines base [] = Some []"
| "compileLines base (l # ls) =
     (case compileIgnoreLine l base of
        CompilePanic \<Rightarrow> None
      | NoRule \<Rightarrow> compileLines base ls
      | Rule r \<Rightarrow> map_option (Cons r) (compileLines base ls))"

text \<open>
  The file is missing (\<open>None\<close>), cannot be opened or read (\<open>Inl\<close>), or has some content. A rule list
  that comes with an error is not used.
\<close>

definition loadIgnoreRules :: "(string + bytes) option \<Rightarrow> string \<Rightarrow> (string + ignore_rule list) option" where
  "loadIgnoreRules file baseRel =
     (case file of
        None \<Rightarrow> Some (Inr [])
      | Some (Inl e) \<Rightarrow> Some (Inl e)
      | Some (Inr content) \<Rightarrow>
          (let (ls, err) = scanLines (splitOn (CHR 0x0A) content)
           in (case compileLines baseRel ls of
                 None \<Rightarrow> None
               | Some rules \<Rightarrow> Some (case err of None \<Rightarrow> Inr rules | Some e \<Rightarrow> Inl e))))"

lemmas gitignore_defs [go_defs] =
  regexSpecial_def globToRegex_def asRunes_def stripRunes_def validUtf8_def regexCompile_def
  parseIgnoreLine_def compileIgnoreLine_def ruleMatches_def isIgnored_def loadIgnoreRules_def

section \<open>What a glob means\<close>

text \<open>
  A name as runes against a glob: \<open>*\<close> is any run without a slash, \<open>?\<close> one rune that is no slash,
  \<open>**/\<close> nothing or any directories, other \<open>**\<close> anything, everything else itself. Directories and
  anything do not span a line break.
\<close>

inductive globMatches :: "nat list \<Rightarrow> nat list \<Rightarrow> bool" where
  gm_done: "globMatches [] []"
| gm_no_dirs: "globMatches g s \<Longrightarrow> globMatches (0x2A # 0x2A # 0x2F # g) s"
| gm_dirs: "globMatches g s \<Longrightarrow> 0x0A \<notin> set u \<Longrightarrow> globMatches (0x2A # 0x2A # 0x2F # g) (u @ 0x2F # s)"
| gm_any: "globMatches g s \<Longrightarrow> 0x0A \<notin> set u \<Longrightarrow> take 1 g \<noteq> [0x2F] \<Longrightarrow> globMatches (0x2A # 0x2A # g) (u @ s)"
| gm_star: "globMatches g s \<Longrightarrow> 0x2F \<notin> set u \<Longrightarrow> take 1 g \<noteq> [0x2A] \<Longrightarrow> globMatches (0x2A # g) (u @ s)"
| gm_one: "globMatches g s \<Longrightarrow> x \<noteq> 0x2F \<Longrightarrow> globMatches (0x3F # g) (x # s)"
| gm_lit: "globMatches g s \<Longrightarrow> c \<noteq> 0x2A \<Longrightarrow> c \<noteq> 0x3F \<Longrightarrow> globMatches (c # g) (c # s)"

text \<open>The items a glob stands for.\<close>

fun globItems :: "nat list \<Rightarrow> re_item list" where
  "globItems [] = []"
| "globItems (c # g) =
     (if c = 0x2A then
        (if take 1 g = [0x2A] then
           (if take 2 g = [0x2A, 0x2F] then Dirs # globItems (drop 2 g) else Anything # globItems (drop 1 g))
         else NonSlashes # globItems g)
      else if c = 0x3F then NonSlash # globItems g
      else Lit c # globItems g)"

subsection \<open>Matching items\<close>

lemma run_Cons:
  "(\<exists>u v. x # s = u @ v \<and> c \<notin> set u \<and> P v) \<longleftrightarrow>
     P (x # s) \<or> (x \<noteq> c \<and> (\<exists>u v. s = u @ v \<and> c \<notin> set u \<and> P v))"  (is "?L \<longleftrightarrow> ?R")
proof
  assume ?L
  then obtain u v where uv: "x # s = u @ v" "c \<notin> set u" "P v"
    by blast
  then show ?R
    by (cases u) auto
next
  assume ?R
  then show ?L
  proof
    assume "P (x # s)"
    then show ?L by (intro exI [of _ "[]"] exI [of _ "x # s"]) simp
  next
    assume "x \<noteq> c \<and> (\<exists>u v. s = u @ v \<and> c \<notin> set u \<and> P v)"
    then obtain u v where "x \<noteq> c" "s = u @ v" "c \<notin> set u" "P v"
      by blast
    then show ?L by (intro exI [of _ "x # u"] exI [of _ v]) simp
  qed
qed

lemma reMatch_NonSlashes:
  "reMatch (NonSlashes # ts) s \<longleftrightarrow> (\<exists>u v. s = u @ v \<and> 0x2F \<notin> set u \<and> reMatch ts v)"
  by (induction s) (simp_all add: run_Cons)

lemma reMatch_Anything:
  "reMatch (Anything # ts) s \<longleftrightarrow> (\<exists>u v. s = u @ v \<and> 0x0A \<notin> set u \<and> reMatch ts v)"
  by (induction s) (simp_all add: run_Cons)

lemma reMatch_Dirs:
  "reMatch (Dirs # ts) s \<longleftrightarrow> reMatch ts s \<or> (\<exists>u v. s = u @ 0x2F # v \<and> 0x0A \<notin> set u \<and> reMatch ts v)"
proof -
  have "reMatch (Lit 0x2F # ts) v \<longleftrightarrow> (\<exists>v'. v = 0x2F # v' \<and> reMatch ts v')" for v
    by (cases v) auto
  then show ?thesis
    unfolding reMatch.simps(6) reMatch_Anything by blast
qed

lemmas reMatch_items = reMatch.simps(1,2,3) reMatch_NonSlashes reMatch_Anything reMatch_Dirs

lemma reMatch_globItems: "reMatch (globItems g) s \<longleftrightarrow> globMatches g s"
proof
  show "globMatches g s \<Longrightarrow> reMatch (globItems g) s"
  proof (induction rule: globMatches.induct)
    case (gm_any g s u)
    then have "take 2 (0x2A # g) \<noteq> [0x2A, 0x2F]" by (cases g) auto
    with gm_any show ?case by (auto simp: reMatch_Anything simp del: reMatch.simps(5))
  qed (auto simp: reMatch_NonSlashes reMatch_Dirs simp del: reMatch.simps(4-6))
  show "reMatch (globItems g) s \<Longrightarrow> globMatches g s"
  proof (induction g arbitrary: s rule: globItems.induct)
    case 1
    then show ?case by (auto intro: gm_done)
  next
    case (2 c g)
    consider (dirs) h where "c = 0x2A" "g = 0x2A # 0x2F # h"
      | (any) h where "c = 0x2A" "g = 0x2A # h" "take 1 h \<noteq> [0x2F]"
      | (star) "c = 0x2A" "take 1 g \<noteq> [0x2A]"
      | (one) "c = 0x3F" | (lit) "c \<noteq> 0x2A" "c \<noteq> 0x3F"
      by (cases g; cases "tl g") force+
    then show ?case
    proof cases
      case dirs
      then have IH: "reMatch (globItems h) v \<Longrightarrow> globMatches h v" for v
        using 2(1) by simp
      have "reMatch (Dirs # globItems h) s"
        using 2(6) dirs by simp
      then show ?thesis
        unfolding reMatch_Dirs using IH dirs by (auto intro: gm_no_dirs gm_dirs)
    next
      case any
      then have t: "take 2 g \<noteq> [0x2A, 0x2F]"
        by (cases h) auto
      then have IH: "reMatch (globItems h) v \<Longrightarrow> globMatches h v" for v
        using 2(2) any by simp
      have "reMatch (Anything # globItems h) s"
        using 2(6) any t by simp
      then show ?thesis
        unfolding reMatch_Anything using IH any by (auto intro: gm_any)
    next
      case star
      then have IH: "reMatch (globItems g) v \<Longrightarrow> globMatches g v" for v
        using 2(3) by simp
      have "reMatch (NonSlashes # globItems g) s"
        using 2(6) star by simp
      then show ?thesis
        unfolding reMatch_NonSlashes using IH star by (auto intro: gm_star)
    next
      case one
      then show ?thesis
        using 2(4,6) by (auto split: list.splits intro: gm_one)
    next
      case lit
      then show ?thesis
        using 2(5,6) by (auto split: list.splits intro: gm_lit)
    qed
  qed
qed

subsection \<open>The expression a glob is turned into\<close>

lemma stripRunes_append [simp]: "stripRunes p (asRunes p @ rs) = Some rs"
  by (simp add: stripRunes_def asRunes_def)

lemma reItems_Dirs: "reItems (asRunes ''(?:.*/)?'' @ rs) = Dirs # reItems rs"
  by (subst reItems.simps) simp

lemma reItems_Anything: "reItems (asRunes ''.*'' @ rs) = Anything # reItems rs"
  by (subst reItems.simps) (simp add: stripRunes_def asRunes_def)

lemma reItems_NonSlashes: "reItems (asRunes ''[^/]*'' @ rs) = NonSlashes # reItems rs"
  by (subst reItems.simps) (simp add: stripRunes_def asRunes_def)

lemma reItems_NonSlash: "take 1 rs \<noteq> [0x2A] \<Longrightarrow> reItems (asRunes ''[^/]'' @ rs) = NonSlash # reItems rs"
  by (subst reItems.simps) (cases rs; simp; simp add: stripRunes_def asRunes_def)

lemma reItems_escaped: "reItems (0x5C # c # rs) = Lit c # reItems rs"
  by (subst reItems.simps) (simp add: stripRunes_def asRunes_def)

lemma reItems_plain:
  "c \<notin> {0x28, 0x2E, 0x5B, 0x5C, 0x24} \<Longrightarrow> reItems (c # rs) = Lit c # reItems rs"
  by (subst reItems.simps) (simp add: stripRunes_def asRunes_def)

lemma reItems_end: "reItems [0x24] = []"
  by (subst reItems.simps) (simp add: stripRunes_def asRunes_def)

text \<open>Bytes above the ASCII range are copied.\<close>

lemma high_plain:
  assumes "0x80 \<le> (of_char c :: nat)"
  shows "c \<noteq> CHR ''*'' \<and> c \<noteq> CHR ''?'' \<and> c \<noteq> slash \<and> \<not> regexSpecial c"
  using assms by (auto simp: regexSpecial_def)

lemma globBody_high: "list_all (\<lambda>c. 0x80 \<le> (of_char c :: nat)) b \<Longrightarrow> globBody (b @ g) = b @ globBody g"
  using high_plain by (induction b) simp_all

lemma encodeRune_high:
  assumes "scalarRune r" "0x80 \<le> r"
  shows "list_all (\<lambda>c. 0x80 \<le> (of_char c :: nat)) (encodeRune r)"
  using assms(1)
proof (cases rule: scalarRune_cases)
  case (three a b c)
  then show ?thesis
    using encodeRune_3 [OF three(4,1-3,7) assms(1)] by simp
next
  case (four a b c d)
  then show ?thesis
    using encodeRune_4 [OF four(5,2-4,8) assms(1)] by simp
qed (use assms in \<open>simp_all add: encodeRune_2\<close>)

lemma hd_encodeRune:
  assumes "scalarRune r" "n < 0x80"
  shows "hd (encodeRune r) = char_of n \<longleftrightarrow> r = n"
proof (cases "r < 0x80")
  case True
  then show ?thesis
    using assms(2) by (simp add: encodeRune_1)
next
  case False
  then have "0x80 \<le> (of_char (hd (encodeRune r)) :: nat)"
    using of_char_encode_first [of r] by simp
  then show ?thesis
    using False assms(2) by auto
qed

lemma char_codes: "char_of (0x2A :: nat) = CHR ''*''" "char_of (0x2F :: nat) = slash" "char_of (0x3F :: nat) = CHR ''?''"
  "char_of (0x5E :: nat) = CHR ''^''" "char_of (0x24 :: nat) = CHR ''$''"
  "char_of (0x5C :: nat) = CHR 0x5C"
  by (simp_all add: char_of_eq_iff)

lemma hasPrefix_star: "list_all scalarRune g \<Longrightarrow> hasPrefix (utf8 g) ''*'' \<longleftrightarrow> take 1 g = [0x2A]"
proof (cases g)
  case (Cons r rs)
  assume "list_all scalarRune g"
  then have "hd (encodeRune r) = CHR ''*'' \<longleftrightarrow> r = 0x2A"
    using Cons hd_encodeRune [of r "0x2A"] by (simp add: char_codes)
  moreover have "hasPrefix (utf8 g) ''*'' \<longleftrightarrow> hd (encodeRune r) = CHR ''*''"
    using Cons by (cases "encodeRune r") (simp_all add: hasPrefix_def)
  ultimately show ?thesis
    using Cons by simp
qed (simp add: hasPrefix_def)

lemma hasPrefix_star_slash:
  "list_all scalarRune g \<Longrightarrow> hasPrefix (utf8 g) ''*/'' \<longleftrightarrow> take 2 g = [0x2A, 0x2F]"
proof (cases g)
  case (Cons r rs)
  assume s: "list_all scalarRune g"
  have star: "hasPrefix (utf8 g) ''*'' \<longleftrightarrow> r = 0x2A"
    using hasPrefix_star [OF s] Cons by simp
  show ?thesis
  proof (cases "r = 0x2A")
    case True
    then have "hasPrefix (utf8 g) ''*/'' \<longleftrightarrow> hasPrefix (utf8 rs) ''/''"
      using Cons by (simp add: encodeRune_1 hasPrefix_def char_codes)
    also have "\<dots> \<longleftrightarrow> take 1 rs = [0x2F]"
    proof (cases rs)
      case (Cons q qs)
      then show ?thesis
        using s \<open>g = r # rs\<close> hd_encodeRune [of q "0x2F"] by (cases "encodeRune q") (auto simp: hasPrefix_def char_codes)
    qed (simp add: hasPrefix_def)
    finally show ?thesis
      using True Cons by simp
  next
    case False
    then have "\<not> hasPrefix (utf8 g) ''*/''"
      using star by (metis append_Cons append_Nil hasPrefix_iff)
    then show ?thesis
      using False Cons by simp
  qed
qed (simp add: hasPrefix_def)

lemma regexSpecial_code:
  "c < 0x80 \<Longrightarrow> \<not> regexSpecial (char_of c) \<Longrightarrow> c \<notin> {0x28, 0x2E, 0x5B, 0x5C, 0x24}"
  by (auto simp: regexSpecial_def char_of_eq_iff)

lemma regexSpecial_ne: "regexSpecial c \<Longrightarrow> c \<noteq> CHR ''*''"
  by (auto simp: regexSpecial_def)

text \<open>What \<open>globToRegex\<close> writes for well-formed text, and what it reads back as.\<close>

lemma globBody_utf8:
  "list_all scalarRune g \<Longrightarrow> \<exists>qs. list_all scalarRune qs \<and> globBody (utf8 g) = utf8 qs \<and> take 1 qs \<noteq> [0x2A] \<and>
     reItems (qs @ [0x24]) = globItems g"
proof (induction g rule: globItems.induct)
  case 1
  then show ?case by (intro exI [of _ "[]"]) (simp add: reItems_end)
next
  case (2 c g)
  have ascii: "list_all scalarRune (asRunes p) \<and> utf8 (asRunes p) = p"
    if "list_all (\<lambda>x. (of_char x :: nat) < 0x80) p" for p
    using that by (induction p) (simp_all add: asRunes_def encodeRune_1 scalarRune_def)
  have sc: "scalarRune c" "list_all scalarRune g"
    using 2(6) by simp_all
  note star = hasPrefix_star [OF sc(2)] hasPrefix_star_slash [OF sc(2)]
  consider (dirs) h where "c = 0x2A" "g = 0x2A # 0x2F # h"
    | (any) h where "c = 0x2A" "g = 0x2A # h" "take 2 g \<noteq> [0x2A, 0x2F]"
    | (star) "c = 0x2A" "take 1 g \<noteq> [0x2A]"
    | (one) "c = 0x3F" | (lit) "c \<noteq> 0x2A" "c \<noteq> 0x3F" "c < 0x80" | (high) "0x80 \<le> c"
    by (cases g; cases "tl g") force+
  then show ?case
  proof cases
    case dirs
    then obtain qs where qs: "list_all scalarRune qs" "globBody (utf8 h) = utf8 qs" "reItems (qs @ [0x24]) = globItems h"
      using 2(1) sc by auto
    have "globBody (utf8 (c # g)) = ''(?:.*/)?'' @ globBody (utf8 h)"
      using star dirs by (simp add: encodeRune_1 char_codes)
    then show ?thesis
      using qs dirs ascii [of "''(?:.*/)?''"] reItems_Dirs [of "qs @ [0x24]"]
      by (intro exI [of _ "asRunes ''(?:.*/)?'' @ qs"]) (simp add: asRunes_def)
  next
    case any
    then obtain qs where qs: "list_all scalarRune qs" "globBody (utf8 h) = utf8 qs" "reItems (qs @ [0x24]) = globItems h"
      using 2(2) sc by auto
    have "globBody (utf8 (c # g)) = ''.*'' @ globBody (utf8 h)"
      using star any by (simp add: encodeRune_1 char_codes)
    then show ?thesis
      using qs any ascii [of "''.*''"] reItems_Anything [of "qs @ [0x24]"]
      by (intro exI [of _ "asRunes ''.*'' @ qs"]) (simp add: asRunes_def)
  next
    case star': star
    then obtain qs where qs: "list_all scalarRune qs" "globBody (utf8 g) = utf8 qs" "reItems (qs @ [0x24]) = globItems g"
      using 2(3) sc by auto
    have "globBody (utf8 (c # g)) = ''[^/]*'' @ globBody (utf8 g)"
      using star star' by (simp add: encodeRune_1 char_codes)
    then show ?thesis
      using qs star' ascii [of "''[^/]*''"] reItems_NonSlashes [of "qs @ [0x24]"]
      by (intro exI [of _ "asRunes ''[^/]*'' @ qs"]) (simp add: asRunes_def)
  next
    case one
    then obtain qs where qs: "list_all scalarRune qs" "globBody (utf8 g) = utf8 qs" "take 1 qs \<noteq> [0x2A]"
      "reItems (qs @ [0x24]) = globItems g"
      using 2(4) sc by auto
    then have "take 1 (qs @ [0x24]) \<noteq> [0x2A]"
      by (cases qs) simp_all
    moreover have "globBody (utf8 (c # g)) = ''[^/]'' @ globBody (utf8 g)"
      using one by (simp add: encodeRune_1 char_codes)
    ultimately show ?thesis
      using qs one ascii [of "''[^/]''"] reItems_NonSlash [of "qs @ [0x24]"]
      by (intro exI [of _ "asRunes ''[^/]'' @ qs"]) (simp add: asRunes_def)
  next
    case lit
    then obtain qs where qs: "list_all scalarRune qs" "globBody (utf8 g) = utf8 qs" "reItems (qs @ [0x24]) = globItems g"
      using 2(5) sc by auto
    have ne: "char_of c \<noteq> CHR ''*''" "char_of c \<noteq> CHR ''?''"
      using lit by (simp_all add: char_of_eq_iff take_bit_nat_eq_self)
    show ?thesis
    proof (cases "regexSpecial (char_of c)")
      case True
      then have "globBody (utf8 (c # g)) = [CHR 0x5C, char_of c] @ globBody (utf8 g)"
        using lit ne by (auto simp: encodeRune_1 regexSpecial_def)
      moreover have "encodeRune 0x5C = [CHR 0x5C]" "scalarRune 0x5C"
        by (simp_all add: encodeRune_1 char_codes scalarRune_def)
      ultimately show ?thesis
        using qs lit sc(1) by (intro exI [of _ "0x5C # c # qs"]) (simp add: encodeRune_1 reItems_escaped)
    next
      case False
      then have "globBody (utf8 (c # g)) = char_of c # globBody (utf8 g)"
        using lit ne by (simp add: encodeRune_1)
      then show ?thesis
        using qs lit sc(1) reItems_plain [OF regexSpecial_code [OF lit(3) False]]
        by (intro exI [of _ "c # qs"]) (simp add: encodeRune_1)
    qed
  next
    case high
    then obtain qs where qs: "list_all scalarRune qs" "globBody (utf8 g) = utf8 qs" "reItems (qs @ [0x24]) = globItems g"
      using 2(5) sc by auto
    have "globBody (utf8 (c # g)) = encodeRune c @ globBody (utf8 g)"
      using globBody_high [OF encodeRune_high [OF sc(1) high]] by simp
    then show ?thesis
      using qs high sc by (intro exI [of _ "c # qs"]) (simp add: reItems_plain)
  qed
qed

lemma validUtf8_utf8: "list_all scalarRune rs \<Longrightarrow> validUtf8 (utf8 rs)"
proof -
  have "\<not> (r = runeError \<and> length (encodeRune r) = 1)" for r
    by (auto simp: encodeRune_def runeError_def scalarRune_def Let_def)
  then show "list_all scalarRune rs \<Longrightarrow> validUtf8 (utf8 rs)"
    by (simp add: validUtf8_def spans_utf8 list_all_iff)
qed

lemma regexCompile_glob:
  assumes "list_all scalarRune g"
  shows "regexCompile (globToRegex (utf8 g)) = Some (globItems g)"
proof -
  obtain qs where qs: "list_all scalarRune qs" "globBody (utf8 g) = utf8 qs" "reItems (qs @ [0x24]) = globItems g"
    using globBody_utf8 [OF assms] by blast
  have "globToRegex (utf8 g) = utf8 (0x5E # qs @ [0x24])"
    by (simp add: globToRegex_def qs(2) encodeRune_1 char_codes)
  moreover have "list_all scalarRune (0x5E # qs @ [0x24])"
    using qs(1) by (simp add: scalarRune_def)
  ultimately show ?thesis
    using qs(3) by (simp only: regexCompile_def validUtf8_utf8 runes_utf8 if_True) simp
qed

text \<open>
  C20: What a .gitignore rule matches. A line with a well-formed glob compiles, and its rule matches
  a path exactly if the path lies below the file's directory and the glob, read as documented (stars
  within a name, \<open>**\<close> across directories), matches the whole rest of the path when the glob is
  anchored and its last element when it is not, directories only if the line says so.
\<close>

theorem ignore_rule_exact:
  assumes "parseIgnoreLine line = Some (negate, dirOnly, anchored, utf8 g)" "list_all scalarRune g"
  shows "\<exists>r. compileIgnoreLine line base = Rule r \<and> ir_negate r = negate \<and>
    (\<forall>rel isDir. ruleMatches r rel isDir \<longleftrightarrow> (dirOnly \<longrightarrow> isDir) \<and>
       (\<exists>sub. rel = (if base = [] then sub else base @ ''/'' @ sub) \<and>
          globMatches g (runes (if anchored then sub else basePath sub))))"
proof -
  let ?r = "\<lparr> ir_base = base, ir_negate = negate, ir_dirOnly = dirOnly, ir_anchored = anchored, ir_re = globItems g \<rparr>"
  have "compileIgnoreLine line base = Rule ?r"
    using assms by (simp add: compileIgnoreLine_def regexCompile_glob)
  moreover have "ruleMatches ?r rel isDir \<longleftrightarrow> (dirOnly \<longrightarrow> isDir) \<and>
      (\<exists>sub. rel = (if base = [] then sub else base @ ''/'' @ sub) \<and>
         globMatches g (runes (if anchored then sub else basePath sub)))" for rel isDir
  proof (cases "base = [] \<or> hasPrefix rel (base @ ''/'')")
    case True
    have "\<exists>sub. rel = (if base = [] then sub else base @ ''/'' @ sub)"
    proof (cases "base = []")
      case False
      then obtain t where "rel = (base @ ''/'') @ t"
        using True unfolding hasPrefix_iff by blast
      then show ?thesis
        using False by simp
    qed simp
    then obtain sub where sub: "rel = (if base = [] then sub else base @ ''/'' @ sub)"
      by blast
    have "base \<noteq> [] \<Longrightarrow> hasPrefix (base @ slash # x) (base @ ''/'')" for x
      using hasPrefix_append [of "base @ ''/''" x] by simp
    then show ?thesis
      using sub by (auto simp: ruleMatches_def reMatch_globItems Let_def)
  next
    case False
    then show ?thesis
      by (auto simp: ruleMatches_def hasPrefix_iff)
  qed
  ultimately show ?thesis
    by auto
qed

theorem ignore_rule_exact_witness:
  "\<exists>r. compileIgnoreLine ''!*.o'' ''src'' = Rule r \<and> ir_negate r \<and> ruleMatches r ''src/a.o'' False"
proof -
  have u: "utf8 [0x2A, 0x2E, 0x6F] = ''*.o''"
    by (simp add: encodeRune_1 char_of_eq_iff)
  have "parseIgnoreLine ''!*.o'' = Some (True, False, False, utf8 [0x2A, 0x2E, 0x6F])"
    unfolding u by (simp add: parseIgnoreLine_def gostring_defs Let_def)
  moreover have "list_all scalarRune [0x2A, 0x2E, 0x6F]"
    by (simp add: scalarRune_def)
  ultimately obtain r where r: "compileIgnoreLine ''!*.o'' ''src'' = Rule r" "ir_negate r"
    "\<forall>rel isDir. ruleMatches r rel isDir \<longleftrightarrow>
       (\<exists>sub. rel = ''src'' @ ''/'' @ sub \<and> globMatches [0x2A, 0x2E, 0x6F] (runes (basePath sub)))"
    using ignore_rule_exact [of "''!*.o''" True False False "[0x2A, 0x2E, 0x6F]" "''src''"] by auto
  have "runes (basePath ''a.o'') = [0x61] @ [0x2E, 0x6F]"
    by (simp add: basePath_def trimRightByte_def runes_def spans.simps decodeRune_def Let_def)
  moreover have "globMatches [0x2A, 0x2E, 0x6F] ([0x61] @ [0x2E, 0x6F])"
    by (intro globMatches.intros) simp_all
  ultimately show ?thesis
    using r by (intro exI [of _ r]) (auto intro!: exI [of _ "''a.o''"])
qed

text \<open>A glob that is not well-formed UTF-8 makes the compilation panic.\<close>

lemma bad_glob_panics: "compileIgnoreLine [char_of (0xFF :: nat)] [] = CompilePanic"
proof -
  have s: "regexSpecial (char_of (0xFF :: nat)) = False" "char_of (0xFF :: nat) \<notin> set [CHR ''*'', CHR ''?'', slash, CHR ''#'', CHR ''!'', CHR '' '', CHR 0x0D, CHR 0x5C]"
    by (simp_all add: regexSpecial_def char_of_eq_iff)
  then have "parseIgnoreLine [char_of (0xFF :: nat)] = Some (False, False, False, [char_of (0xFF :: nat)])"
    by (auto simp: parseIgnoreLine_def gostring_defs Let_def)
  moreover have "globToRegex [char_of (0xFF :: nat)] = [CHR ''^'', char_of (0xFF :: nat), CHR ''$'']"
    using s by (simp add: globToRegex_def)
  moreover have "\<not> validUtf8 [CHR ''^'', char_of (0xFF :: nat), CHR ''$'']"
    by (simp add: validUtf8_def spans.simps decodeRune_def acceptRange_def runeError_def)
  ultimately show ?thesis
    by (simp add: compileIgnoreLine_def regexCompile_def)
qed

end
