(* ===== verification/Sync_Tree.thy ===== *)
theory Sync_Tree
  imports Sync_Client Gitignore
begin

text \<open>
  The manifest of a directory (\<open>buildManifest\<close> and \<open>walkTree\<close> in \<open>examples/relay-sync/proto.go\<close>), on
  a tree that stands for what the file system holds below the root while it is walked.
\<close>

text \<open>
  A regular file has content and a time; a directory its entries in the order \<open>ReadDir\<close> gives them, or
  the error of reading it; anything else (a link, a device) what opening it gives, nothing if its
  target is missing.
\<close>

datatype fs_node =
    FileNode bytes int
  | DirNode "(string \<times> fs_node) list"
  | BadDir string
  | OtherNode "(string + bytes) option"

definition isDirNode :: "fs_node \<Rightarrow> bool" where
  "isDirNode n = (case n of DirNode es \<Rightarrow> True | BadDir e \<Rightarrow> True | _ \<Rightarrow> False)"

definition gitignoreFile :: "(string \<times> fs_node) list \<Rightarrow> (string + bytes) option" where
  "gitignoreFile es =
     (case map_of es ''.gitignore'' of
        None \<Rightarrow> None
      | Some (FileNode c t) \<Rightarrow> Some (Inr c)
      | Some (OtherNode r) \<Rightarrow> r
      | Some _ \<Rightarrow> Some (Inl ''is a directory''))"

definition localRules :: "bool \<Rightarrow> string \<Rightarrow> (string \<times> fs_node) list \<Rightarrow> (string + ignore_rule list) option" where
  "localRules useGitignore rel es =
     (if useGitignore then loadIgnoreRules (gitignoreFile es) rel else Some (Inr []))"

definition childRel :: "string \<Rightarrow> string \<Rightarrow> string" where
  "childRel rel name = (if rel = [] then name else rel @ ''/'' @ name)"

definition skipped :: "bool \<Rightarrow> ignore_rule list \<Rightarrow> string \<Rightarrow> string \<Rightarrow> fs_node \<Rightarrow> bool" where
  "skipped useGitignore rules rel name node \<longleftrightarrow>
     name = ''.git'' \<or> (useGitignore \<and> isIgnored rules (childRel rel name) (isDirNode node))"

text \<open>Two results in sequence: a panic or an error of the first ends the walk.\<close>

definition walkSeq :: "(string + 'a list) option \<Rightarrow> (string + 'a list) option \<Rightarrow> (string + 'a list) option" where
  "walkSeq a b =
     (case a of
        Some (Inr xs) \<Rightarrow>
          (case b of Some (Inr ys) \<Rightarrow> Some (Inr (xs @ ys)) | r \<Rightarrow> r)
      | r \<Rightarrow> r)"

fun walkTree :: "bool \<Rightarrow> string \<Rightarrow> ignore_rule list \<Rightarrow> fs_node \<Rightarrow> (string + entry list) option"
  and walkEntries :: "bool \<Rightarrow> string \<Rightarrow> ignore_rule list \<Rightarrow> (string \<times> fs_node) list \<Rightarrow> (string + entry list) option" where
  "walkTree g rel inherited (DirNode es) =
     (case localRules g rel es of
        None \<Rightarrow> None
      | Some (Inl e) \<Rightarrow> Some (Inl e)
      | Some (Inr rules) \<Rightarrow> walkEntries g rel (inherited @ rules) es)"
| "walkTree g rel inherited (BadDir e) = Some (Inl e)"
| "walkTree g rel inherited (FileNode c t) = Some (Inl ''not a directory'')"
| "walkTree g rel inherited (OtherNode r) = Some (Inl ''not a directory'')"
| "walkEntries g rel rules [] = Some (Inr [])"
| "walkEntries g rel rules ((name, node) # rest) =
     (if skipped g rules rel name node then walkEntries g rel rules rest
      else if isDirNode node then
        walkSeq (walkTree g (childRel rel name) rules node) (walkEntries g rel rules rest)
      else
        (case node of
           FileNode c t \<Rightarrow>
             walkSeq (Some (Inr [\<lparr> en_path = childRel rel name, en_size = int (length c), en_mtime = t \<rparr>]))
               (walkEntries g rel rules rest)
         | _ \<Rightarrow> walkEntries g rel rules rest))"

definition buildManifest :: "bool \<Rightarrow> fs_node \<Rightarrow> (string + entry list) option" where
  "buildManifest useGitignore root =
     (case walkTree useGitignore [] [] root of
        Some (Inr es) \<Rightarrow> Some (Inr (sort_key en_path es))
      | r \<Rightarrow> r)"

lemmas sync_tree_defs [go_defs] =
  isDirNode_def gitignoreFile_def localRules_def childRel_def skipped_def walkSeq_def buildManifest_def

section \<open>What is listed\<close>

text \<open>
  A file is listed if neither it nor a directory on the way to it is skipped, under the rules of its
  directory and of those above it.
\<close>

inductive listed :: "bool \<Rightarrow> string \<Rightarrow> ignore_rule list \<Rightarrow> (string \<times> fs_node) list \<Rightarrow> entry \<Rightarrow> bool" where
  listed_file: "(name, FileNode c t) \<in> set es \<Longrightarrow> \<not> skipped g rules rel name (FileNode c t) \<Longrightarrow>
    listed g rel rules es \<lparr> en_path = childRel rel name, en_size = int (length c), en_mtime = t \<rparr>"
| listed_below: "(name, DirNode sub) \<in> set es \<Longrightarrow> \<not> skipped g rules rel name (DirNode sub) \<Longrightarrow>
    localRules g (childRel rel name) sub = Some (Inr loc) \<Longrightarrow>
    listed g (childRel rel name) (rules @ loc) sub e \<Longrightarrow> listed g rel rules es e"

inductive_simps listed_iff: "listed g rel rules es e"

text \<open>A tree a file system can hold: names are ordinary and differ within a directory.\<close>

fun treeOk :: "fs_node \<Rightarrow> bool" where
  "treeOk (DirNode es) \<longleftrightarrow> distinct (map fst es) \<and> list_all plainElem (map fst es) \<and> list_all treeOk (map snd es)"
| "treeOk _ \<longleftrightarrow> True"

lemma walkSeq_Inr:
  "walkSeq a b = Some (Inr zs) \<longleftrightarrow> (\<exists>xs ys. a = Some (Inr xs) \<and> b = Some (Inr ys) \<and> zs = xs @ ys)"
  by (auto simp: walkSeq_def split: option.splits sum.splits)

lemma listed_Nil: "\<not> listed g rel rules [] e"
  by (simp add: listed_iff [of g rel rules "[]"])

lemma listed_Cons:
  "listed g rel rules ((name, node) # rest) e \<longleftrightarrow> listed g rel rules [(name, node)] e \<or> listed g rel rules rest e"
  unfolding listed_iff [of g rel rules "(name, node) # rest"] listed_iff [of g rel rules "[(name, node)]"]
    listed_iff [of g rel rules rest] list.set insert_iff prod.inject empty_iff by blast

lemma listed_one_file:
  "listed g rel rules [(name, FileNode c t)] e \<longleftrightarrow> \<not> skipped g rules rel name (FileNode c t) \<and>
     e = \<lparr> en_path = childRel rel name, en_size = int (length c), en_mtime = t \<rparr>"
  by (subst listed_iff) auto

lemma listed_one_dir:
  "listed g rel rules [(name, DirNode sub)] e \<longleftrightarrow> \<not> skipped g rules rel name (DirNode sub) \<and>
     (\<exists>loc. localRules g (childRel rel name) sub = Some (Inr loc) \<and> listed g (childRel rel name) (rules @ loc) sub e)"
  by (subst listed_iff) auto

lemma listed_one_other:
  "\<not> listed g rel rules [(name, BadDir x)] e" "\<not> listed g rel rules [(name, OtherNode r)] e"
  by (subst listed_iff, simp)+

lemma listed_skipped: "skipped g rules rel name node \<Longrightarrow> \<not> listed g rel rules [(name, node)] e"
  by (cases node) (simp_all add: listed_one_file listed_one_dir listed_one_other)

lemma walk_listed:
  "walkTree g rel inherited node = Some (Inr es) \<Longrightarrow>
     \<exists>sub loc. node = DirNode sub \<and> localRules g rel sub = Some (Inr loc) \<and>
       set es = {e. listed g rel (inherited @ loc) sub e}"
  "walkEntries g rel rules ents = Some (Inr es) \<Longrightarrow> set es = {e. listed g rel rules ents e}"
proof (induction g rel inherited node and g rel rules ents arbitrary: es and es rule: walkTree_walkEntries.induct)
  case (1 g rel inherited sub)
  then show ?case by (auto split: option.splits sum.splits)
next
  case (5 g rel rules)
  then show ?case by (auto simp: listed_Nil)
next
  case (6 g rel rules name node rest)
  show ?case
  proof (cases "skipped g rules rel name node")
    case True
    then show ?thesis
      using 6 listed_skipped [OF True] by (simp add: listed_Cons [of g rel rules name node rest])
  next
    case ns: False
    show ?thesis
    proof (cases node)
      case (FileNode c t)
      then have "\<not> isDirNode node"
        by (simp add: isDirNode_def)
      then show ?thesis
        using 6 ns FileNode
        by (auto simp: listed_Cons [of g rel rules name _ rest] listed_one_file walkSeq_Inr)
    next
      case (DirNode sub)
      then have d: "isDirNode node"
        by (simp add: isDirNode_def)
      obtain xs ys where xy: "walkTree g (childRel rel name) rules node = Some (Inr xs)"
        "walkEntries g rel rules rest = Some (Inr ys)" "es = xs @ ys"
        using 6(8) ns d by (auto simp: walkSeq_Inr)
      have "set xs = {e. listed g rel rules [(name, node)] e}"
      proof -
        obtain sub' loc where "node = DirNode sub'" "localRules g (childRel rel name) sub' = Some (Inr loc)"
          "set xs = {e. listed g (childRel rel name) (rules @ loc) sub' e}"
          using 6(2) [OF ns d xy(1)] by blast
        then show ?thesis
          using ns by (simp add: listed_one_dir)
      qed
      moreover have "set ys = {e. listed g rel rules rest e}"
        by (rule 6(3) [OF ns d xy(2)])
      ultimately show ?thesis
        using xy(3) by (auto simp: listed_Cons [of g rel rules name node rest])
    next
      case (BadDir x)
      then show ?thesis
        using 6(8) ns by (simp add: isDirNode_def walkSeq_def)
    next
      case (OtherNode r)
      then have "\<not> isDirNode node"
        by (simp add: isDirNode_def)
      then show ?thesis
        using 6 ns OtherNode
        by (auto simp: listed_Cons [of g rel rules name _ rest] listed_one_other)
    qed
  qed
qed simp_all

subsection \<open>Paths differ\<close>

text \<open>What lies below an entry has the entry's path as its own or as a directory of it.\<close>

definition under :: "string \<Rightarrow> string \<Rightarrow> bool" where
  "under p q \<longleftrightarrow> q = p \<or> hasPrefix q (p @ ''/'')"

lemma under_trans: "under p q \<Longrightarrow> under q r \<Longrightarrow> under p r"
  unfolding under_def hasPrefix_iff by force

lemma under_child: "under (childRel rel name) q \<Longrightarrow> rel \<noteq> [] \<Longrightarrow> under rel q"
  unfolding under_def hasPrefix_iff childRel_def by force

lemma under_slash: "under p q \<Longrightarrow> \<exists>t. q @ ''/'' = p @ slash # t"
  unfolding under_def hasPrefix_iff by force

lemma childRel_ne: "name \<noteq> [] \<Longrightarrow> childRel rel name \<noteq> []"
  by (simp add: childRel_def)

lemma under_unique:
  assumes "under (childRel rel a) q" "under (childRel rel b) q" "slash \<notin> set a" "slash \<notin> set b"
  shows "a = b"
proof -
  obtain t u where "q @ ''/'' = childRel rel a @ slash # t" "q @ ''/'' = childRel rel b @ slash # u"
    using under_slash [OF assms(1)] under_slash [OF assms(2)] by blast
  then have "a @ slash # t = b @ slash # u"
    by (simp add: childRel_def split: if_splits)
  then show ?thesis
    using until_slash_eq assms(3,4) by blast
qed

lemma listed_under:
  "listed g rel rules es e \<Longrightarrow> treeOk (DirNode es) \<Longrightarrow> \<exists>name \<in> fst ` set es. under (childRel rel name) (en_path e)"
proof (induction rule: listed.induct)
  case (listed_file name c t es g rules rel)
  then show ?case by (force simp: under_def)
next
  case (listed_below name sub es g rules rel loc e)
  have "treeOk (DirNode sub)" "name \<noteq> []"
    using listed_below.hyps(1) listed_below.prems by (force simp: list_all_iff plainElem_def)+
  then show ?case
    using listed_below.IH listed_below.hyps(1) under_child childRel_ne by (metis fst_conv image_eqI)
qed

lemma walk_distinct:
  "walkTree g rel inherited node = Some (Inr es) \<Longrightarrow> treeOk node \<Longrightarrow> distinct (map en_path es)"
  "walkEntries g rel rules ents = Some (Inr es) \<Longrightarrow> treeOk (DirNode ents) \<Longrightarrow> distinct (map en_path es)"
proof (induction g rel inherited node and g rel rules ents arbitrary: es and es rule: walkTree_walkEntries.induct)
  case (1 g rel inherited sub)
  then show ?case by (auto split: option.splits sum.splits)
next
  case (6 g rel rules name node rest)
  have ok: "treeOk (DirNode rest)" "treeOk node" "treeOk (DirNode [(name, node)])" "name \<notin> fst ` set rest"
    "slash \<notin> set name" "\<forall>n \<in> fst ` set rest. slash \<notin> set n"
    using 6(9) by (auto simp: list_all_iff plainElem_def)
  show ?case
  proof (cases "skipped g rules rel name node")
    case ns: False
    have "\<exists>xs ys. es = xs @ ys \<and> walkEntries g rel rules [(name, node)] = Some (Inr xs) \<and>
        walkEntries g rel rules rest = Some (Inr ys) \<and> distinct (map en_path xs) \<and> distinct (map en_path ys)"
    proof (cases node)
      case (FileNode c t)
      then have "\<not> isDirNode node"
        by (simp add: isDirNode_def)
      then show ?thesis
        using 6(4,8) ns ok FileNode by (force simp: walkSeq_Inr)
    next
      case (DirNode sub)
      then have d: "isDirNode node"
        by (simp add: isDirNode_def)
      obtain xs ys where xy: "walkTree g (childRel rel name) rules node = Some (Inr xs)"
        "walkEntries g rel rules rest = Some (Inr ys)" "es = xs @ ys"
        using 6(8) ns d by (auto simp: walkSeq_Inr)
      then show ?thesis
        using 6(2) [OF ns d xy(1) ok(2)] 6(3) [OF ns d xy(2) ok(1)] ns d by (auto simp: walkSeq_Inr)
    next
      case (BadDir x)
      then show ?thesis
        using 6(8) ns by (simp add: isDirNode_def walkSeq_def)
    next
      case (OtherNode r)
      then have "\<not> isDirNode node"
        by (simp add: isDirNode_def)
      then show ?thesis
        using 6(7,8) ns ok OtherNode by simp
    qed
    then obtain xs ys where xy: "es = xs @ ys" "walkEntries g rel rules [(name, node)] = Some (Inr xs)"
        "walkEntries g rel rules rest = Some (Inr ys)" "distinct (map en_path xs)" "distinct (map en_path ys)"
      by blast
    have "under (childRel rel name) (en_path e)" if "e \<in> set xs" for e
      using listed_under [OF _ ok(3)] walk_listed(2) [OF xy(2)] that by force
    moreover have "\<exists>n \<in> fst ` set rest. under (childRel rel n) (en_path e)" if "e \<in> set ys" for e
      using listed_under [OF _ ok(1)] walk_listed(2) [OF xy(3)] that by blast
    ultimately have "en_path x \<noteq> en_path y" if "x \<in> set xs" "y \<in> set ys" for x y
      using that under_unique [of rel name] ok(4-6) by metis
    then show ?thesis
      using xy by auto
  qed (use 6 ok in simp)
qed simp_all

text \<open>
  C21: The manifest of a directory. When the walk succeeds, the entries are in byte order of their
  paths, no path occurs twice, and they are exactly the regular files, with their sizes and times,
  that neither lie under a \<open>.git\<close> nor are ignored, themselves or in an ignored directory, by the rules
  of the .gitignore files at and above them.
\<close>

theorem manifest_exact:
  assumes "buildManifest useGitignore root = Some (Inr es)" "treeOk root"
  shows "sorted (map en_path es) \<and> distinct (map en_path es) \<and>
    (\<exists>top rules. root = DirNode top \<and> localRules useGitignore [] top = Some (Inr rules) \<and>
       set es = {e. listed useGitignore [] rules top e})"
proof -
  obtain xs where xs: "walkTree useGitignore [] [] root = Some (Inr xs)" "es = sort_key en_path xs"
    using assms(1) by (auto simp: buildManifest_def split: option.splits sum.splits)
  have "distinct (map en_path xs)"
    by (rule walk_distinct(1) [OF xs(1) assms(2)])
  then have "distinct (map en_path es)"
    unfolding xs(2) distinct_map by simp
  moreover have "sorted (map en_path es)"
    unfolding xs(2) by (rule sorted_sort_key)
  moreover obtain top rules where "root = DirNode top" "localRules useGitignore [] top = Some (Inr rules)"
    "set xs = {e. listed useGitignore [] ([] @ rules) top e}"
    using walk_listed(1) [OF xs(1)] by blast
  ultimately show ?thesis
    using xs(2) by simp
qed

definition mfTree :: fs_node where
  "mfTree = DirNode [(''b'', FileNode ''xy'' 7), (''.git'', DirNode []), (''a'', DirNode [(''c'', FileNode [] 9)])]"

theorem manifest_exact_witness:
  "\<exists>es. buildManifest False mfTree = Some (Inr es) \<and> sorted (map en_path es) \<and> distinct (map en_path es) \<and> length es = 2"
proof -
  have ok: "treeOk mfTree"
    by (simp add: mfTree_def plainElem_def)
  have "\<exists>es. buildManifest False mfTree = Some (Inr es) \<and> length es = 2"
    by (simp add: buildManifest_def mfTree_def localRules_def skipped_def isDirNode_def walkSeq_def)
  then obtain es where "buildManifest False mfTree = Some (Inr es)" "length es = 2"
    by blast
  then show ?thesis
    using manifest_exact [OF _ ok] by blast
qed

end
