(* ===== verification/Sync_Json.thy ===== *)
theory Sync_Json
  imports Json_Struct Sync_Client
begin

text \<open>
  The JSON of relay-sync's messages (the struct types and their tags in \<open>examples/relay-sync/proto.go\<close>):
  each type's text and what its text is read as, and that the two agree up to ill-formed UTF-8.
\<close>

section \<open>Request and Entry\<close>

definition encRequest :: "sync_request \<Rightarrow> jv" where
  "encRequest r =
     VObj (member ''op'' (VStr (rq_op r)) @ member ''path'' (VStr (rq_path r)) @
       omitempty (rq_size r = 0) ''size'' (intText (rq_size r)) @
       omitempty (rq_mtime r = 0) ''mtime'' (intText (rq_mtime r)) @
       omitempty (rq_mode r = 0) ''mode'' (wordText (rq_mode r)) @
       omitempty (\<not> rq_gitignore r) ''gitignore'' (VBool (rq_gitignore r)))"

definition requestFields :: "sync_request field list" where
  "requestFields =
     [field ''op'' rq_op rq_op_update stringValue, field ''path'' rq_path rq_path_update stringValue,
      field ''size'' rq_size rq_size_update int64Value, field ''mtime'' rq_mtime rq_mtime_update int64Value,
      field ''mode'' rq_mode rq_mode_update uint32Value,
      field ''gitignore'' rq_gitignore rq_gitignore_update boolValue]"

definition encEntry :: "entry \<Rightarrow> jv" where
  "encEntry e =
     VObj (member ''path'' (VStr (en_path e)) @ member ''size'' (intText (en_size e)) @
       member ''mtime'' (intText (en_mtime e)))"

definition entryFields :: "entry field list" where
  "entryFields =
     [field ''path'' en_path en_path_update stringValue, field ''size'' en_size en_size_update int64Value,
      field ''mtime'' en_mtime en_mtime_update int64Value]"

definition entry0 :: entry where
  "entry0 = \<lparr> en_path = [], en_size = 0, en_mtime = 0 \<rparr>"

definition cleanRequest :: "sync_request \<Rightarrow> sync_request" where
  "cleanRequest r = r\<lparr>rq_op := validText (rq_op r), rq_path := validText (rq_path r)\<rparr>"

definition cleanEntry :: "entry \<Rightarrow> entry" where
  "cleanEntry e = e\<lparr>en_path := validText (en_path e)\<rparr>"

definition requestFits :: "sync_request \<Rightarrow> bool" where
  "requestFits r \<longleftrightarrow> int64 (rq_size r) \<and> int64 (rq_mtime r)"

definition entryFits :: "entry \<Rightarrow> bool" where
  "entryFits e \<longleftrightarrow> int64 (en_size e) \<and> int64 (en_mtime e)"

interpretation request: json_type encRequest "decodeStruct requestFields" request0 cleanRequest requestFits
proof
  fix r :: sync_request
  assume fits: "requestFits r"
  show "intsOnly (encRequest r)" "within maxNesting (encRequest r)"
    by (simp_all add: encRequest_def maxNesting_def)
  show "decodeStruct requestFields (validValue (encRequest r)) request0 = Some (cleanRequest r)"
    using fits
    by (cases r) (simp add: encRequest_def decode_struct decode_last requestFields_def requestFits_def cleanRequest_def request0_def)
qed

interpretation entry: json_type encEntry "decodeStruct entryFields" entry0 cleanEntry entryFits
proof
  fix e :: entry
  assume fits: "entryFits e"
  show "intsOnly (encEntry e)" "within maxNesting (encEntry e)"
    by (simp_all add: encEntry_def maxNesting_def)
  show "decodeStruct entryFields (validValue (encEntry e)) entry0 = Some (cleanEntry e)"
    using fits
    by (cases e) (simp add: encEntry_def decode_struct decode_last entryFields_def entryFits_def cleanEntry_def entry0_def)
qed

section \<open>The replies\<close>

definition encReply :: "sync_reply \<Rightarrow> jv" where
  "encReply r =
     (case r of
        ManifestReply k err es \<Rightarrow>
          VObj (member ''ok'' (VBool k) @ omitempty (err = []) ''err'' (VStr err) @
            omitempty (es = []) ''entries'' (sliceText encEntry es))
      | GetReply k err n \<Rightarrow>
          VObj (member ''ok'' (VBool k) @ omitempty (err = []) ''err'' (VStr err) @ omitempty (n = 0) ''size'' (intText n))
      | Reply k err \<Rightarrow> VObj (member ''ok'' (VBool k) @ omitempty (err = []) ''err'' (VStr err)))"

definition manifestReplyFields :: "(bool \<times> string \<times> entry list) field list" where
  "manifestReplyFields =
     [field ''ok'' fst apfst boolValue, field ''err'' (fst \<circ> snd) (apsnd \<circ> apfst) stringValue,
      field ''entries'' (snd \<circ> snd) (apsnd \<circ> apsnd) (sliceValue (decodeStruct entryFields) entry0)]"

definition getReplyFields :: "(bool \<times> string \<times> int) field list" where
  "getReplyFields =
     [field ''ok'' fst apfst boolValue, field ''err'' (fst \<circ> snd) (apsnd \<circ> apfst) stringValue,
      field ''size'' (snd \<circ> snd) (apsnd \<circ> apsnd) int64Value]"

definition replyFields :: "(bool \<times> string) field list" where
  "replyFields = [field ''ok'' fst apfst boolValue, field ''err'' snd apsnd stringValue]"

text \<open>
  What each side makes of the texts of the other: \<open>json.Marshal\<close> and \<open>json.Unmarshal\<close> into the types,
  with \<open>bad\<close> for the texts of the decoder's errors.
\<close>

definition requestText :: request_enc where
  "requestText r = Inr (encodeJson (encRequest r))"

definition replyText :: reply_enc where
  "replyText r = Inr (encodeJson (encReply r))"

definition readRequest :: "(bytes \<Rightarrow> string) \<Rightarrow> bytes \<Rightarrow> string + sync_request" where
  "readRequest bad = unmarshalInto (decodeStruct requestFields) request0 bad"

definition readReplies :: "(bytes \<Rightarrow> string) \<Rightarrow> reply_dec" where
  "readReplies bad =
     \<lparr> rd_manifest = unmarshalInto (decodeStruct manifestReplyFields) (False, [], []) bad,
       rd_get = unmarshalInto (decodeStruct getReplyFields) (False, [], 0) bad,
       rd_plain = unmarshalInto (decodeStruct replyFields) (False, []) bad \<rparr>"

interpretation manifest_reply: json_type "\<lambda>(k, err, es). encReply (ManifestReply k err es)"
  "decodeStruct manifestReplyFields" "(False, [], [])" "\<lambda>(k, err, es). (k, validText err, map cleanEntry es)"
  "\<lambda>(k, err, es). list_all entryFits es"
proof
  fix x :: "bool \<times> string \<times> entry list"
  obtain k err es where x: "x = (k, err, es)"
    by (cases x)
  assume "case x of (k, err, es) \<Rightarrow> list_all entryFits es"
  then have fits: "\<And>e. e \<in> set es \<Longrightarrow> entryFits e"
    by (simp add: x list_all_iff)
  have sub: "within 9998 (encEntry e)" "intsOnly (encEntry e)" for e
    by (simp_all add: encEntry_def)
  then show "intsOnly (case x of (k, err, es) \<Rightarrow> encReply (ManifestReply k err es))"
    "within maxNesting (case x of (k, err, es) \<Rightarrow> encReply (ManifestReply k err es))"
    by (simp_all add: x encReply_def sliceText_def maxNesting_def list.pred_map list.pred_True comp_def)
  have v: "validValue (sliceText encEntry es) = sliceText (validValue \<circ> encEntry) es"
    by (simp add: sliceText_def)
  have "sliceValue (decodeStruct entryFields) entry0 (sliceText (validValue \<circ> encEntry) es) [] = Some (map cleanEntry es)"
    unfolding sliceValue_def sliceText_def
    using fits entry.dec_enc by (induction es) (auto simp: sliceText_def split: if_splits)
  then show "decodeStruct manifestReplyFields (validValue (case x of (k, err, es) \<Rightarrow> encReply (ManifestReply k err es))) (False, [], []) =
      Some (case x of (k, err, es) \<Rightarrow> (k, validText err, map cleanEntry es))"
    by (simp add: x v encReply_def decode_struct decode_last manifestReplyFields_def)
qed

interpretation get_reply: json_type "\<lambda>(k, err, n). encReply (GetReply k err n)"
  "decodeStruct getReplyFields" "(False, [], 0)" "\<lambda>(k, err, n). (k, validText err, n)" "\<lambda>(k, err, n). int64 n"
  by unfold_locales
    (auto simp: encReply_def maxNesting_def decode_struct decode_last getReplyFields_def split: if_splits)

interpretation plain_reply: json_type "\<lambda>(k, err). encReply (Reply k err)"
  "decodeStruct replyFields" "(False, [])" "\<lambda>(k, err). (k, validText err)" "\<lambda>x. True"
  by unfold_locales
    (auto simp: encReply_def maxNesting_def decode_struct decode_last replyFields_def split: if_splits)

lemma readReplies_sel [simp]:
  "rd_manifest (readReplies bad) = unmarshalInto (decodeStruct manifestReplyFields) (False, [], []) bad"
  "rd_get (readReplies bad) = unmarshalInto (decodeStruct getReplyFields) (False, [], 0) bad"
  "rd_plain (readReplies bad) = unmarshalInto (decodeStruct replyFields) (False, []) bad"
  by (simp_all add: readReplies_def)

text \<open>
  C25: relay-sync's messages arrive. What either program writes for a request or a reply the other reads
  as the same message, its strings made well-formed UTF-8: every ill-formed byte of a path, an operation
  or an error arrives as U+FFFD, and a message whose strings are well-formed arrives unchanged.
\<close>

theorem sync_messages_arrive:
  assumes "requestFits r" "list_all entryFits es" "int64 n"
  shows "(\<exists>b. requestText r = Inr b \<and> readRequest bad b = Inr (cleanRequest r)) \<and>
    (\<exists>b. replyText (ManifestReply k err es) = Inr b \<and>
       rd_manifest (readReplies bad) b = Inr (k, validText err, map cleanEntry es)) \<and>
    (\<exists>b. replyText (GetReply k err n) = Inr b \<and> rd_get (readReplies bad) b = Inr (k, validText err, n)) \<and>
    (\<exists>b. replyText (Reply k err) = Inr b \<and> rd_plain (readReplies bad) b = Inr (k, validText err)) \<and>
    (validUtf8 (rq_op r) \<and> validUtf8 (rq_path r) \<longrightarrow> cleanRequest r = r)"
  using request.read_back [OF assms(1), of bad] manifest_reply.read_back [where x = "(k, err, es)" and bad = bad]
    get_reply.read_back [where x = "(k, err, n)" and bad = bad] plain_reply.read_back [where x = "(k, err)" and bad = bad]
    assms(2,3)
  by (simp add: requestText_def readRequest_def replyText_def cleanRequest_def validUtf8_def)

definition sampleRequest :: sync_request where
  "sampleRequest = request0\<lparr>rq_op := ''get'', rq_path := ''a/b'', rq_size := 7\<rparr>"

theorem sync_messages_arrive_witness:
  "\<exists>b. requestText sampleRequest = Inr b \<and> readRequest (\<lambda>b. []) b = Inr sampleRequest"
proof -
  have "requestFits sampleRequest" "cleanRequest sampleRequest = sampleRequest" "list_all entryFits [entry0]" "int64 5"
    by (simp_all add: requestFits_def cleanRequest_def sampleRequest_def request0_def entryFits_def entry0_def int64_def
        isAscii_code)
  then show ?thesis
    using sync_messages_arrive [of sampleRequest "[entry0]" 5 "\<lambda>b. []" True "''no''"] by simp
qed

text \<open>
  A file name that is not well-formed UTF-8 never settles. Whatever manifest the other side answers,
  its paths reach the client well-formed, so the plan copies a local file with such a name again in
  every pass; and the upload reaches the host under another name.
\<close>

lemma ill_formed_name_recopied:
  assumes "e \<in> set src" "\<not> validUtf8 (en_path e)" "list_all entryFits es"
  shows "\<exists>b dst. replyText (ManifestReply True [] es) = Inr b \<and> rd_manifest (readReplies bad) b = Inr (True, [], dst) \<and>
    copyOf (en_path e) \<in> set (planSync src dst del) \<and>
    rq_path (cleanRequest (request0\<lparr>rq_op := ''put'', rq_path := en_path e\<rparr>)) \<noteq> en_path e"
proof -
  have "validUtf8 (en_path (cleanEntry d))" for d
    by (simp add: cleanEntry_def validUtf8_def)
  then have "manifestOf (map cleanEntry es) (en_path e) = None"
    using assms(2) unfolding manifestOf_None by (metis (no_types, lifting) imageE list.set_map)
  then have "copyOf (en_path e) \<in> set (planSync src (map cleanEntry es) del)"
    using assms(1) by (force simp: planSync_paths)
  moreover have "rq_path (cleanRequest (request0\<lparr>rq_op := ''put'', rq_path := en_path e\<rparr>)) \<noteq> en_path e"
    using assms(2) by (simp add: cleanRequest_def validUtf8_def)
  ultimately show ?thesis
    using manifest_reply.read_back [where x = "(True, [], es)" and bad = bad] assms(3)
    by (intro exI [of _ "encodeJson (encReply (ManifestReply True [] es))"] exI [of _ "map cleanEntry es"])
      (simp add: replyText_def)
qed

lemma ill_formed_name_recopied_witness:
  "\<exists>b dst. replyText (ManifestReply True [] []) = Inr b \<and> rd_manifest (readReplies (\<lambda>b. [])) b = Inr (True, [], dst) \<and>
     copyOf [CHR 0xFF] \<in> set (planSync [\<lparr> en_path = [CHR 0xFF], en_size = 1, en_mtime = 2 \<rparr>] dst True)"
proof -
  have "\<not> validUtf8 [CHR 0xFF]"
    by (simp add: validUtf8_def validText_def runes_def spans.simps utf8_defs)
  then show ?thesis
    using ill_formed_name_recopied [of "\<lparr> en_path = [CHR 0xFF], en_size = 1, en_mtime = 2 \<rparr>"
        "[\<lparr> en_path = [CHR 0xFF], en_size = 1, en_mtime = 2 \<rparr>]" "[]" "\<lambda>b. []" True]
    by auto
qed

section \<open>The codec of both programs\<close>

record sync_codec =
  sc_enc :: request_enc
  sc_dec :: reply_dec
  sc_rdec :: "bytes \<Rightarrow> string + sync_request"
  sc_renc :: reply_enc

definition jsonCodec :: "(bytes \<Rightarrow> string) \<Rightarrow> sync_codec" where
  "jsonCodec bad =
     \<lparr> sc_enc = requestText, sc_dec = readReplies bad, sc_rdec = readRequest bad, sc_renc = replyText \<rparr>"

text \<open>A request that arrives as it is, in one frame; the replies that do.\<close>

definition requestOk :: "sync_codec \<Rightarrow> sync_request \<Rightarrow> bool" where
  "requestOk k req \<longleftrightarrow>
     (case sc_enc k req of
        Inl e \<Rightarrow> False
      | Inr b \<Rightarrow> sc_rdec k b = Inr req \<and> length b \<le> maxFrame)"

definition replyOk :: "sync_codec \<Rightarrow> bool \<Rightarrow> string \<Rightarrow> bool" where
  "replyOk k ok msg \<longleftrightarrow>
     (case sc_renc k (Reply ok msg) of
        Inl e \<Rightarrow> False
      | Inr b \<Rightarrow> rd_plain (sc_dec k) b = Inr (ok, msg) \<and> length b \<le> maxFrame)"

lemma requestOkE:
  assumes "requestOk k req"
  obtains b where "sc_enc k req = Inr b" "sc_rdec k b = Inr req" "length b \<le> maxFrame"
  using assms by (auto simp: requestOk_def split: sum.splits)

lemma replyOkE:
  assumes "replyOk k ok msg"
  obtains b where "sc_renc k (Reply ok msg) = Inr b" "rd_plain (sc_dec k) b = Inr (ok, msg)" "length b \<le> maxFrame"
  using assms by (auto simp: replyOk_def split: sum.splits)

text \<open>With the JSON texts: well-formed strings, 64-bit numbers, and a text that fits in a frame.\<close>

lemma requestOk_json:
  assumes "requestFits r" "validUtf8 (rq_op r)" "validUtf8 (rq_path r)" "length (encodeJson (encRequest r)) \<le> maxFrame"
  shows "requestOk (jsonCodec bad) r"
proof -
  have "cleanRequest r = r"
    using assms(2,3) by (simp add: cleanRequest_def validUtf8_def)
  then show ?thesis
    using request.read_back [OF assms(1), of bad] assms(4)
    by (simp add: requestOk_def jsonCodec_def requestText_def readRequest_def)
qed

lemma replyOk_json:
  assumes "validUtf8 msg" "length (encodeJson (encReply (Reply ok msg))) \<le> maxFrame"
  shows "replyOk (jsonCodec bad) ok msg"
  using plain_reply.read_back [where x = "(ok, msg)" and bad = bad] assms
  by (simp add: replyOk_def jsonCodec_def replyText_def validUtf8_def)

lemma sum_bound:
  fixes x :: nat
  assumes "x \<le> 2 + (a + (b + (c + (d + (e + f)))))" "c \<le> c'" "d \<le> d'" "e \<le> e'" "f \<le> f'" "a \<le> a'" "b \<le> b'"
  shows "x \<le> 2 + (a' + (b' + (c' + (d' + (e' + f')))))"
  using assms by linarith

lemma request_length:
  assumes "requestFits r"
  shows "length (encodeJson (encRequest r)) \<le> 6 * (length (rq_op r) + length (rq_path r)) + 300"
proof -
  let ?f = "\<lambda>(k, v). 6 * length k + 4 + length (encodeJson v)"
  note encodeJson_length [of "member ''op'' (VStr (rq_op r)) @ member ''path'' (VStr (rq_path r)) @
       omitempty (rq_size r = 0) ''size'' (intText (rq_size r)) @
       omitempty (rq_mtime r = 0) ''mtime'' (intText (rq_mtime r)) @
       omitempty (rq_mode r = 0) ''mode'' (wordText (rq_mode r)) @
       omitempty (\<not> rq_gitignore r) ''gitignore'' (VBool (rq_gitignore r))", unfolded map_append sum_list_append]
  moreover have "sum_list (map ?f (omitempty (rq_size r = 0) ''size'' (intText (rq_size r)))) \<le> 48"
    "sum_list (map ?f (omitempty (rq_mtime r = 0) ''mtime'' (intText (rq_mtime r)))) \<le> 54"
    "sum_list (map ?f (omitempty (rq_mode r = 0) ''mode'' (wordText (rq_mode r)))) \<le> 48"
    "sum_list (map ?f (omitempty (\<not> rq_gitignore r) ''gitignore'' (VBool (rq_gitignore r)))) \<le> 63"
    using assms intText_length [of "rq_size r"] intText_length [of "rq_mtime r"] wordText_length [of "rq_mode r"]
    by (simp_all add: omitempty_def requestFits_def)
  moreover have "sum_list (map ?f (member ''op'' (VStr (rq_op r)))) \<le> 18 + 6 * length (rq_op r)"
    "sum_list (map ?f (member ''path'' (VStr (rq_path r)))) \<le> 30 + 6 * length (rq_path r)"
    using jsonString_length [of "rq_op r"] jsonString_length [of "rq_path r"] by (simp_all add: member_def)
  ultimately show ?thesis
    unfolding encRequest_def by (rule sum_bound [THEN order_trans]) simp
qed

lemma reply_length: "length (encodeJson (encReply (Reply ok msg))) \<le> 6 * length msg + 100"
proof -
  let ?f = "\<lambda>(k, v). 6 * length k + 4 + length (encodeJson v)"
  note encodeJson_length [of "member ''ok'' (VBool ok) @ omitempty (msg = []) ''err'' (VStr msg)", unfolded map_append sum_list_append]
  moreover have "sum_list (map ?f (member ''ok'' (VBool ok))) \<le> 22"
    "sum_list (map ?f (omitempty (msg = []) ''err'' (VStr msg))) \<le> 30 + 6 * length msg"
    using jsonString_length [of msg] by (simp_all add: member_def omitempty_def)
  ultimately show ?thesis
    by (simp add: encReply_def)
qed

lemma replyOk_success: "replyOk (jsonCodec bad) True []"
  using reply_length [of True "[]"] by (intro replyOk_json) (simp_all add: validUtf8_def isAscii_code maxFrame_def)

end
