(* ===== verification/Sync_Refine.thy ===== *)
theory Sync_Refine
  imports Sync_Props Sync_Json
begin

text \<open>
  A push of relay-sync against a host's file system: the requests the client writes are handed to the
  host's handler, what the handler does changes a file store, and the whole pass is shown to make of
  the store what the plan promises of the manifest (a simulation, call by call).
\<close>

section \<open>The host's file system as a store\<close>

text \<open>Files with their content and modification time, and directories, by the elements of their absolute path.\<close>

datatype fnode = FFile bytes int | FDir

type_synonym fstore = "string list \<Rightarrow> fnode option"

definition isFile :: "fstore \<Rightarrow> string list \<Rightarrow> bool" where
  "isFile st q = (case st q of Some (FFile c t) \<Rightarrow> True | _ \<Rightarrow> False)"

text \<open>What each effect of a handler does to the store; a file written is given the time \<open>now\<close>.\<close>

definition effApply :: "int \<Rightarrow> sync_effect \<Rightarrow> fstore \<Rightarrow> fstore" where
  "effApply now e st =
     (case e of
        Listed p g \<Rightarrow> st
      | OpenedFile p \<Rightarrow> st
      | MadeDirs d \<Rightarrow> (\<lambda>q. if prefix q (pathElems d) \<and> st q = None then Some FDir else st q)
      | WroteFile p mode c \<Rightarrow> st(pathElems p \<mapsto> FFile c now)
      | SetTimes p t \<Rightarrow>
          st(pathElems p := (case st (pathElems p) of Some (FFile c _) \<Rightarrow> Some (FFile c t) | n \<Rightarrow> n))
      | RemovedAll p \<Rightarrow> (\<lambda>q. if prefix (pathElems p) q then None else st q))"

text \<open>
  The errors of a disk that has room and permits everything: directories cannot be made through a
  file, and a file cannot be created where a directory stands.
\<close>

definition storeMkdir :: "fstore \<Rightarrow> string \<Rightarrow> string option" where
  "storeMkdir st d =
     (case find (isFile st) (prefixes (pathElems d)) of
        Some q \<Rightarrow> Some (''mkdir '' @ rootedPath q @ '': not a directory'')
      | None \<Rightarrow> None)"

definition storeCreate :: "fstore \<Rightarrow> string \<Rightarrow> nat \<Rightarrow> string option" where
  "storeCreate st p mode = (if st (pathElems p) = Some FDir then Some (''open '' @ p @ '': is a directory'') else None)"

definition onStore :: "fstore \<Rightarrow> sync_world \<Rightarrow> sync_world" where
  "onStore st w = w\<lparr>sw_mkdir := storeMkdir st, sw_create := storeCreate st, sw_disk := (\<lambda>p. None), sw_remove := (\<lambda>p. None)\<rparr>"

section \<open>A call against the host\<close>

definition deleteRequest :: "string \<Rightarrow> sync_request" where
  "deleteRequest path = request0\<lparr>rq_op := ''delete'', rq_path := path\<rparr>"

text \<open>
  What the client puts on the stream of a call before it waits for the reply; what it reports once
  the reply is there. A push makes no other calls.
\<close>

definition callSends :: "sync_codec \<Rightarrow> (string \<Rightarrow> local_file) \<Rightarrow> sync_call \<Rightarrow> bytes" where
  "callSends k files c =
     (case c of
        PutFile lp rp \<Rightarrow>
          (case snd (putFile (sc_enc k) (sc_dec k) (Inr (files lp)) (Inr \<lparr>dx_in = syncIn [], dx_out = syncOut\<rparr>) rp) of
             None \<Rightarrow> [] | Some out \<Rightarrow> out_data out)
      | DeleteRemote rp \<Rightarrow>
          (case sendRequest (sc_enc k) (deleteRequest rp) (Inr \<lparr>dx_in = syncIn [], dx_out = syncOut\<rparr>) of
             Inl e \<Rightarrow> [] | Inr s \<Rightarrow> out_data (dx_out s))
      | GetFile rp lp t \<Rightarrow> []
      | DeleteLocal lp \<Rightarrow> [])"

definition callReports :: "sync_codec \<Rightarrow> (string \<Rightarrow> local_file) \<Rightarrow> sync_call \<Rightarrow> bytes \<Rightarrow> string option" where
  "callReports k files c reply =
     (case c of
        PutFile lp rp \<Rightarrow>
          fst (putFile (sc_enc k) (sc_dec k) (Inr (files lp)) (Inr \<lparr>dx_in = syncIn reply, dx_out = syncOut\<rparr>) rp)
      | DeleteRemote rp \<Rightarrow>
          reqDelete (sc_enc k) (sc_dec k) (Inr \<lparr>dx_in = syncIn reply, dx_out = syncOut\<rparr>) rp
      | GetFile rp lp t \<Rightarrow> None
      | DeleteLocal lp \<Rightarrow> None)"

definition hostCall ::
  "sync_codec \<Rightarrow> sync_world \<Rightarrow> string \<Rightarrow> int \<Rightarrow> (string \<Rightarrow> local_file) \<Rightarrow> fstore \<Rightarrow> sync_call \<Rightarrow> string option \<times> fstore" where
  "hostCall k w root now files st c =
     (let (effs, h) = syncHandle (sc_rdec k) (sc_renc k) (onStore st w) root
            \<lparr>dx_in = syncIn (callSends k files c), dx_out = syncOut\<rparr>
      in (callReports k files c (out_data (dx_out h)), fold (effApply now) effs st))"

fun hostCalls ::
  "sync_codec \<Rightarrow> sync_world \<Rightarrow> string \<Rightarrow> int \<Rightarrow> (string \<Rightarrow> local_file) \<Rightarrow> fstore \<Rightarrow> sync_call list \<Rightarrow> string option \<times> fstore" where
  "hostCalls k w root now files st [] = (None, st)"
| "hostCalls k w root now files st (c # cs) =
     (case hostCall k w root now files st c of
        (Some e, st') \<Rightarrow> (Some e, st')
      | (None, st') \<Rightarrow> hostCalls k w root now files st' cs)"

section \<open>Puts and deletes\<close>

lemma plainReply_frame:
  "length b \<le> maxFrame \<Longrightarrow> rd_plain dec b = Inr (True, []) \<Longrightarrow> plainReply dec (syncIn (frameBytes b)) = None"
  using syncf.dec_enc [of b "[]" eof] by (simp add: plainReply_def syncReadJSON_def syncIn_def syncOk_def)

lemma syncHandle_delete:
  assumes "rdec b = Inr req" "length b \<le> maxFrame" "rq_op req = ''delete''"
    and "confine (sw_cwd w) root (rq_path req) = Some p" "p \<noteq> root" "sw_remove w p = None"
    and "renc (Reply True []) = Inr rb"
  shows "syncHandle rdec renc w root \<lparr>dx_in = syncIn (frameBytes b), dx_out = syncOut\<rparr> =
    ([RemovedAll p], \<lparr> dx_in = syncIn [], dx_out = syncOut\<lparr>out_data := frameBytes rb, out_closed := True\<rparr> \<rparr>)"
proof -
  have "readFrame (syncIn (frameBytes b)) = (Inr b, syncIn [])"
    using syncf.dec_enc [of b "[]" eof] assms(2) by (simp add: syncOk_def syncIn_def)
  then have "syncReadJSON rdec (syncIn (frameBytes b)) = (Inr req, syncIn [])"
    using assms(1) by (simp add: syncReadJSON_def)
  then show ?thesis
    using assms by (simp add: syncHandle_def hostDelete_def sendReply_def syncWriteJSON_def writeFrame_def writeLP_open
        syncOut_def streamClose_def)
qed

text \<open>A put against the store, and a delete.\<close>

lemma hostCall_put:
  assumes "requestOk k (putRequest (files lp) rp)" "replyOk k True []"
    and "lf_size (files lp) = int (length (lf_content (files lp)))" "0 < lf_mtime (files lp)"
    and "confine (sw_cwd w) root rp = Some (rootedPath W)" "list_all plainElem W"
    and "storeMkdir st (dirPath (rootedPath W)) = None" "st W \<noteq> Some FDir"
  shows "hostCall k w root now files st (PutFile lp rp) =
    (None, (effApply now (MadeDirs (dirPath (rootedPath W))) st)(W \<mapsto> FFile (lf_content (files lp)) (lf_mtime (files lp))))"
proof -
  let ?f = "files lp" and ?w = "onStore st w"
  obtain b where b: "sc_enc k (putRequest ?f rp) = Inr b" "sc_rdec k b = Inr (putRequest ?f rp)" "length b \<le> maxFrame"
    using assms(1) by (rule requestOkE)
  obtain rb where rb: "sc_renc k (Reply True []) = Inr rb" "rd_plain (sc_dec k) rb = Inr (True, [])" "length rb \<le> maxFrame"
    using assms(2) by (rule replyOkE)
  have sends: "callSends k files (PutFile lp rp) = frameBytes b @ lf_content ?f"
    using putFile_sends [where enc = "sc_enc k", OF b(1) _ assms(3), of "\<lparr>dx_in = syncIn [], dx_out = syncOut\<rparr>"]
    by (simp add: callSends_def)
  have reports: "callReports k files (PutFile lp rp) (frameBytes rb) = None"
    using putFile_sends [where enc = "sc_enc k", OF b(1) _ assms(3), of "\<lparr>dx_in = syncIn (frameBytes rb), dx_out = syncOut\<rparr>"]
      plainReply_frame [OF rb(3,2)]
    by (simp add: callReports_def)
  have ok: "sw_mkdir ?w (dirPath (rootedPath W)) = None" "\<And>m. sw_create ?w (rootedPath W) m = None"
    "sw_disk ?w (rootedPath W) = None" "sw_cwd ?w = sw_cwd w"
    using assms(6-8) by (simp_all add: onStore_def storeCreate_def)
  have "syncHandle (sc_rdec k) (sc_renc k) ?w root \<lparr>dx_in = syncIn (frameBytes b @ lf_content ?f), dx_out = syncOut\<rparr> =
      ([MadeDirs (dirPath (rootedPath W)), WroteFile (rootedPath W) (if lf_perm ?f = 0 then 420 else unat (lf_perm ?f)) (lf_content ?f)] @
        (if 0 < lf_mtime ?f then [SetTimes (rootedPath W) (lf_mtime ?f)] else []),
       \<lparr> dx_in = syncIn [], dx_out = syncOut\<lparr>out_data := frameBytes rb, out_closed := True\<rparr> \<rparr>)"
    using syncHandle_put [where rdec = "sc_rdec k" and req = "putRequest ?f rp" and content = "lf_content ?f"
        and h = "\<lparr>dx_in = syncIn (frameBytes b @ lf_content ?f), dx_out = syncOut\<rparr>"
        and renc = "sc_renc k" and root = root and w = ?w and p = "rootedPath W" and rb = rb, OF b(2,3), unfolded putRequest_sel]
      assms(3,5) ok rb(1)
    by simp
  then show ?thesis
    using assms(4,6) by (simp add: hostCall_def sends reports effApply_def)
qed

lemma hostCall_delete:
  assumes "requestOk k (deleteRequest rp)" "replyOk k True []"
    and "confine (sw_cwd w) root rp = Some (rootedPath W)" "list_all plainElem W" "rootedPath W \<noteq> root"
  shows "hostCall k w root now files st (DeleteRemote rp) = (None, effApply now (RemovedAll (rootedPath W)) st)"
proof -
  obtain b where b: "sc_enc k (deleteRequest rp) = Inr b" "sc_rdec k b = Inr (deleteRequest rp)" "length b \<le> maxFrame"
    using assms(1) by (rule requestOkE)
  obtain rb where rb: "sc_renc k (Reply True []) = Inr rb" "rd_plain (sc_dec k) rb = Inr (True, [])" "length rb \<le> maxFrame"
    using assms(2) by (rule replyOkE)
  have sent: "sendRequest (sc_enc k) (deleteRequest rp) (Inr \<lparr>dx_in = x, dx_out = syncOut\<rparr>) =
      Inr \<lparr>dx_in = x, dx_out = syncOut\<lparr>out_data := frameBytes b\<rparr>\<rparr>" for x
    using b(1) by (simp add: sendRequest_def syncWriteJSON_def writeFrame_def writeLP_open syncOut_def)
  have "callSends k files (DeleteRemote rp) = frameBytes b"
    by (simp add: callSends_def sent)
  moreover have "callReports k files (DeleteRemote rp) (frameBytes rb) = None"
    using sent [of "syncIn (frameBytes rb)"] plainReply_frame [OF rb(3,2)]
    by (simp add: callReports_def reqDelete_def deleteRequest_def)
  moreover have "syncHandle (sc_rdec k) (sc_renc k) (onStore st w) root \<lparr>dx_in = syncIn (frameBytes b), dx_out = syncOut\<rparr> =
      ([RemovedAll (rootedPath W)], \<lparr> dx_in = syncIn [], dx_out = syncOut\<lparr>out_data := frameBytes rb, out_closed := True\<rparr> \<rparr>)"
    by (rule syncHandle_delete [where rdec = "sc_rdec k" and req = "deleteRequest rp", OF b(2,3)]) (use assms(3,5) rb(1) in \<open>simp_all add: deleteRequest_def onStore_def\<close>)
  ultimately show ?thesis
    by (simp add: hostCall_def)
qed

section \<open>Where the calls of a push lead\<close>

text \<open>A path of a manifest: its elements are ordinary names.\<close>

definition relPath :: "string \<Rightarrow> bool" where
  "relPath p \<longleftrightarrow> list_all plainElem (splitOn slash p)"

lemma relPath_not_abs: "relPath p \<Longrightarrow> \<not> isAbs p"
  by (cases p) (auto simp: relPath_def isAbs_def hasPrefix_def plainElem_def)

lemma splitOn_inj: "splitOn c p = splitOn c q \<Longrightarrow> p = q"
  by (metis joinWith_splitOn)

lemma walkFrom_Nil [simp]: "walkFrom es [] = es"
  by (simp add: walkFrom_def cleanElem.simps)

lemma walk_joined:
  assumes "list_all plainElem R" "\<not> isAbs remoteDir" "relPath p"
  shows "walkFrom R (joinPath remoteDir p) = walkFrom R remoteDir @ splitOn slash p"
proof -
  have below: "walkFrom (walkFrom R remoteDir) p = walkFrom R remoteDir @ splitOn slash p"
    using assms(3) walkFrom_below [OF walkFrom_plain [OF assms(1)]] by (simp add: relPath_def)
  show ?thesis
  proof (cases "remoteDir = []")
    case True
    have "p \<noteq> []"
      using assms(3) by (auto simp: relPath_def plainElem_def)
    with True show ?thesis
      using below walkFrom_clean [OF assms(1) relPath_not_abs [OF assms(3)]] by (simp add: joinPath_def)
  next
    case False
    then have "\<not> isAbs (remoteDir @ ''/'' @ p)"
      using assms(2) isAbs_append [of remoteDir] by simp
    with False show ?thesis
      using below walkFrom_clean [OF assms(1)] by (simp add: joinPath_def) (simp add: walkFrom_def splitOn_append)
  qed
qed

lemma confine_joined:
  assumes "list_all plainElem R" "R \<noteq> []" "cwdOk cwd" "\<not> isAbs remoteDir" "relPath p"
    and "confine cwd (rootedPath R) remoteDir = Some (rootedPath W)" "list_all plainElem W"
  shows "prefix R W" "confine cwd (rootedPath R) (joinPath remoteDir p) = Some (rootedPath (W @ splitOn slash p))"
proof -
  have r: "absPath cwd (rootedPath R) = Some (rootedPath R)" "rootedPath R \<noteq> []"
    using assms(1) by (simp_all add: absPath_abs) (simp add: rootedPath_def)
  have W: "W = walkFrom R remoteDir" "prefix R W"
    using assms(1,2,6,7) walkFrom_plain [OF assms(1)] unfolding confine_iff [OF r assms(3)]
    by (auto simp: Let_def rootedPath_inj split: if_splits)
  show "prefix R W"
    by (rule W(2))
  show "confine cwd (rootedPath R) (joinPath remoteDir p) = Some (rootedPath (W @ splitOn slash p))"
    using assms(1,2) W walk_joined [OF assms(1,4,5)] unfolding confine_iff [OF r assms(3)]
    by (simp add: Let_def)
qed

lemma pathElems_dirPath:
  assumes "list_all plainElem Q" "Q \<noteq> []" "plainElem e"
  shows "pathElems (dirPath (rootedPath (Q @ [e]))) = Q"
proof -
  have j: "joinWith [slash] (Q @ [e]) = joinWith [slash] Q @ slash # e"
    using assms(2) by (induction Q rule: induct_list012) simp_all
  then have "rootedPath (Q @ [e]) = rootedPath Q @ slash # e"
    by (simp add: rootedPath_def)
  moreover have "slash \<notin> set e"
    using assms(3) by (simp add: plainElem_def)
  ultimately have "dirPath (rootedPath (Q @ [e])) = cleanPath (rootedPath Q @ ''/'' @ [])"
    by (simp add: dirPath_def)
  also have "isAbs (rootedPath Q @ ''/'' @ [])"
    by (simp add: isAbs_def rootedPath_def hasPrefix_def)
  then have "cleanPath (rootedPath Q @ ''/'' @ []) = rootedPath (pathElems (rootedPath Q @ ''/'' @ []))"
    by (rule cleanPath_rooted)
  also have "pathElems (rootedPath Q @ ''/'' @ []) = Q"
    unfolding pathElems_join using assms(1) by simp
  finally show ?thesis
    using assms(1) by simp
qed

section \<open>The simulation\<close>

text \<open>The manifest of the files below a directory, and stores that are trees.\<close>

definition storeManifest :: "fstore \<Rightarrow> string list \<Rightarrow> string \<Rightarrow> entry option" where
  "storeManifest st W p =
     (case st (W @ splitOn slash p) of
        Some (FFile c t) \<Rightarrow> Some \<lparr> en_path = p, en_size = int (length c), en_mtime = t \<rparr>
      | _ \<Rightarrow> None)"

definition treeStore :: "fstore \<Rightarrow> bool" where
  "treeStore st \<longleftrightarrow> (\<forall>q r. st r \<noteq> None \<longrightarrow> strict_prefix q r \<longrightarrow> st q = Some FDir)"

text \<open>A place a file can be written to: no file on the way and no directory in its place.\<close>

definition openPlace :: "fstore \<Rightarrow> string list \<Rightarrow> bool" where
  "openPlace st P \<longleftrightarrow> st P \<noteq> Some FDir \<and> (\<forall>q. strict_prefix q P \<longrightarrow> \<not> isFile st q)"

lemma not_isFile: "\<not> isFile st q \<longleftrightarrow> st q = None \<or> st q = Some FDir"
  by (auto simp: isFile_def split: option.split fnode.split)

lemma treeStore_below: "treeStore st \<Longrightarrow> isFile st P \<Longrightarrow> strict_prefix P r \<Longrightarrow> st r = None"
proof (rule ccontr)
  assume "treeStore st" "isFile st P" "strict_prefix P r" "st r \<noteq> None"
  then have "st P = Some FDir"
    unfolding treeStore_def by blast
  with \<open>isFile st P\<close> show False
    by (simp add: isFile_def)
qed

lemma storeManifest_None: "storeManifest st W p = None \<longleftrightarrow> \<not> isFile st (W @ splitOn slash p)"
  by (auto simp: storeManifest_def isFile_def split: option.split fnode.split)

text \<open>The two changes of the store a push makes.\<close>

definition putStore :: "fstore \<Rightarrow> string list \<Rightarrow> bytes \<Rightarrow> int \<Rightarrow> fstore" where
  "putStore st P c t = (\<lambda>q. if strict_prefix q P \<and> st q = None then Some FDir else st q)(P \<mapsto> FFile c t)"

definition delStore :: "fstore \<Rightarrow> string list \<Rightarrow> fstore" where
  "delStore st P = (\<lambda>q. if prefix P q then None else st q)"

lemma isFile_putStore: "isFile (putStore st P c t) q \<longleftrightarrow> q = P \<or> isFile st q"
  by (auto simp: isFile_def putStore_def split: option.split fnode.split)

lemma storeManifest_put:
  "storeManifest (putStore st (W @ splitOn slash p) c t) W =
     (storeManifest st W)(p \<mapsto> \<lparr> en_path = p, en_size = int (length c), en_mtime = t \<rparr>)"
proof
  fix q
  show "storeManifest (putStore st (W @ splitOn slash p) c t) W q =
      ((storeManifest st W)(p \<mapsto> \<lparr> en_path = p, en_size = int (length c), en_mtime = t \<rparr>)) q"
    using splitOn_inj [of slash q p]
    by (auto simp: storeManifest_def putStore_def split: option.split fnode.split)
qed

lemma treeStore_put:
  assumes "treeStore st" "openPlace st P"
  shows "treeStore (putStore st P c t)"
  unfolding treeStore_def
proof (intro allI impI)
  fix q r
  assume r: "putStore st P c t r \<noteq> None" and q: "strict_prefix q r"
  have way: "st q = None \<or> st q = Some FDir" if "strict_prefix q P"
    using assms(2) that by (simp add: openPlace_def not_isFile)
  consider "st r \<noteq> None" | "strict_prefix q P"
    using r q prefix_order.less_trans [OF q, of P] by (auto simp: putStore_def split: if_splits)
  then show "putStore st P c t q = Some FDir"
  proof cases
    case 1
    then have "st q = Some FDir"
      using assms(1) q by (auto simp: treeStore_def)
    then show ?thesis
      using assms(2) by (auto simp: putStore_def openPlace_def)
  next
    case 2
    then show ?thesis
      using way by (auto simp: putStore_def)
  qed
qed

lemma openPlace_put:
  assumes "openPlace st Q" "\<not> strict_prefix P Q" "\<not> strict_prefix Q P"
  shows "openPlace (putStore st P c t) Q"
  using assms unfolding openPlace_def isFile_putStore by (auto simp: putStore_def)

lemma delStore_file:
  assumes "treeStore st" "isFile st P"
  shows "delStore st P = st(P := None)"
proof
  fix q
  have "st q = None" if "strict_prefix P q"
    using treeStore_below [OF assms that] .
  then show "delStore st P q = (st(P := None)) q"
    by (auto simp: delStore_def strict_prefix_def)
qed

lemma storeManifest_del:
  "storeManifest (st(W @ splitOn slash p := None)) W = (storeManifest st W)(p := None)"
  using splitOn_inj [of slash _ p] by (auto simp: storeManifest_def fun_eq_iff)

lemma treeStore_del:
  assumes "treeStore st" "isFile st P"
  shows "treeStore (st(P := None))"
  unfolding treeStore_def
proof (intro allI impI)
  fix q r
  assume "(st(P := None)) r \<noteq> None" "strict_prefix q r"
  then have "st q = Some FDir"
    using assms(1) unfolding treeStore_def by (auto split: if_splits)
  then show "(st(P := None)) q = Some FDir"
    using assms(2) by (auto simp: isFile_def)
qed

section \<open>A push, call by call\<close>

text \<open>The host lets the remote directory through, as the directory \<open>W\<close> below its root \<open>R\<close>.\<close>

definition hostLets :: "sync_world \<Rightarrow> string list \<Rightarrow> string \<Rightarrow> string list \<Rightarrow> bool" where
  "hostLets w R remoteDir W \<longleftrightarrow>
     list_all plainElem R \<and> R \<noteq> [] \<and> cwdOk (sw_cwd w) \<and> \<not> isAbs remoteDir \<and>
     confine (sw_cwd w) (rootedPath R) remoteDir = Some (rootedPath W) \<and> list_all plainElem W"

text \<open>The local file of a manifest entry is what the entry says, and its upload can be told in JSON.\<close>

definition localEntry :: "sync_codec \<Rightarrow> (string \<Rightarrow> local_file) \<Rightarrow> string \<Rightarrow> string \<Rightarrow> entry \<Rightarrow> bool" where
  "localEntry k files localDir remoteDir e \<longleftrightarrow>
     (let f = files (joinPath localDir (en_path e))
      in lf_size f = int (length (lf_content f)) \<and> lf_size f = en_size e \<and> lf_mtime f = en_mtime e \<and>
         0 < en_mtime e \<and> requestOk k (putRequest f (joinPath remoteDir (en_path e))))"

lemma put_step:
  assumes "hostLets w R remoteDir W" "relPath (en_path e)" "localEntry k files localDir remoteDir e" "replyOk k True []"
    and "openPlace st (W @ splitOn slash (en_path e))"
  shows "hostCall k w (rootedPath R) now files st (pushCall localDir remoteDir (copyOf (en_path e))) =
    (None, putStore st (W @ splitOn slash (en_path e)) (lf_content (files (joinPath localDir (en_path e)))) (en_mtime e))"
proof -
  let ?P = "W @ splitOn slash (en_path e)" and ?f = "files (joinPath localDir (en_path e))"
  obtain Q x where Q: "splitOn slash (en_path e) = Q @ [x]"
    by (metis rev_exhaust splitOn_ne_Nil)
  note h = assms(1) [unfolded hostLets_def]
  have conf: "prefix R W" "confine (sw_cwd w) (rootedPath R) (joinPath remoteDir (en_path e)) = Some (rootedPath ?P)"
    using confine_joined [of R "sw_cwd w" remoteDir "en_path e" W] h assms(2) by blast+
  have P: "list_all plainElem ?P"
    using h assms(2) by (simp add: relPath_def)
  have "W \<noteq> []"
    using conf(1) h by (cases W) auto
  then have dir: "pathElems (dirPath (rootedPath ?P)) = W @ Q"
    using pathElems_dirPath [of "W @ Q" x] P Q by simp
  have way: "prefix q (W @ Q) \<longleftrightarrow> strict_prefix q ?P" for q
    using prefix_snoc [of q "W @ Q" x] prefix_length_le [of q "W @ Q"] by (auto simp: Q strict_prefix_def)
  have mk: "storeMkdir st (dirPath (rootedPath ?P)) = None"
    using assms(5) by (auto simp: storeMkdir_def dir openPlace_def find_None_iff way split: option.split)
  have "effApply now (MadeDirs (dirPath (rootedPath ?P))) st = (\<lambda>q. if strict_prefix q ?P \<and> st q = None then Some FDir else st q)"
    by (simp add: effApply_def dir way)
  moreover have "st ?P \<noteq> Some FDir"
    using assms(5) by (simp add: openPlace_def)
  ultimately show ?thesis
    using hostCall_put [where files = files and lp = "joinPath localDir (en_path e)" and st = st and now = now,
        OF _ assms(4) _ _ conf(2) P mk] assms(3)
    by (simp add: pushCall_def copyOf_def localEntry_def Let_def putStore_def)
qed

lemma delete_step:
  assumes "hostLets w R remoteDir W" "relPath p" "requestOk k (deleteRequest (joinPath remoteDir p))" "replyOk k True []"
    and "treeStore st" "isFile st (W @ splitOn slash p)"
  shows "hostCall k w (rootedPath R) now files st (pushCall localDir remoteDir (deleteOf p)) =
    (None, st(W @ splitOn slash p := None))"
proof -
  let ?P = "W @ splitOn slash p"
  note h = assms(1) [unfolded hostLets_def]
  have conf: "prefix R W" "confine (sw_cwd w) (rootedPath R) (joinPath remoteDir p) = Some (rootedPath ?P)"
    using confine_joined [of R "sw_cwd w" remoteDir p W] h assms(2) by blast+
  have P: "list_all plainElem ?P"
    using h assms(2) by (simp add: relPath_def)
  have "?P \<noteq> R"
    using conf(1) by (auto simp: prefix_def)
  then have "rootedPath ?P \<noteq> rootedPath R"
    using rootedPath_inj [OF P] h by blast
  then have "hostCall k w (rootedPath R) now files st (DeleteRemote (joinPath remoteDir p)) =
      (None, effApply now (RemovedAll (rootedPath ?P)) st)"
    by (rule hostCall_delete [OF assms(3,4) conf(2) P])
  moreover have "effApply now (RemovedAll (rootedPath ?P)) st = delStore st ?P"
    using P by (simp add: effApply_def delStore_def)
  ultimately show ?thesis
    using delStore_file [OF assms(5,6)] by (simp add: pushCall_def deleteOf_def)
qed

lemma hostCalls_append:
  "hostCalls k w root now files st cs = (None, st') \<Longrightarrow>
   hostCalls k w root now files st (cs @ ds) = hostCalls k w root now files st' ds"
  by (induction cs arbitrary: st) (auto split: prod.splits option.splits)

text \<open>The copies, in any order, of entries none of which lies below another.\<close>

definition apart :: "entry list \<Rightarrow> bool" where
  "apart es \<longleftrightarrow> (\<forall>d \<in> set es. \<forall>e \<in> set es. \<not> strict_prefix (splitOn slash (en_path d)) (splitOn slash (en_path e)))"

definition uploaded :: "(string \<Rightarrow> local_file) \<Rightarrow> string \<Rightarrow> entry \<Rightarrow> fnode" where
  "uploaded files localDir e = FFile (lf_content (files (joinPath localDir (en_path e)))) (en_mtime e)"

lemma copies_step:
  assumes "hostLets w R remoteDir W" "replyOk k True []"
    and "\<forall>e \<in> set src. relPath (en_path e) \<and> localEntry k files localDir remoteDir e" "apart src"
    and "distinct (map en_path src)"
    and "treeStore st" "\<forall>e \<in> set src. openPlace st (W @ splitOn slash (en_path e))"
    and "set ps \<subseteq> en_path ` set src"
  shows "\<exists>st'. hostCalls k w (rootedPath R) now files st (map (pushCall localDir remoteDir) (map copyOf ps)) = (None, st') \<and>
    treeStore st' \<and> storeManifest st' W = (\<lambda>p. if p \<in> set ps then manifestOf src p else storeManifest st W p) \<and>
    (\<forall>e \<in> set src. en_path e \<in> set ps \<or> st (W @ splitOn slash (en_path e)) = Some (uploaded files localDir e) \<longrightarrow>
      st' (W @ splitOn slash (en_path e)) = Some (uploaded files localDir e))"
  using assms(6-8)
proof (induction ps arbitrary: st)
  case Nil
  then show ?case by simp
next
  case (Cons p ps)
  obtain e where e: "e \<in> set src" "en_path e = p"
    using Cons.prems(3) by auto
  let ?c = "lf_content (files (joinPath localDir p))"
  let ?st = "putStore st (W @ splitOn slash p) ?c (en_mtime e)"
  have le: "localEntry k files localDir remoteDir e" "relPath (en_path e)"
    using assms(3) e by auto
  have op: "openPlace st (W @ splitOn slash p)"
    using Cons.prems(2) e by blast
  have call: "hostCall k w (rootedPath R) now files st (pushCall localDir remoteDir (copyOf p)) = (None, ?st)"
    using put_step [OF assms(1) le(2,1) assms(2), of st now] op e(2) by simp
  have sp: "strict_prefix (W @ xs) (W @ ys) \<longleftrightarrow> strict_prefix xs ys" for xs ys
    by (simp add: strict_prefix_def)
  have "\<forall>d \<in> set src. openPlace ?st (W @ splitOn slash (en_path d))"
    using openPlace_put Cons.prems(2) assms(4) e unfolding apart_def by (metis sp)
  moreover have "treeStore ?st"
    using treeStore_put [OF Cons.prems(1) op] .
  ultimately obtain st' where st': "hostCalls k w (rootedPath R) now files ?st (map (pushCall localDir remoteDir) (map copyOf ps)) = (None, st')"
      "treeStore st'" "storeManifest st' W = (\<lambda>q. if q \<in> set ps then manifestOf src q else storeManifest ?st W q)"
      "\<forall>d \<in> set src. en_path d \<in> set ps \<or> ?st (W @ splitOn slash (en_path d)) = Some (uploaded files localDir d) \<longrightarrow>
        st' (W @ splitOn slash (en_path d)) = Some (uploaded files localDir d)"
    using Cons.IH [of ?st] Cons.prems(3) by auto
  have "manifestOf src p = Some e"
    using manifestOf_distinct [OF assms(5) e(1)] e(2) by simp
  moreover have "\<lparr> en_path = p, en_size = int (length ?c), en_mtime = en_mtime e \<rparr> = e"
    using le(1) e(2) by (simp add: localEntry_def Let_def)
  ultimately have "storeManifest ?st W = (storeManifest st W)(p := manifestOf src p)"
    by (simp add: storeManifest_put)
  then have man: "storeManifest st' W = (\<lambda>q. if q \<in> set (p # ps) then manifestOf src q else storeManifest st W q)"
    unfolding st'(3) by (auto simp: fun_eq_iff)
  have "?st (W @ splitOn slash (en_path d)) = Some (uploaded files localDir d)"
    if d: "d \<in> set src" "en_path d = p \<or> st (W @ splitOn slash (en_path d)) = Some (uploaded files localDir d)" for d
  proof (cases "en_path d = p")
    case True
    then have "d = e"
      using d(1) e manifestOf_distinct [OF assms(5)] by (metis option.inject)
    then show ?thesis
      using e(2) by (simp add: putStore_def uploaded_def)
  next
    case False
    then show ?thesis
      using d(2) splitOn_inj [of slash "en_path d" p] by (auto simp: putStore_def)
  qed
  then show ?case
    using call st'(1,2,4) man by auto
qed

lemma deletes_step:
  assumes "hostLets w R remoteDir W" "replyOk k True []"
    and "\<forall>p \<in> set ps. relPath p \<and> requestOk k (deleteRequest (joinPath remoteDir p))" "distinct ps"
    and "treeStore st" "\<forall>p \<in> set ps. isFile st (W @ splitOn slash p)"
  shows "\<exists>st'. hostCalls k w (rootedPath R) now files st (map (pushCall localDir remoteDir) (map deleteOf ps)) = (None, st') \<and>
    treeStore st' \<and> storeManifest st' W = (\<lambda>p. if p \<in> set ps then None else storeManifest st W p) \<and>
    (\<forall>q. (\<forall>p \<in> set ps. q \<noteq> W @ splitOn slash p) \<longrightarrow> st' q = st q)"
  using assms(3-6)
proof (induction ps arbitrary: st)
  case Nil
  then show ?case by simp
next
  case (Cons p ps)
  let ?P = "W @ splitOn slash p"
  let ?st = "st(?P := None)"
  have f: "isFile st ?P"
    using Cons.prems(4) by simp
  have call: "hostCall k w (rootedPath R) now files st (pushCall localDir remoteDir (deleteOf p)) = (None, ?st)"
    using delete_step [OF assms(1) _ _ assms(2) Cons.prems(3) f] Cons.prems(1) by simp
  have "\<forall>q \<in> set ps. isFile ?st (W @ splitOn slash q)"
    using Cons.prems(2,4) splitOn_inj [of slash _ p] by (auto simp: isFile_def)
  then obtain st' where st': "hostCalls k w (rootedPath R) now files ?st (map (pushCall localDir remoteDir) (map deleteOf ps)) = (None, st')"
      "treeStore st'" "storeManifest st' W = (\<lambda>q. if q \<in> set ps then None else storeManifest ?st W q)"
      "\<forall>q. (\<forall>p \<in> set ps. q \<noteq> W @ splitOn slash p) \<longrightarrow> st' q = ?st q"
    using Cons.IH [OF _ _ treeStore_del [OF Cons.prems(3) f]] Cons.prems(1,2) by fastforce
  have "storeManifest st' W = (\<lambda>q. if q \<in> set (p # ps) then None else storeManifest st W q)"
    unfolding st'(3) storeManifest_del by (auto simp: fun_eq_iff)
  then show ?case
    using call st'(1,2,4) by auto
qed

lemma push_mirrors:
  assumes "hostLets w R remoteDir W" "replyOk k True []" "so_dryRun opts = False"
    and "\<forall>e \<in> set src. relPath (en_path e) \<and> localEntry k files localDir remoteDir e" "apart src"
    and "distinct (map en_path src)" "distinct (map en_path dst)"
    and "\<forall>e \<in> set dst. relPath (en_path e) \<and> requestOk k (deleteRequest (joinPath remoteDir (en_path e)))"
    and "treeStore st" "\<forall>e \<in> set src. openPlace st (W @ splitOn slash (en_path e))"
    and "\<forall>p. relPath p \<longrightarrow> storeManifest st W p = manifestOf dst p"
  shows "\<exists>st'. hostCalls k w (rootedPath R) now files st
        (snd (push (Inr src) (Inr dst) (\<lambda>c. None) localDir remoteDir opts)) = (None, st') \<and>
    treeStore st' \<and>
    (\<forall>p. relPath p \<longrightarrow> storeManifest st' W p =
      (case manifestOf src p of Some e \<Rightarrow> Some e | None \<Rightarrow> if so_del opts then None else storeManifest st W p)) \<and>
    (\<forall>e \<in> set src. manifestOf dst (en_path e) \<noteq> Some e \<longrightarrow>
      st' (W @ splitOn slash (en_path e)) = Some (uploaded files localDir e))"
proof -
  let ?cs = "sort (map en_path (filter (\<lambda>s. manifestOf dst (en_path s) \<noteq> Some s) src))"
  let ?ds = "sort (if so_del opts then map en_path (filter (\<lambda>d. en_path d \<notin> en_path ` set src) dst) else [])"
  let ?run = "hostCalls k w (rootedPath R) now files"
  have runs: "snd (runCalls (\<lambda>c. None) calls) = calls" for calls
    by (induction calls) simp_all
  have calls: "snd (push (Inr src) (Inr dst) (\<lambda>c. None) localDir remoteDir opts) =
      map (pushCall localDir remoteDir) (map copyOf ?cs) @ map (pushCall localDir remoteDir) (map deleteOf ?ds)"
    using assms(3) by (simp add: push_def Let_def runs planSync_paths)
  have sub: "set ?cs \<subseteq> en_path ` set src"
    by auto
  obtain s1 where s1: "?run st (map (pushCall localDir remoteDir) (map copyOf ?cs)) = (None, s1)" "treeStore s1"
      "storeManifest s1 W = (\<lambda>p. if p \<in> set ?cs then manifestOf src p else storeManifest st W p)"
      "\<forall>e \<in> set src. en_path e \<in> set ?cs \<longrightarrow> s1 (W @ splitOn slash (en_path e)) = Some (uploaded files localDir e)"
    using copies_step [OF assms(1,2,4-6,9,10), of ?cs now, OF sub] by blast
  have ds: "set ?ds \<subseteq> en_path ` set dst" "set ?ds \<inter> en_path ` set src = {}" "distinct ?ds"
    using distinct_map_filter [OF assms(7)] by (auto simp: if_distrib [of distinct]) (metis image_eqI)
  have isf: "isFile s1 (W @ splitOn slash p)" if "p \<in> set ?ds" for p
  proof -
    have "p \<notin> set ?cs" "relPath p" "manifestOf dst p \<noteq> None"
      using that ds(1,2) assms(8) by (auto simp: manifestOf_None)
    then have "storeManifest s1 W p \<noteq> None"
      using assms(11) by (simp add: s1(3))
    then show ?thesis
      by (simp add: storeManifest_None)
  qed
  obtain s2 where s2: "?run s1 (map (pushCall localDir remoteDir) (map deleteOf ?ds)) = (None, s2)" "treeStore s2"
      "storeManifest s2 W = (\<lambda>p. if p \<in> set ?ds then None else storeManifest s1 W p)"
      "\<forall>q. (\<forall>p \<in> set ?ds. q \<noteq> W @ splitOn slash p) \<longrightarrow> s2 q = s1 q"
    using deletes_step [OF assms(1,2) _ ds(3) s1(2)] ds(1) assms(8) isf by blast
  have "?run st (snd (push (Inr src) (Inr dst) (\<lambda>c. None) localDir remoteDir opts)) = (None, s2)"
    unfolding calls hostCalls_append [OF s1(1)] by (rule s2(1))
  moreover have "storeManifest s2 W p =
      (case manifestOf src p of Some e \<Rightarrow> Some e | None \<Rightarrow> if so_del opts then None else storeManifest st W p)"
    if "relPath p" for p
  proof -
    have st: "storeManifest st W p = manifestOf dst p"
      using assms(11) that by blast
    have "storeManifest s2 W p = foldl (applyAction (manifestOf src)) (manifestOf dst) (planSync src dst (so_del opts)) p"
      unfolding planSync_paths foldl_append apply_copies apply_deletes s2(3) s1(3) by (simp add: st)
    also have "\<dots> = (if p \<in> en_path ` set src then manifestOf src p else if so_del opts then None else manifestOf dst p)"
      unfolding plan_applied ..
    also have "\<dots> = (case manifestOf src p of Some e \<Rightarrow> Some e | None \<Rightarrow> if so_del opts then None else storeManifest st W p)"
      using manifestOf_None [of src p] st by (auto split: option.split)
    finally show ?thesis .
  qed
  moreover have "s2 (W @ splitOn slash (en_path e)) = Some (uploaded files localDir e)"
    if e: "e \<in> set src" "manifestOf dst (en_path e) \<noteq> Some e" for e
  proof -
    have "en_path e \<in> set ?cs"
      using e by auto
    moreover have "\<forall>p \<in> set ?ds. W @ splitOn slash (en_path e) \<noteq> W @ splitOn slash p"
      using ds(2) e(1) splitOn_inj [of slash "en_path e"] by auto
    ultimately show ?thesis
      using s1(4) s2(4) e(1) by simp
  qed
  ultimately show ?thesis
    using s2(2) by blast
qed

text \<open>
  C9: A push makes the host's files the client's (the plan of a sync implemented by the calls, the
  streams, the host's handlers and its file system). From a host tree whose files are those of the
  manifest the client got, and into which each local file fits (none stands where a directory is, or
  below a file), the calls of a push handed to the host's handler all succeed; then every path of a
  local file holds that file's size and time, with its content wherever it was copied, every other
  path is as before, or with deletion holds no file.
\<close>

theorem push_mirrors_host:
  assumes "hostLets w R remoteDir W" "so_dryRun opts = False"
    and "\<forall>e \<in> set src. relPath (en_path e) \<and> localEntry (jsonCodec bad) files localDir remoteDir e" "apart src"
    and "distinct (map en_path src)" "distinct (map en_path dst)"
    and "\<forall>e \<in> set dst. relPath (en_path e) \<and> requestOk (jsonCodec bad) (deleteRequest (joinPath remoteDir (en_path e)))"
    and "treeStore st" "\<forall>e \<in> set src. openPlace st (W @ splitOn slash (en_path e))"
    and "\<forall>p. relPath p \<longrightarrow> storeManifest st W p = manifestOf dst p"
  shows "\<exists>st'. hostCalls (jsonCodec bad) w (rootedPath R) now files st
        (snd (push (Inr src) (Inr dst) (\<lambda>c. None) localDir remoteDir opts)) = (None, st') \<and>
    treeStore st' \<and>
    (\<forall>p. relPath p \<longrightarrow> storeManifest st' W p =
      (case manifestOf src p of Some e \<Rightarrow> Some e | None \<Rightarrow> if so_del opts then None else storeManifest st W p)) \<and>
    (\<forall>e \<in> set src. manifestOf dst (en_path e) \<noteq> Some e \<longrightarrow>
      st' (W @ splitOn slash (en_path e)) = Some (uploaded files localDir e))"
  by (rule push_mirrors [OF assms(1) replyOk_success assms(2-10)])

abbreviation mirrorCodec :: sync_codec where
  "mirrorCodec \<equiv> jsonCodec (\<lambda>b. [])"

lemma mirror_requests:
  "requestOk mirrorCodec (putRequest pushFile ''f'')" "requestOk mirrorCodec (deleteRequest ''g'')"
proof -
  have "requestFits (putRequest pushFile ''f'')" "requestFits (deleteRequest ''g'')"
    by (simp_all add: requestFits_def int64_def pushFile_def deleteRequest_def request0_def)
  then show "requestOk mirrorCodec (putRequest pushFile ''f'')" "requestOk mirrorCodec (deleteRequest ''g'')"
    using request_length [of "putRequest pushFile ''f''"] request_length [of "deleteRequest ''g''"]
    by (intro requestOk_json; simp add: validUtf8_def isAscii_code maxFrame_def deleteRequest_def)+
qed

definition mirrorEntry :: "string \<Rightarrow> entry" where
  "mirrorEntry p = \<lparr> en_path = p, en_size = 4, en_mtime = 9 \<rparr>"

definition mirrorStore :: fstore where
  "mirrorStore = (\<lambda>q. if q = [''srv'', ''g''] then Some (FFile ''abcd'' 9) else if prefix q [''srv''] then Some FDir else None)"

lemma mirror_setting:
  "hostLets swWorld [''srv''] ''.'' [''srv'']"
  "relPath ''f''" "relPath ''g''"
  "localEntry mirrorCodec (\<lambda>p. pushFile) ''d'' ''.'' (mirrorEntry ''f'')"
  "requestOk mirrorCodec (deleteRequest (joinPath ''.'' ''g''))"
proof -
  have "absPath None (rootedPath [''srv'']) = Some (rootedPath [''srv''])" "cwdOk None"
    by (simp_all add: absPath_abs plainElem_def cwdOk_def)
  note c = confine_iff [OF this(1) _ this(2), of "''.''"]
  show "hostLets swWorld [''srv''] ''.'' [''srv'']"
    using c by (simp add: hostLets_def swWorld_def cwdOk_def isAbs_def hasPrefix_def plainElem_def walkFrom_def cleanElem.simps)
      (simp add: rootedPath_def)
  have j: "joinPath ''.'' ''f'' = ''f''" "joinPath ''.'' ''g'' = ''g''"
    by (simp_all add: gopath_defs hasPrefix_def cleanElem.simps)
  show "relPath ''f''" "relPath ''g''"
    by (simp_all add: relPath_def plainElem_def)
  show "localEntry mirrorCodec (\<lambda>p. pushFile) ''d'' ''.'' (mirrorEntry ''f'')"
    using j mirror_requests(1) by (simp add: localEntry_def mirrorEntry_def) (simp add: pushFile_def)
  show "requestOk mirrorCodec (deleteRequest (joinPath ''.'' ''g''))"
    using j mirror_requests(2) by simp
qed

lemma mirror_store:
  "treeStore mirrorStore" "openPlace mirrorStore [''srv'', ''f'']"
  "storeManifest mirrorStore [''srv''] p = manifestOf [mirrorEntry ''g''] p"
proof -
  have g: "splitOn slash p = [''g''] \<longleftrightarrow> p = ''g''"
    using splitOn_inj [of slash p "''g''"] by auto
  show "treeStore mirrorStore"
    unfolding treeStore_def
  proof (intro allI impI)
    fix q r :: "string list"
    assume "mirrorStore r \<noteq> None" "strict_prefix q r"
    then have "prefix r [''srv'', ''g'']" "strict_prefix q [''srv'', ''g'']"
      by (auto simp: mirrorStore_def strict_prefix_def prefix_Cons split: if_splits)
    then show "mirrorStore q = Some FDir"
      by (auto simp: mirrorStore_def strict_prefix_def prefix_Cons)
  qed
  show "openPlace mirrorStore [''srv'', ''f'']"
    by (auto simp: openPlace_def mirrorStore_def isFile_def strict_prefix_def prefix_Cons)
  show "storeManifest mirrorStore [''srv''] p = manifestOf [mirrorEntry ''g''] p"
    using g by (auto simp: storeManifest_def mirrorStore_def mirrorEntry_def manifestOf_find)
qed

theorem push_mirrors_host_witness:
  "\<exists>st'. hostCalls mirrorCodec swWorld (rootedPath [''srv'']) 77 (\<lambda>p. pushFile) mirrorStore
      (snd (push (Inr [mirrorEntry ''f'']) (Inr [mirrorEntry ''g'']) (\<lambda>c. None) ''d'' ''.''
        \<lparr> so_del = True, so_dryRun = False, so_gitignore = False \<rparr>)) = (None, st') \<and>
    storeManifest st' [''srv''] ''f'' = Some (mirrorEntry ''f'') \<and> storeManifest st' [''srv''] ''g'' = None"
proof -
  let ?o = "\<lparr> so_del = True, so_dryRun = False, so_gitignore = False \<rparr>"
  have p: "en_path (mirrorEntry x) = x" for x
    by (simp add: mirrorEntry_def)
  obtain st' where st': "hostCalls mirrorCodec swWorld (rootedPath [''srv'']) 77 (\<lambda>p. pushFile) mirrorStore
      (snd (push (Inr [mirrorEntry ''f'']) (Inr [mirrorEntry ''g'']) (\<lambda>c. None) ''d'' ''.'' ?o)) = (None, st')"
    "\<forall>p. relPath p \<longrightarrow> storeManifest st' [''srv''] p =
      (case manifestOf [mirrorEntry ''f''] p of Some e \<Rightarrow> Some e | None \<Rightarrow>
         if so_del ?o then None else storeManifest mirrorStore [''srv''] p)"
    using push_mirrors_host [OF mirror_setting(1), of ?o "[mirrorEntry ''f'']" "\<lambda>b. []" "\<lambda>p. pushFile" "''d''"
        "[mirrorEntry ''g'']" mirrorStore 77] mirror_setting(2-5) mirror_store
    by (auto simp: p apart_def)
  then show ?thesis
    using mirror_setting(2,3) by (intro exI [of _ st']) (simp add: manifestOf_find p)
qed

section \<open>A file in a directory's place\<close>

lemma hostCall_put_refused:
  assumes "requestOk k (putRequest (files lp) rp)" "replyOk k False msg"
    and "lf_size (files lp) = int (length (lf_content (files lp)))"
    and "confine (sw_cwd w) root rp = Some p" "storeMkdir st (dirPath p) = None" "\<forall>m. storeCreate st p m = Some msg"
  shows "hostCall k w root now files st (PutFile lp rp) = (Some msg, effApply now (MadeDirs (dirPath p)) st)"
proof -
  let ?f = "files lp" and ?w = "onStore st w"
  obtain b where b: "sc_enc k (putRequest ?f rp) = Inr b" "sc_rdec k b = Inr (putRequest ?f rp)" "length b \<le> maxFrame"
    using assms(1) by (rule requestOkE)
  obtain rb where rb: "sc_renc k (Reply False msg) = Inr rb" "rd_plain (sc_dec k) rb = Inr (False, msg)" "length rb \<le> maxFrame"
    using assms(2) by (rule replyOkE)
  let ?h = "\<lparr>dx_in = syncIn (frameBytes b @ lf_content ?f), dx_out = syncOut\<rparr>"
  have sends: "callSends k files (PutFile lp rp) = frameBytes b @ lf_content ?f"
    using putFile_sends [where enc = "sc_enc k", OF b(1) _ assms(3), of "\<lparr>dx_in = syncIn [], dx_out = syncOut\<rparr>"]
    by (simp add: callSends_def)
  have "plainReply (sc_dec k) (syncIn (frameBytes rb)) = Some msg"
    using syncf.dec_enc [of rb "[]" eof] rb(2,3) by (simp add: plainReply_def syncReadJSON_def syncIn_def syncOk_def)
  then have reports: "callReports k files (PutFile lp rp) (frameBytes rb) = Some msg"
    using putFile_sends [where enc = "sc_enc k", OF b(1) _ assms(3), of "\<lparr>dx_in = syncIn (frameBytes rb), dx_out = syncOut\<rparr>"]
    by (simp add: callReports_def)
  have "syncReadJSON (sc_rdec k) (dx_in ?h) = (Inr (putRequest ?f rp), syncIn (lf_content ?f))"
    using syncf.dec_enc [of b "lf_content ?f" eof] b(2,3) by (simp add: syncReadJSON_def syncOk_def syncIn_def)
  moreover have "sw_mkdir ?w (dirPath p) = None" "\<And>m. sw_create ?w p m = Some msg" "sw_cwd ?w = sw_cwd w"
    using assms(5,6) by (simp_all add: onStore_def)
  ultimately have "syncHandle (sc_rdec k) (sc_renc k) ?w root ?h =
      ([MadeDirs (dirPath p)], \<lparr> dx_in = syncIn (lf_content ?f), dx_out = syncOut\<lparr>out_data := frameBytes rb, out_closed := True\<rparr> \<rparr>)"
    using assms(4) rb(1)
    by (simp add: syncHandle_def hostPut_def sendReply_def syncWriteJSON_def writeFrame_def writeLP_open
        syncOut_def streamClose_def Let_def)
  then show ?thesis
    by (simp add: hostCall_def sends reports)
qed

lemma dir_blocks:
  assumes "hostLets w R remoteDir W" "so_dryRun opts = False" "so_del opts = True"
    and "relPath (en_path e)" "localEntry k files localDir remoteDir e"
    and "treeStore st" "st (W @ splitOn slash (en_path e)) = Some FDir"
    and "storeManifest st W (en_path e) = manifestOf dst (en_path e)"
    and "msg = ''open '' @ rootedPath (W @ splitOn slash (en_path e)) @ '': is a directory''" "replyOk k False msg"
  shows "hostCalls k w (rootedPath R) now files st
      (snd (push (Inr [e]) (Inr dst) (\<lambda>c. None) localDir remoteDir opts)) = (Some msg, st)"
proof -
  let ?P = "W @ splitOn slash (en_path e)"
  have "manifestOf dst (en_path e) = None"
    using assms(7,8) by (simp add: storeManifest_def)
  moreover have runs: "snd (runCalls (\<lambda>c. None) calls) = calls" for calls
    by (induction calls) simp_all
  ultimately obtain cs where cs: "snd (push (Inr [e]) (Inr dst) (\<lambda>c. None) localDir remoteDir opts) =
      pushCall localDir remoteDir (copyOf (en_path e)) # cs"
    using assms(2) by (simp add: push_def Let_def planSync_paths)
  note h = assms(1) [unfolded hostLets_def]
  have conf: "prefix R W" "confine (sw_cwd w) (rootedPath R) (joinPath remoteDir (en_path e)) = Some (rootedPath ?P)"
    using confine_joined [of R "sw_cwd w" remoteDir "en_path e" W] h assms(4) by blast+
  obtain Q x where Q: "splitOn slash (en_path e) = Q @ [x]"
    by (metis rev_exhaust splitOn_ne_Nil)
  have P: "list_all plainElem ?P"
    using h assms(4) by (simp add: relPath_def)
  have "W \<noteq> []"
    using conf(1) h by (cases W) auto
  then have dir: "pathElems (dirPath (rootedPath ?P)) = W @ Q"
    using pathElems_dirPath [of "W @ Q" x] P Q by simp
  have up: "st q = Some FDir" if "prefix q (W @ Q)" for q
    using assms(6,7) that prefix_snoc [of q "W @ Q" x] prefix_length_le [of q "W @ Q"]
    by (auto simp: treeStore_def Q strict_prefix_def)
  then have mk: "storeMkdir st (dirPath (rootedPath ?P)) = None"
    by (auto simp: storeMkdir_def dir find_None_iff isFile_def split: option.split)
  have "effApply now (MadeDirs (dirPath (rootedPath ?P))) st = st"
    using up by (auto simp: effApply_def dir fun_eq_iff)
  then have "hostCall k w (rootedPath R) now files st (PutFile (joinPath localDir (en_path e)) (joinPath remoteDir (en_path e))) = (Some msg, st)"
    using hostCall_put_refused [where files = files and lp = "joinPath localDir (en_path e)" and st = st and now = now,
        OF _ assms(10) _ conf(2) mk] assms(5,7,9) P
    by (simp add: localEntry_def Let_def storeCreate_def)
  then show ?thesis
    by (simp add: cs pushCall_def copyOf_def)
qed

text \<open>
  A file in the place of a directory is never pushed. When the client has a file where the host's tree has
  a directory, a push with deletion tries the file before it deletes anything, the host cannot open the
  directory for writing, and the pass ends there with the host's files as they were - so every later
  pass ends the same way.
\<close>

lemma dir_blocks_push:
  assumes "hostLets w R remoteDir W" "so_dryRun opts = False" "so_del opts = True"
    and "relPath (en_path e)" "localEntry (jsonCodec bad) files localDir remoteDir e"
    and "treeStore st" "st (W @ splitOn slash (en_path e)) = Some FDir"
    and "storeManifest st W (en_path e) = manifestOf dst (en_path e)"
    and "msg = ''open '' @ rootedPath (W @ splitOn slash (en_path e)) @ '': is a directory''"
    and "validUtf8 msg" "length (encodeJson (encReply (Reply False msg))) \<le> maxFrame"
  shows "hostCalls (jsonCodec bad) w (rootedPath R) now files st
      (snd (push (Inr [e]) (Inr dst) (\<lambda>c. None) localDir remoteDir opts)) = (Some msg, st)"
  by (rule dir_blocks [OF assms(1-9) replyOk_json [OF assms(10,11)]])

definition blockedStore :: fstore where
  "blockedStore =
     (\<lambda>q. if q = [''srv'', ''f'', ''g''] then Some (FFile ''abcd'' 9) else if prefix q [''srv'', ''f''] then Some FDir else None)"

lemma dir_blocks_push_witness:
  "hostCalls mirrorCodec swWorld (rootedPath [''srv'']) 77 (\<lambda>p. pushFile) blockedStore
      (snd (push (Inr [mirrorEntry ''f'']) (Inr [mirrorEntry ''f/g'']) (\<lambda>c. None) ''d'' ''.''
        \<lparr> so_del = True, so_dryRun = False, so_gitignore = False \<rparr>)) = (Some ''open /srv/f: is a directory'', blockedStore)"
proof -
  have "treeStore blockedStore"
    unfolding treeStore_def
  proof (intro allI impI)
    fix q r :: "string list"
    assume "blockedStore r \<noteq> None" "strict_prefix q r"
    then have "prefix r [''srv'', ''f'', ''g'']" "strict_prefix q [''srv'', ''f'', ''g'']"
      by (auto simp: blockedStore_def strict_prefix_def prefix_Cons split: if_splits)
    then show "blockedStore q = Some FDir"
      by (auto simp: blockedStore_def strict_prefix_def prefix_Cons)
  qed
  moreover have "blockedStore [''srv'', ''f''] = Some FDir"
    by (simp add: blockedStore_def)
  moreover have "validUtf8 ''open /srv/f: is a directory''"
    by (simp add: validUtf8_def isAscii_code)
  moreover have "length (encodeJson (encReply (Reply False ''open /srv/f: is a directory''))) \<le> maxFrame"
    using reply_length [of False "''open /srv/f: is a directory''"] by (simp add: maxFrame_def)
  ultimately show ?thesis
    by (intro dir_blocks_push [OF mirror_setting(1)])
      (use mirror_setting(2,4) in \<open>simp_all add: mirrorEntry_def storeManifest_def manifestOf_find rootedPath_def\<close>)
qed

end
