(* ===== verification/Message_Json.thy ===== *)
theory Message_Json
  imports Json_Struct Server_State
begin

text \<open>
  The JSON of the signaling messages (\<open>Message\<close> with its tags in \<open>internal/signal/proto.go\<close>). The
  WebSocket library's \<open>WriteJSON\<close> and \<open>ReadJSON\<close> are documented to send and receive one message as
  \<open>encoding/json\<close> encodes and decodes it; white space after the value is left open.
\<close>

section \<open>Messages\<close>

definition encMessage :: "message \<Rightarrow> jv" where
  "encMessage m =
     VObj (member ''type'' (VStr (m_type m)) @
       omitempty (m_role m = []) ''role'' (VStr (m_role m)) @
       omitempty (m_code m = []) ''code'' (VStr (m_code m)) @
       omitempty (m_name m = []) ''name'' (VStr (m_name m)) @
       omitempty (m_publicAddr m = []) ''public_addr'' (VStr (m_publicAddr m)) @
       omitempty (m_localAddrs m = []) ''local_addrs'' (VArr (map VStr (m_localAddrs m))) @
       omitempty (m_peerAddr m = []) ''peer_addr'' (VStr (m_peerAddr m)) @
       omitempty (m_peerLocalAddrs m = []) ''peer_local_addrs'' (VArr (map VStr (m_peerLocalAddrs m))) @
       omitempty (m_peerRole m = []) ''peer_role'' (VStr (m_peerRole m)) @
       omitempty (m_certFingerprint m = []) ''cert_fingerprint'' (VStr (m_certFingerprint m)) @
       omitempty (m_relayToken m = []) ''relay_token'' (VStr (m_relayToken m)) @
       omitempty (m_relayAddr m = []) ''relay_addr'' (VStr (m_relayAddr m)) @
       omitempty (\<not> m_fallback m) ''fallback'' (VBool (m_fallback m)) @
       omitempty (m_error m = []) ''error'' (VStr (m_error m)))"

definition messageFields :: "message field list" where
  "messageFields =
     [field ''type'' m_type m_type_update stringValue,
      field ''role'' m_role m_role_update stringValue,
      field ''code'' m_code m_code_update stringValue,
      field ''name'' m_name m_name_update stringValue,
      field ''public_addr'' m_publicAddr m_publicAddr_update stringValue,
      field ''local_addrs'' m_localAddrs m_localAddrs_update (sliceValue stringValue []),
      field ''peer_addr'' m_peerAddr m_peerAddr_update stringValue,
      field ''peer_local_addrs'' m_peerLocalAddrs m_peerLocalAddrs_update (sliceValue stringValue []),
      field ''peer_role'' m_peerRole m_peerRole_update stringValue,
      field ''cert_fingerprint'' m_certFingerprint m_certFingerprint_update stringValue,
      field ''relay_token'' m_relayToken m_relayToken_update stringValue,
      field ''relay_addr'' m_relayAddr m_relayAddr_update stringValue,
      field ''fallback'' m_fallback m_fallback_update boolValue,
      field ''error'' m_error m_error_update stringValue]"

definition cleanMessage :: "message \<Rightarrow> message" where
  "cleanMessage m =
     \<lparr> m_type = validText (m_type m), m_role = validText (m_role m), m_code = validText (m_code m),
       m_name = validText (m_name m), m_publicAddr = validText (m_publicAddr m),
       m_localAddrs = map validText (m_localAddrs m), m_peerAddr = validText (m_peerAddr m),
       m_peerLocalAddrs = map validText (m_peerLocalAddrs m), m_peerRole = validText (m_peerRole m),
       m_certFingerprint = validText (m_certFingerprint m), m_relayToken = validText (m_relayToken m),
       m_relayAddr = validText (m_relayAddr m), m_fallback = m_fallback m, m_error = validText (m_error m) \<rparr>"

definition mustJSON :: "message \<Rightarrow> bytes" where
  "mustJSON m = encodeJson (encMessage m)"

definition readMessage :: "bytes \<Rightarrow> message option" where
  "readMessage b = Option.bind (parseJson b) (\<lambda>v. decodeStruct messageFields v (msg0 []))"

lemma strings_text:
  "validValue (VArr (map VStr xs)) = VArr (map VStr (map validText xs))"
  "sliceValue stringValue [] (VArr (map VStr ys)) [] = Some ys"
  "intsOnly (VArr (map VStr xs))" "0 < n \<Longrightarrow> within n (VArr (map VStr xs))"
proof -
  have "those (map (\<lambda>(w, x). stringValue w x) (zip (map VStr ys) (replicate (length ys) []))) = Some ys"
    by (induction ys) simp_all
  then show "sliceValue stringValue [] (VArr (map VStr ys)) [] = Some ys"
    by (simp add: sliceValue_def)
qed (simp_all add: list.pred_map comp_def list.pred_True)

interpretation message: json_type encMessage "decodeStruct messageFields" "msg0 []" cleanMessage "\<lambda>m. True"
proof
  fix m :: message
  show "intsOnly (encMessage m)" "within maxNesting (encMessage m)"
    by (simp_all add: encMessage_def maxNesting_def strings_text del: intsOnly.simps(2) within.simps(1))
  let ?d = "decodeMembers messageFields"
  have str: "?d (omitempty (x = []) k (VStr (validText x)) @ ps) s = ?d ps (upd (\<lambda>_. validText x) s)"
    if "map_of messageFields k = Some (fieldUpdate get upd stringValue)" "upd (\<lambda>_. []) s = s" for x k ps s get upd
    by (rule decode_optional [OF that(1)]) (use that(2) in auto)
  have lst: "?d (omitempty (xs = []) k (VArr (map VStr (map validText xs))) @ ps) s = ?d ps (upd (\<lambda>_. map validText xs) s)"
    if "map_of messageFields k = Some (fieldUpdate get upd (sliceValue stringValue []))" "upd (\<lambda>_. []) s = s" "get s = []"
    for xs k ps s get upd
    by (rule decode_optional [OF that(1)]) (use that(2,3) strings_text(2) in \<open>auto simp del: map_map\<close>)
  have bool: "?d (omitempty (\<not> b) k (VBool b) @ ps) s = ?d ps (upd (\<lambda>_. b) s)"
    if "map_of messageFields k = Some (fieldUpdate get upd boolValue)" "upd (\<lambda>_. False) s = s" for b k ps s get upd
    by (rule decode_optional [OF that(1)]) (use that(2) in auto)
  note fs = messageFields_def field_def
  have fields: "map_of messageFields ''role'' = Some (fieldUpdate m_role m_role_update stringValue)"
    "map_of messageFields ''code'' = Some (fieldUpdate m_code m_code_update stringValue)"
    "map_of messageFields ''name'' = Some (fieldUpdate m_name m_name_update stringValue)"
    "map_of messageFields ''public_addr'' = Some (fieldUpdate m_publicAddr m_publicAddr_update stringValue)"
    "map_of messageFields ''peer_addr'' = Some (fieldUpdate m_peerAddr m_peerAddr_update stringValue)"
    "map_of messageFields ''peer_role'' = Some (fieldUpdate m_peerRole m_peerRole_update stringValue)"
    "map_of messageFields ''cert_fingerprint'' = Some (fieldUpdate m_certFingerprint m_certFingerprint_update stringValue)"
    "map_of messageFields ''relay_token'' = Some (fieldUpdate m_relayToken m_relayToken_update stringValue)"
    "map_of messageFields ''relay_addr'' = Some (fieldUpdate m_relayAddr m_relayAddr_update stringValue)"
    "map_of messageFields ''error'' = Some (fieldUpdate m_error m_error_update stringValue)"
    "map_of messageFields ''local_addrs'' = Some (fieldUpdate m_localAddrs m_localAddrs_update (sliceValue stringValue []))"
    "map_of messageFields ''peer_local_addrs'' = Some (fieldUpdate m_peerLocalAddrs m_peerLocalAddrs_update (sliceValue stringValue []))"
    "map_of messageFields ''fallback'' = Some (fieldUpdate m_fallback m_fallback_update boolValue)"
    "map_of messageFields ''type'' = Some (fieldUpdate m_type m_type_update stringValue)"
    by (simp_all add: messageFields_def field_def)
  note steps = str [OF fields(1)] str [OF fields(2)] str [OF fields(3)] str [OF fields(4)] str [OF fields(5)]
    str [OF fields(6)] str [OF fields(7)] str [OF fields(8)] str [OF fields(9)]
    str [OF fields(10), where ps = "[]", unfolded append_Nil2 decodeMembers.simps(1)]
    lst [OF fields(11)] lst [OF fields(12)] bool [OF fields(13)]
  have "?d (member ''type'' (VStr y) @ ps) s = ?d ps (s\<lparr>m_type := y\<rparr>)" for y ps s
    by (simp add: decodeMembers_member fields(14) fieldUpdate_def)
  then show "decodeStruct messageFields (validValue (encMessage m)) (msg0 []) = Some (cleanMessage m)"
    by (simp add: encMessage_def decodeStruct_def cleanMessage_def msg0_def strings_text(1) isAscii_code steps
        del: map_map validValue.simps(2))
qed

text \<open>
  C24: A signaling message arrives. Whatever message the server or a peer sends on the WebSocket, the
  other side reads the same message, its strings made well-formed UTF-8, whether or not white space
  follows it.
\<close>

theorem message_arrives:
  assumes "list_all jsonSpace ws"
  shows "readMessage (mustJSON m @ ws) = Some (cleanMessage m)"
  using parseJson_encode_spaces [OF message.ints message.shallow assms, of m] message.dec_enc [of m]
  by (simp add: readMessage_def mustJSON_def)

theorem message_arrives_witness:
  "readMessage (mustJSON ((msg0 typeHello)\<lparr>m_role := roleHost, m_code := ''c''\<rparr>) @ [CHR 0x0A]) =
     Some ((msg0 typeHello)\<lparr>m_role := roleHost, m_code := ''c''\<rparr>)"
  using message_arrives [of "[CHR 0x0A]" "(msg0 typeHello)\<lparr>m_role := roleHost, m_code := ''c''\<rparr>"]
  by (simp add: jsonSpace_def cleanMessage_def proto_defs isAscii_code)

end
