(* ===== verification/Admin_Json.thy ===== *)
theory Admin_Json
  imports Admin_Auth Json_Struct
begin

text \<open>
  The JSON bodies of the sign-in handlers (\<open>internal/signal/admin.go\<close>): what \<open>handleAuthLogin\<close> and
  \<open>handleAuthAccount\<close> decode from a request's body, of which no more than 8 KiB are read, and the text
  of the status they answer.
\<close>

definition maxBody :: nat where
  "maxBody = 8 * 2 ^ 10"

text \<open>The decoder takes the first value of what may be read; a value cut off there is malformed.\<close>

definition decodeBody :: "'s field list \<Rightarrow> 's \<Rightarrow> bytes \<Rightarrow> 's option" where
  "decodeBody fs zero body = Option.bind (decodeFrom (NeedValue []) (take maxBody body)) (\<lambda>v. decodeStruct fs v zero)"

definition loginFields :: "(string \<times> string) field list" where
  "loginFields = [field ''username'' fst apfst stringValue, field ''password'' snd apsnd stringValue]"

definition loginBody :: "bytes \<Rightarrow> (string \<times> string) option" where
  "loginBody = decodeBody loginFields ([], [])"

definition account0 :: account_request where
  "account0 = \<lparr> acr_current = [], acr_newUsername = [], acr_newPassword = [] \<rparr>"

definition accountFields :: "account_request field list" where
  "accountFields =
     [field ''current_password'' acr_current acr_current_update stringValue,
      field ''new_username'' acr_newUsername acr_newUsername_update stringValue,
      field ''new_password'' acr_newPassword acr_newPassword_update stringValue]"

definition accountBody :: "bytes \<Rightarrow> account_request option" where
  "accountBody = decodeBody accountFields account0"

definition encAuthStatus :: "auth_status \<Rightarrow> jv" where
  "encAuthStatus a =
     VObj (member ''authenticated'' (VBool (au_authenticated a)) @
       omitempty (au_username a = []) ''username'' (VStr (au_username a)) @
       member ''must_change_password'' (VBool (au_mustChange a)) @
       member ''password_unset'' (VBool (au_unset a)))"

text \<open>\<open>writeJSON\<close> and \<open>writeJSONError\<close>: the text of a response, a line end after it.\<close>

definition responseText :: "('b \<Rightarrow> jv) \<Rightarrow> 'b http_response \<Rightarrow> bytes" where
  "responseText enc r =
     (case rs_body r of
        EmptyBody \<Rightarrow> []
      | ErrorBody msg \<Rightarrow> encodeJson (VObj [(''error'', VStr msg)]) @ [CHR 0x0A]
      | JsonBody v \<Rightarrow> encodeJson (enc v) @ [CHR 0x0A])"

section \<open>A form that was filled in\<close>

lemma decodeBody_encode:
  assumes "intsOnly v" "within maxNesting v" "length (encodeJson v) \<le> maxBody"
  shows "decodeBody fs zero (encodeJson v) = decodeStruct fs (validValue v) zero"
  using decodeFrom_encode [OF assms(1,2), of "[]"] assms(3) by (simp add: decodeBody_def)

lemma loginBody_read:
  assumes "length (encodeJson (VObj [(''username'', VStr u), (''password'', VStr p)])) \<le> maxBody"
  shows "loginBody (encodeJson (VObj [(''username'', VStr u), (''password'', VStr p)])) = Some (validText u, validText p)"
  using decodeBody_encode [of "VObj [(''username'', VStr u), (''password'', VStr p)]" loginFields "([], [])"] assms
  by (simp add: loginBody_def maxNesting_def decodeStruct_def fieldFor_def loginFields_def field_def fieldUpdate_def isAscii_code)

lemma accountBody_read:
  assumes "length (encodeJson (VObj [(''current_password'', VStr c), (''new_username'', VStr u), (''new_password'', VStr p)])) \<le> maxBody"
  shows "accountBody (encodeJson (VObj [(''current_password'', VStr c), (''new_username'', VStr u), (''new_password'', VStr p)])) =
    Some \<lparr> acr_current = validText c, acr_newUsername = validText u, acr_newPassword = validText p \<rparr>"
  using decodeBody_encode [of "VObj [(''current_password'', VStr c), (''new_username'', VStr u), (''new_password'', VStr p)]"
      accountFields account0] assms
  by (simp add: accountBody_def maxNesting_def decodeStruct_def fieldFor_def accountFields_def field_def fieldUpdate_def
      account0_def isAscii_code)

text \<open>An error's text is read back as the error.\<close>

lemma errorText_read:
  "parseJson (responseText enc (writeJSONError status msg)) = Some (VObj [(''error'', VStr (validText msg))])"
  using parseJson_encode_spaces [of "VObj [(''error'', VStr msg)]" "[CHR 0x0A]"]
  by (simp add: responseText_def writeJSONError_def maxNesting_def jsonSpace_def isAscii_code)

end
