(* ===== verification/Config_Restart.thy ===== *)
theory Config_Restart
  imports Config_Json
begin

text \<open>
  The account in the config file across a restart: \<open>SaveAdmin\<close> (\<open>internal/config/save.go\<close>) reads the file
  into a map, changes the two keys and writes the map with its keys sorted; \<open>Load\<close> then reads what was
  written. The number a float64 is written as is a parameter.
\<close>

section \<open>Documents as maps\<close>

text \<open>\<open>json.Unmarshal\<close> into a \<open>map[string]any\<close>; \<open>num\<close> gives the text a number has afterwards, if it fits.\<close>

fun numbersFit :: "(string \<Rightarrow> string option) \<Rightarrow> jv \<Rightarrow> bool" where
  "numbersFit num (VNum n) \<longleftrightarrow> num n \<noteq> None"
| "numbersFit num (VArr vs) \<longleftrightarrow> list_all (numbersFit num) vs"
| "numbersFit num (VObj ps) \<longleftrightarrow> list_all (\<lambda>(k, v). numbersFit num v) ps"
| "numbersFit num v \<longleftrightarrow> True"

fun anyValue :: "(string \<Rightarrow> string option) \<Rightarrow> jv \<Rightarrow> json" where
  "anyValue num VNull = JNull"
| "anyValue num (VBool b) = JBool b"
| "anyValue num (VNum n) = JNum (case num n of None \<Rightarrow> n | Some t \<Rightarrow> t)"
| "anyValue num (VStr s) = JStr s"
| "anyValue num (VArr vs) = JArr (map (anyValue num) vs)"
| "anyValue num (VObj ps) = JObj (fold (\<lambda>(k, v) m. mput k v m) (map (\<lambda>(k, v). (k, anyValue num v)) ps) [])"

definition anyDecode :: "(string \<Rightarrow> string option) \<Rightarrow> (bytes \<Rightarrow> string) \<Rightarrow> bytes \<Rightarrow> string + jobject option" where
  "anyDecode num bad content =
     (case parseJson content of
        Some VNull \<Rightarrow> Inr None
      | Some (VObj ps) \<Rightarrow>
          (if numbersFit num (VObj ps)
           then (case anyValue num (VObj ps) of JObj m \<Rightarrow> Inr (Some m) | _ \<Rightarrow> Inl (bad content))
           else Inl (bad content))
      | _ \<Rightarrow> Inl (bad content))"

text \<open>\<open>json.MarshalIndent\<close> writes the keys of a map in order.\<close>

fun sortedText :: "json \<Rightarrow> jv" where
  "sortedText JNull = VNull"
| "sortedText (JBool b) = VBool b"
| "sortedText (JNum n) = VNum n"
| "sortedText (JStr s) = VStr s"
| "sortedText (JArr vs) = VArr (map sortedText vs)"
| "sortedText (JObj m) = VObj (sort_key fst (map (\<lambda>(k, v). (k, sortedText v)) m))"

definition anyEncode :: "jobject \<Rightarrow> string + bytes" where
  "anyEncode doc = Inr (indentJson 0 (sortedText (JObj doc)))"

section \<open>Documents that are read the same however their keys are ordered\<close>

definition settingNames :: "string list" where
  "settingNames = map fst configFields @ map fst serverFields @ map fst adminFields @ map fst exposeFields @
     map fst connectFields"

definition exactName :: "string \<Rightarrow> bool" where
  "exactName k \<longleftrightarrow> (\<forall>n \<in> set settingNames. foldName n = foldName k \<longrightarrow> n = k)"

text \<open>
  Objects with distinct keys that are spelt like the settings they name, well-formed text, and integers
  that a float64 keeps.
\<close>

fun plain :: "(string \<Rightarrow> string option) \<Rightarrow> jv \<Rightarrow> bool" where
  "plain num (VNum n) \<longleftrightarrow> num n = Some n \<and> (\<exists>i. n = itoa i)"
| "plain num (VStr s) \<longleftrightarrow> validText s = s"
| "plain num (VArr vs) \<longleftrightarrow> list_all (plain num) vs"
| "plain num (VObj ps) \<longleftrightarrow>
     distinct (map fst ps) \<and> list_all (\<lambda>(k, v). validText k = k \<and> exactName k \<and> plain num v) ps"
| "plain num v \<longleftrightarrow> True"

fun sortedValue :: "jv \<Rightarrow> jv" where
  "sortedValue (VArr vs) = VArr (map sortedValue vs)"
| "sortedValue (VObj ps) = VObj (sort_key fst (map (\<lambda>(k, v). (k, sortedValue v)) ps))"
| "sortedValue v = v"

lemma mput_new: "k \<notin> set (map fst m) \<Longrightarrow> mput k v m = m @ [(k, v)]"
  by (induction m) (auto simp: mput_def)

lemma fold_mput_distinct:
  "distinct (map fst xs) \<Longrightarrow> set (map fst xs) \<inter> set (map fst m) = {} \<Longrightarrow>
   fold (\<lambda>(k, v) m. mput k v m) xs m = m @ xs"
proof (induction xs arbitrary: m)
  case (Cons x xs)
  then show ?case
    using mput_new [of "fst x" m "snd x"] by (cases x) auto
qed simp

lemma anyValue_object:
  "distinct (map fst ps) \<Longrightarrow> anyValue num (VObj ps) = JObj (map (\<lambda>(k, v). (k, anyValue num v)) ps)"
  using fold_mput_distinct [of "map (\<lambda>(k, v). (k, anyValue num v)) ps" "[]"] by (simp add: comp_def split_beta)

lemma sortedText_any: "plain num v \<Longrightarrow> sortedText (anyValue num v) = sortedValue v"
proof (induction v)
  case (VObj ps)
  then have d: "distinct (map fst ps)"
    by simp
  have "map (\<lambda>(k, v). (k, sortedText (anyValue num v))) ps = map (\<lambda>(k, v). (k, sortedValue v)) ps"
    using VObj by (force simp: list_all_iff)
  moreover have "sortedText (anyValue num (VObj ps)) =
      VObj (sort_key fst (map (\<lambda>(k, v). (k, sortedText (anyValue num v))) ps))"
    unfolding anyValue_object [OF d] by (simp add: comp_def case_prod_unfold)
  ultimately show ?case
    by (simp only: sortedValue.simps)
next
  case (VArr vs)
  then show ?case
    by (simp add: list_all_iff)
qed simp_all

lemma plain_fits: "plain num v \<Longrightarrow> numbersFit num v"
  by (induction v) (auto simp: list_all_iff)

text \<open>Fields of different names do not touch each other.\<close>

definition commute :: "(jv \<Rightarrow> 's \<Rightarrow> 's option) \<Rightarrow> (jv \<Rightarrow> 's \<Rightarrow> 's option) \<Rightarrow> bool" where
  "commute f g \<longleftrightarrow> (\<forall>v w s. Option.bind (f v s) (g w) = Option.bind (g w s) (f v))"

definition commuting :: "'s field list \<Rightarrow> bool" where
  "commuting fs \<longleftrightarrow> list_all (\<lambda>(n, f). list_all (\<lambda>(m, g). n \<noteq> m \<longrightarrow> commute f g) fs) fs"

definition exactFor :: "'s field list \<Rightarrow> string \<Rightarrow> bool" where
  "exactFor fs k \<longleftrightarrow> (\<forall>n \<in> set (map fst fs). foldName n = foldName k \<longrightarrow> n = k)"

lemma fieldFor_exact:
  assumes "exactFor fs k" "distinct (map fst fs)"
  shows "fieldFor fs k = map_of fs k"
proof (cases "map_of fs k")
  case None
  then have "k \<notin> set (map fst fs)"
    by (simp add: map_of_eq_None_iff)
  then have "fieldFor fs k = None"
    unfolding fieldFor_None using assms(1) by (auto simp: exactFor_def)
  then show ?thesis
    using None by simp
qed (simp add: fieldFor_def)

definition fieldStep :: "'s field list \<Rightarrow> string \<times> jv \<Rightarrow> 's \<Rightarrow> 's option" where
  "fieldStep fs p s = (case map_of fs (fst p) of None \<Rightarrow> Some s | Some f \<Rightarrow> f (snd p) s)"

lemma decodeMembers_step:
  assumes "distinct (map fst fs)" "exactFor fs (fst p)"
  shows "decodeMembers fs (p # ps) s = Option.bind (fieldStep fs p s) (decodeMembers fs ps)"
  using fieldFor_exact [OF assms(2,1)] by (cases p) (auto simp: fieldStep_def split: option.split)

lemma fieldStep_swap:
  assumes "commuting fs" "fst p \<noteq> fst q"
  shows "Option.bind (fieldStep fs p s) (fieldStep fs q) = Option.bind (fieldStep fs q s) (fieldStep fs p)"
proof (cases "map_of fs (fst p)")
  case p: (Some f)
  show ?thesis
  proof (cases "map_of fs (fst q)")
    case (Some g)
    with p show ?thesis
      using assms map_of_SomeD [OF p] map_of_SomeD [OF Some]
      by (fastforce simp: commuting_def commute_def list_all_iff fieldStep_def [abs_def])
  qed (simp add: fieldStep_def [abs_def] p)
qed (simp add: fieldStep_def [abs_def])

lemma decodeMembers_swap:
  assumes "commuting fs" "distinct (map fst fs)" "exactFor fs (fst p)" "exactFor fs (fst q)" "fst p \<noteq> fst q"
  shows "decodeMembers fs (p # q # ps) s = decodeMembers fs (q # p # ps) s"
proof -
  have two: "decodeMembers fs (r # r' # ps) s = Option.bind (Option.bind (fieldStep fs r s) (fieldStep fs r')) (decodeMembers fs ps)"
    if "exactFor fs (fst r)" "exactFor fs (fst r')" for r r'
    unfolding decodeMembers_step [OF assms(2) that(1)] bind_assoc
    by (simp add: decodeMembers_step [OF assms(2) that(2), abs_def])
  show ?thesis
    unfolding two [OF assms(3,4)] two [OF assms(4,3)] fieldStep_swap [OF assms(1,5)] ..
qed

lemma decodeMembers_cong_tail:
  "(\<And>s. decodeMembers fs ps s = decodeMembers fs qs s) \<Longrightarrow> decodeMembers fs (p # ps) s = decodeMembers fs (p # qs) s"
  by (cases p) (auto split: option.split)

lemma decodeMembers_insort:
  assumes "commuting fs" "distinct (map fst fs)" "list_all (\<lambda>(k, v). exactFor fs k) (p # ps)"
    and "fst p \<notin> set (map fst ps)"
  shows "decodeMembers fs (insort_key fst p ps) s = decodeMembers fs (p # ps) s"
  using assms(3,4)
proof (induction ps arbitrary: s)
  case (Cons q ps)
  show ?case
  proof (cases "fst p \<le> fst q")
    case False
    have "decodeMembers fs (insort_key fst p (q # ps)) s = decodeMembers fs (q # p # ps) s"
      using False Cons by (auto intro!: decodeMembers_cong_tail)
    also have "\<dots> = decodeMembers fs (p # q # ps) s"
      using Cons.prems by (intro decodeMembers_swap [OF assms(1,2)]) auto
    finally show ?thesis .
  qed simp
qed simp

lemma decodeMembers_sort:
  assumes "commuting fs" "distinct (map fst fs)" "list_all (\<lambda>(k, v). exactFor fs k) ps" "distinct (map fst ps)"
  shows "decodeMembers fs (sort_key fst ps) s = decodeMembers fs ps s"
  using assms(3,4)
proof (induction ps arbitrary: s)
  case (Cons p ps)
  have "list_all (\<lambda>(k, v). exactFor fs k) (p # sort_key fst ps)" "fst p \<notin> set (map fst (sort_key fst ps))"
    using Cons.prems by (auto simp: list_all_iff)
  then have "decodeMembers fs (sort_key fst (p # ps)) s = decodeMembers fs (p # sort_key fst ps) s"
    using decodeMembers_insort [OF assms(1,2)] by simp
  also have "\<dots> = decodeMembers fs (p # ps) s"
    using Cons by (intro decodeMembers_cong_tail) simp
  finally show ?case .
qed simp

text \<open>Decoders that do not see the order of keys.\<close>

definition orderBlind :: "(jv \<Rightarrow> 's \<Rightarrow> 's option) \<Rightarrow> bool" where
  "orderBlind dec \<longleftrightarrow> (\<forall>num v s. plain num v \<longrightarrow> dec (sortedValue v) s = dec v s)"

lemma leaf_blind: "orderBlind stringValue" "orderBlind boolValue" "orderBlind int64Value"
  by (auto simp: orderBlind_def stringValue_def boolValue_def int64Value_def split: jv.split elim!: sortedValue.elims)

lemma slice_blind:
  assumes "orderBlind dec"
  shows "orderBlind (sliceValue dec zero)"
  unfolding orderBlind_def
proof (intro allI impI)
  fix num v s
  assume p: "plain num v"
  show "sliceValue dec zero (sortedValue v) s = sliceValue dec zero v s"
  proof (cases v)
    case (VArr vs)
    then have "\<forall>w \<in> set vs. \<forall>x. dec (sortedValue w) x = dec w x"
      using p assms by (auto simp: orderBlind_def list_all_iff)
    then have "map (\<lambda>(w, x). dec w x) (zip (map sortedValue vs) xs) = map (\<lambda>(w, x). dec w x) (zip vs xs)" for xs
      by (induction vs arbitrary: xs) (auto simp: zip_Cons1 split: list.split)
    then show ?thesis
      by (simp add: VArr sliceValue_def)
  qed (simp_all add: sliceValue_def)
qed

lemma field_blind: "orderBlind dec \<Longrightarrow> orderBlind (fieldUpdate get upd dec)"
  by (auto simp: orderBlind_def fieldUpdate_def)

definition blindFields :: "'s field list \<Rightarrow> bool" where
  "blindFields fs \<longleftrightarrow> commuting fs \<and> distinct (map fst fs) \<and> set (map fst fs) \<subseteq> set settingNames \<and>
     (\<forall>(n, f) \<in> set fs. orderBlind f)"

lemma blindFields_exact: "blindFields fs \<Longrightarrow> exactName k \<Longrightarrow> exactFor fs k"
  by (auto simp: blindFields_def exactName_def exactFor_def)

lemma struct_blind:
  assumes b: "blindFields fs"
  shows "orderBlind (decodeStruct fs)"
  unfolding orderBlind_def
proof (intro allI impI)
  fix num v s
  assume p: "plain num v"
  show "decodeStruct fs (sortedValue v) s = decodeStruct fs v s"
  proof (cases v)
    case (VObj ps)
    let ?qs = "map (\<lambda>(k, v). (k, sortedValue v)) ps"
    have keys: "map fst ?qs = map fst ps"
      by (simp add: comp_def split_beta)
    have ex: "list_all (\<lambda>(k, v). exactFor fs k) ps"
      using p VObj blindFields_exact [OF b] by (auto simp: list_all_iff)
    then have "list_all (\<lambda>(k, v). exactFor fs k) ?qs" "distinct (map fst ?qs)"
      using p VObj unfolding keys by (auto simp: list_all_iff)
    then have "decodeMembers fs (sort_key fst ?qs) s = decodeMembers fs ?qs s"
      using b by (intro decodeMembers_sort) (simp_all add: blindFields_def)
    also have "decodeMembers fs ?qs s = decodeMembers fs ps s"
    proof -
      have "\<forall>(k, v) \<in> set ps. exactFor fs k \<and> plain num v"
        using p VObj ex by (auto simp: list_all_iff)
      then show ?thesis
      proof (induction ps arbitrary: s)
        case (Cons q ps)
        have "fieldStep fs (fst q, sortedValue (snd q)) s = fieldStep fs q s"
          using Cons.prems b by (auto simp: fieldStep_def blindFields_def orderBlind_def split: option.split dest!: map_of_SomeD)
        moreover have "decodeMembers fs (map (\<lambda>(k, v). (k, sortedValue v)) ps) = decodeMembers fs ps"
          using Cons by (intro ext) simp
        ultimately show ?case
          using Cons.prems b
          by (simp add: decodeMembers_step blindFields_def split_beta case_prod_unfold del: decodeMembers.simps)
      qed simp
    qed
    finally show ?thesis
      by (simp add: VObj decodeStruct_def)
  qed (simp_all add: decodeStruct_def)
qed

section \<open>The config's sections\<close>

lemma fieldUpdate_commute:
  assumes "\<And>x s. get' (upd (\<lambda>_. x) s) = get' s" "\<And>x s. get (upd' (\<lambda>_. x) s) = get s"
    and "\<And>x y s. upd' (\<lambda>_. y) (upd (\<lambda>_. x) s) = upd (\<lambda>_. x) (upd' (\<lambda>_. y) s)"
  shows "commute (fieldUpdate get upd dec) (fieldUpdate get' upd' dec')"
  unfolding commute_def
proof (intro allI)
  fix v w s
  show "Option.bind (fieldUpdate get upd dec v s) (fieldUpdate get' upd' dec' w) =
      Option.bind (fieldUpdate get' upd' dec' w s) (fieldUpdate get upd dec v)"
    using assms by (cases "dec v (get s)"; cases "dec' w (get' s)") (simp_all add: fieldUpdate_def [abs_def])
qed

lemma admin_blind: "blindFields adminFields"
proof -
  have "commuting adminFields"
    by (simp add: commuting_def adminFields_def field_def fieldUpdate_commute)
  moreover have "\<forall>(n, f) \<in> set adminFields. orderBlind f"
    by (simp add: adminFields_def field_def field_blind leaf_blind)
  moreover have "distinct (map fst adminFields)"
    by (simp add: adminFields_def field_def)
  ultimately show ?thesis
    by (auto simp: blindFields_def settingNames_def)
qed

lemma server_blind: "blindFields serverFields"
proof -
  have "commuting serverFields"
    by (simp add: commuting_def serverFields_def field_def fieldUpdate_commute)
  moreover have "\<forall>(n, f) \<in> set serverFields. orderBlind f"
    by (simp add: serverFields_def field_def field_blind leaf_blind struct_blind admin_blind)
  moreover have "distinct (map fst serverFields)"
    by (simp add: serverFields_def field_def)
  ultimately show ?thesis
    by (auto simp: blindFields_def settingNames_def)
qed

lemma expose_blind: "blindFields exposeFields"
proof -
  have "commuting exposeFields"
    by (simp add: commuting_def exposeFields_def field_def fieldUpdate_commute)
  moreover have "\<forall>(n, f) \<in> set exposeFields. orderBlind f"
    by (simp add: exposeFields_def field_def field_blind leaf_blind slice_blind)
  moreover have "distinct (map fst exposeFields)"
    by (simp add: exposeFields_def field_def)
  ultimately show ?thesis
    by (auto simp: blindFields_def settingNames_def)
qed

lemma connect_blind: "blindFields connectFields"
proof -
  have "commuting connectFields"
    by (simp add: commuting_def connectFields_def field_def fieldUpdate_commute)
  moreover have "\<forall>(n, f) \<in> set connectFields. orderBlind f"
    by (simp add: connectFields_def field_def field_blind leaf_blind slice_blind)
  moreover have "distinct (map fst connectFields)"
    by (simp add: connectFields_def field_def)
  ultimately show ?thesis
    by (auto simp: blindFields_def settingNames_def)
qed

lemma config_blind: "blindFields configFields"
proof -
  have "commuting configFields"
    by (simp add: commuting_def configFields_def field_def fieldUpdate_commute)
  moreover have "\<forall>(n, f) \<in> set configFields. orderBlind f"
    by (simp add: configFields_def field_def field_blind struct_blind server_blind expose_blind connect_blind)
  moreover have "distinct (map fst configFields)"
    by (simp add: configFields_def field_def)
  ultimately show ?thesis
    by (auto simp: blindFields_def settingNames_def)
qed

section \<open>Changing one member\<close>

lemma decodeMembers_last:
  assumes "blindFields fs" "list_all (\<lambda>(k, v). exactName k) (p # ps)" "distinct (map fst (p # ps))"
  shows "decodeMembers fs (p # ps) s = decodeMembers fs (ps @ [p]) s"
  using assms(2,3)
proof (induction ps arbitrary: s)
  case (Cons q ps)
  have ex: "exactFor fs (fst p)" "exactFor fs (fst q)"
    using Cons.prems(1) blindFields_exact [OF assms(1)] by (auto simp: split_beta)
  have "decodeMembers fs (p # q # ps) s = decodeMembers fs (q # p # ps) s"
    using assms(1) ex Cons.prems(2) by (intro decodeMembers_swap) (auto simp: blindFields_def)
  also have "\<dots> = decodeMembers fs (q # ps @ [p]) s"
    using Cons by (intro decodeMembers_cong_tail) simp
  finally show ?case
    by simp
qed simp

text \<open>
  A member that is put in the place of another, or added, acts on what was read: \<open>g\<close> is what its field
  does after, or instead of, the old one.
\<close>

lemma decodeMembers_put:
  assumes b: "blindFields fs" and p: "list_all (\<lambda>(k, v). exactName k) ps" "distinct (map fst ps)" "exactName k"
    and f: "map_of fs k = Some f" and dec: "decodeMembers fs ps s = Some t"
    and upd: "case map_of ps k of
        None \<Rightarrow> \<forall>x. f v x = Some (g x)
      | Some old \<Rightarrow> \<forall>x y. f old x = Some y \<longrightarrow> f v x = Some (g y)"
  shows "decodeMembers fs (mput k v ps) s = Some (g t)"
proof (cases "map_of ps k")
  case None
  then have "k \<notin> set (map fst ps)"
    by (simp add: map_of_eq_None_iff)
  then show ?thesis
    using dec upd f None b by (simp add: mput_new decodeMembers_append fieldFor_def)
next
  case (Some old)
  have step: "decodeMembers fs [(k, w)] x = f w x" for w x
    using f by (simp add: fieldFor_def split: option.split)
  have "(k, old) \<in> set ps"
    using Some by (rule map_of_SomeD)
  then obtain ps1 ps2 where ps: "ps = ps1 @ (k, old) # ps2"
    by (auto dest: split_list)
  have put: "mput k v ps = ps1 @ (k, v) # ps2"
    using p(2) unfolding ps mput_def by (induction ps1) auto
  have move: "decodeMembers fs ((k, w) # ps2) x = Option.bind (decodeMembers fs ps2 x) (f w)" for w x
    using decodeMembers_last [OF b, of "(k, w)" ps2 x] p unfolding ps
    by (simp add: decodeMembers_append step [abs_def])
  obtain x where x: "decodeMembers fs (ps1 @ ps2) s = Some x" "f old x = Some t"
    using dec unfolding ps decodeMembers_append by (auto simp: move [abs_def] bind_eq_Some_conv)
  have "decodeMembers fs (mput k v ps) s = f v x"
    using x(1) unfolding put decodeMembers_append
    by (auto simp: move [abs_def] bind_eq_Some_conv)
  then show ?thesis
    using upd Some x(2) by simp
qed

section \<open>What a save does to what is read\<close>

text \<open>\<open>saveDoc\<close> on a document that has not been made a map.\<close>

definition membersAt :: "string \<Rightarrow> (string \<times> jv) list \<Rightarrow> (string \<times> jv) list" where
  "membersAt k ps = (case map_of ps k of Some (VObj qs) \<Rightarrow> qs | _ \<Rightarrow> [])"

definition savedAdmin :: "string \<Rightarrow> string \<Rightarrow> (string \<times> jv) list \<Rightarrow> (string \<times> jv) list" where
  "savedAdmin u h ps =
     (let a1 = (if u \<noteq> [] then mput ''username'' (VStr u) ps else ps)
      in if h \<noteq> [] then mput ''password_hash'' (VStr h) a1 else a1)"

definition savedServer :: "string \<Rightarrow> string \<Rightarrow> (string \<times> jv) list \<Rightarrow> (string \<times> jv) list" where
  "savedServer u h ps = mput ''admin'' (VObj (savedAdmin u h (membersAt ''admin'' ps))) ps"

definition savedMembers :: "string \<Rightarrow> string \<Rightarrow> (string \<times> jv) list \<Rightarrow> (string \<times> jv) list" where
  "savedMembers u h ps = mput ''server'' (VObj (savedServer u h (membersAt ''server'' ps))) ps"

definition accountSet :: "string \<Rightarrow> string \<Rightarrow> admin_section \<Rightarrow> admin_section" where
  "accountSet u h a =
     a\<lparr>ad_username := if u \<noteq> [] then u else ad_username a,
       ad_passwordHash := if h \<noteq> [] then h else ad_passwordHash a\<rparr>"

abbreviation configWith :: "string \<Rightarrow> string \<Rightarrow> config \<Rightarrow> config" where
  "configWith u h \<equiv> cf_server_update (sn_admin_update (accountSet u h))"

lemma string_put:
  assumes "\<And>x. get (upd (\<lambda>_. t) x) = t" "\<And>x a. upd (\<lambda>_. t) (upd (\<lambda>_. a) x) = upd (\<lambda>_. t) x"
  shows "case map_of ps k of
      None \<Rightarrow> \<forall>x. fieldUpdate get upd stringValue (VStr t) x = Some (upd (\<lambda>_. t) x)
    | Some old \<Rightarrow> \<forall>x y. fieldUpdate get upd stringValue old x = Some y \<longrightarrow>
        fieldUpdate get upd stringValue (VStr t) x = Some (upd (\<lambda>_. t) y)"
  using assms by (auto simp: fieldUpdate_def stringValue_def split: option.split)

lemma struct_put:
  assumes "\<And>x y. decodeMembers fs (membersAt k ps) x = Some y \<Longrightarrow> decodeMembers fs new x = Some (g y)"
    and "\<And>x. upd (\<lambda>_. g (get x)) x = upd g x" "\<And>x b. upd g (upd (\<lambda>_. b) x) = upd (\<lambda>_. g b) x"
    and "\<And>x. upd (\<lambda>_. get x) x = x"
  shows "case map_of ps k of
      None \<Rightarrow> \<forall>x. fieldUpdate get upd (decodeStruct fs) (VObj new) x = Some (upd g x)
    | Some old \<Rightarrow> \<forall>x y. fieldUpdate get upd (decodeStruct fs) old x = Some y \<longrightarrow>
        fieldUpdate get upd (decodeStruct fs) (VObj new) x = Some (upd g y)"
proof (cases "map_of ps k")
  case None
  then show ?thesis
    using assms(1) [of _ _] assms(2) by (simp add: membersAt_def fieldUpdate_def decodeStruct_def)
next
  case (Some old)
  then show ?thesis
    using assms by (cases old) (auto simp: membersAt_def fieldUpdate_def decodeStruct_def)
qed

lemma exact_account:
  "exactName ''server''" "exactName ''admin''" "exactName ''username''" "exactName ''password_hash''"
  by (simp_all add: exactName_def settingNames_def configFields_def serverFields_def adminFields_def exposeFields_def
      connectFields_def field_def foldName_def runes_of_ascii isAscii_code foldRune_def)

lemma plain_put:
  assumes "plain num (VObj ps)" "validText k = k" "exactName k" "plain num v"
  shows "plain num (VObj (mput k v ps))"
proof -
  have "(l, w) = (k, v) \<or> (l, w) \<in> set ps" if "(l, w) \<in> set (mput k v ps)" for l w
    using that unfolding mput_def by (induction ps) (auto split: if_splits)
  moreover have "distinct (map fst (mput k v ps))"
    using assms(1) by (simp add: mput_def distinct_update)
  ultimately show ?thesis
    using assms by (fastforce simp: list_all_iff)
qed

lemma plain_member: "plain num (VObj ps) \<Longrightarrow> map_of ps k = Some v \<Longrightarrow> plain num v"
  by (auto simp: list_all_iff dest!: map_of_SomeD)

lemma plain_at: "plain num (VObj ps) \<Longrightarrow> plain num (VObj (membersAt k ps))"
proof (cases "map_of ps k")
  case (Some v)
  assume "plain num (VObj ps)"
  then have "plain num v"
    using Some by (rule plain_member)
  then show ?thesis
    using Some by (cases v) (simp_all add: membersAt_def)
qed (simp add: membersAt_def)

lemma plain_keys: "plain num (VObj ps) \<Longrightarrow> list_all (\<lambda>(k, v). exactName k) ps" "plain num (VObj ps) \<Longrightarrow> distinct (map fst ps)"
  by (auto simp: list_all_iff)

lemma plain_saved:
  assumes "plain num (VObj ps)" "validText u = u" "validText h = h"
  shows "plain num (VObj (savedAdmin u h ps))" "plain num (VObj (savedServer u h ps))" "plain num (VObj (savedMembers u h ps))"
proof -
  have names: "validText ''username'' = ''username''" "validText ''password_hash'' = ''password_hash''"
    "validText ''admin'' = ''admin''" "validText ''server'' = ''server''"
    by (simp_all add: isAscii_code)
  have admin: "plain num (VObj (savedAdmin u h qs))" if "plain num (VObj qs)" for qs
    using that assms(2,3) plain_put [OF _ names(1) exact_account(3)] plain_put [OF _ names(2) exact_account(4)]
    by (auto simp: savedAdmin_def Let_def simp del: plain.simps(4))
  have server: "plain num (VObj (savedServer u h qs))" if "plain num (VObj qs)" for qs
    unfolding savedServer_def by (intro plain_put [OF that names(3) exact_account(2)] admin plain_at that)
  show "plain num (VObj (savedAdmin u h ps))" "plain num (VObj (savedServer u h ps))"
    by (rule admin [OF assms(1)], rule server [OF assms(1)])
  show "plain num (VObj (savedMembers u h ps))"
    unfolding savedMembers_def by (intro plain_put [OF assms(1) names(4) exact_account(1)] server plain_at assms(1))
qed

text \<open>Section by section: what is read after the save is what was read before, with the account changed.\<close>

lemma read_savedAdmin:
  assumes p: "plain num (VObj ps)" and u: "validText u = u" and dec: "decodeMembers adminFields ps s = Some t"
  shows "decodeMembers adminFields (savedAdmin u h ps) s = Some (accountSet u h t)"
proof -
  have fields: "map_of adminFields ''username'' = Some (fieldUpdate ad_username ad_username_update stringValue)"
    "map_of adminFields ''password_hash'' = Some (fieldUpdate ad_passwordHash ad_passwordHash_update stringValue)"
    by (simp_all add: adminFields_def field_def)
  define ps1 where "ps1 = (if u \<noteq> [] then mput ''username'' (VStr u) ps else ps)"
  define t1 where "t1 = (if u \<noteq> [] then ad_username_update (\<lambda>_. u) t else t)"
  have p1: "plain num (VObj ps1)"
    using p u plain_put [OF p _ exact_account(3), of "VStr u"] by (simp add: ps1_def isAscii_code del: plain.simps(4))
  have "decodeMembers adminFields ps1 s = Some t1"
    using decodeMembers_put [OF admin_blind plain_keys [OF p] exact_account(3) fields(1) dec string_put] dec
    by (simp add: ps1_def t1_def)
  then have "decodeMembers adminFields (savedAdmin u h ps) s =
      Some (if h \<noteq> [] then ad_passwordHash_update (\<lambda>_. h) t1 else t1)"
    using decodeMembers_put [OF admin_blind plain_keys [OF p1] exact_account(4) fields(2) _ string_put]
    by (simp add: savedAdmin_def Let_def flip: ps1_def)
  then show ?thesis
    by (simp add: t1_def accountSet_def)
qed

lemma read_savedServer:
  assumes p: "plain num (VObj ps)" and u: "validText u = u" and dec: "decodeMembers serverFields ps s = Some t"
  shows "decodeMembers serverFields (savedServer u h ps) s = Some (sn_admin_update (accountSet u h) t)"
  unfolding savedServer_def
proof (rule decodeMembers_put [OF server_blind plain_keys [OF p] exact_account(2) _ dec])
  show "map_of serverFields ''admin'' = Some (fieldUpdate sn_admin sn_admin_update (decodeStruct adminFields))"
    by (simp add: serverFields_def field_def)
qed (rule struct_put [OF read_savedAdmin [OF plain_at [OF p] u]]; simp)

lemma read_savedMembers:
  assumes p: "plain num (VObj ps)" and u: "validText u = u" and dec: "decodeMembers configFields ps s = Some t"
  shows "decodeMembers configFields (savedMembers u h ps) s = Some (configWith u h t)"
  unfolding savedMembers_def
proof (rule decodeMembers_put [OF config_blind plain_keys [OF p] exact_account(1) _ dec])
  show "map_of configFields ''server'' = Some (fieldUpdate cf_server cf_server_update (decodeStruct serverFields))"
    by (simp add: configFields_def field_def)
qed (rule struct_put [OF read_savedServer [OF plain_at [OF p] u]]; simp)

text \<open>The map that is written is that document.\<close>

abbreviation anyMembers :: "(string \<Rightarrow> string option) \<Rightarrow> (string \<times> jv) list \<Rightarrow> jobject" where
  "anyMembers num \<equiv> map (\<lambda>(k, v). (k, anyValue num v))"

lemma anyMembers_put: "anyMembers num (mput k v ps) = mput k (anyValue num v) (anyMembers num ps)"
  unfolding mput_def by (induction ps) auto

lemma anyMembers_at:
  assumes "plain num (VObj ps)"
  shows "objectAt k (anyMembers num ps) = anyMembers num (membersAt k ps)"
proof -
  have look: "mget (anyMembers num ps) k = map_option (anyValue num) (map_of ps k)"
    unfolding mget_def by (induction ps) auto
  show ?thesis
  proof (cases "map_of ps k")
    case (Some v)
    then have "plain num v"
      using plain_member [OF assms] by blast
    then show ?thesis
      using Some look by (cases v) (auto simp: objectAt_def membersAt_def anyValue_object simp del: anyValue.simps(6))
  qed (simp add: look objectAt_def membersAt_def)
qed

lemma saveDoc_any:
  assumes p: "plain num (VObj ps)" "validText u = u" "validText h = h"
  shows "saveDoc u h (anyMembers num ps) = anyMembers num (savedMembers u h ps)"
proof -
  let ?server = "membersAt ''server'' ps"
  have ps: "plain num (VObj ?server)" "plain num (VObj (membersAt ''admin'' ?server))"
    using plain_at p(1) by blast+
  have at: "objectAt ''server'' (anyMembers num ps) = anyMembers num ?server"
    "objectAt ''admin'' (anyMembers num ?server) = anyMembers num (membersAt ''admin'' ?server)"
    by (rule anyMembers_at [OF p(1)], rule anyMembers_at [OF ps(1)])
  have object: "anyValue num (VObj qs) = JObj (anyMembers num qs)" if "plain num (VObj qs)" for qs
    by (rule anyValue_object [OF plain_keys(2) [OF that]])
  have "anyMembers num (savedMembers u h ps) = mput ''server'' (JObj (anyMembers num (savedServer u h ?server))) (anyMembers num ps)"
    unfolding savedMembers_def anyMembers_put object [OF plain_saved(2) [OF ps(1) p(2,3)]] ..
  also have "anyMembers num (savedServer u h ?server) =
      mput ''admin'' (JObj (anyMembers num (savedAdmin u h (membersAt ''admin'' ?server)))) (anyMembers num ?server)"
    unfolding savedServer_def anyMembers_put object [OF plain_saved(1) [OF ps(2) p(2,3)]] ..
  also have "anyMembers num (savedAdmin u h qs) =
      (let a1 = (if u \<noteq> [] then mput ''username'' (JStr u) (anyMembers num qs) else anyMembers num qs)
       in if h \<noteq> [] then mput ''password_hash'' (JStr h) a1 else a1)" for qs
    by (simp add: savedAdmin_def Let_def anyMembers_put)
  finally show ?thesis
    unfolding saveDoc_def Let_def at by simp
qed

section \<open>The text that is written\<close>

lemma sorted_ints: "plain num v \<Longrightarrow> intsOnly (sortedValue v)"
  by (induction v) (auto simp: list_all_iff)

lemma sorted_valid: "plain num v \<Longrightarrow> validValue (sortedValue v) = sortedValue v"
proof (induction v)
  case (VObj ps)
  then have "\<forall>(k, v) \<in> set (sort_key fst (map (\<lambda>(k, v). (k, sortedValue v)) ps)). validText k = k \<and> validValue v = v"
    by (auto simp: list_all_iff)
  then show ?case
    by (auto intro!: map_idI)
next
  case (VArr vs)
  then show ?case
    by (simp add: list_all_iff)
qed simp_all

lemma sorted_within: "within n (sortedValue v) = within n v"
  by (induction v arbitrary: n) (fastforce simp: list_all_iff)+

lemma within_put: "within (Suc n) (VObj ps) \<Longrightarrow> within n v \<Longrightarrow> within (Suc n) (VObj (mput k v ps))"
  unfolding mput_def by (induction ps) (auto split: if_splits)

lemma within_at: "within (Suc n) (VObj ps) \<Longrightarrow> 0 < n \<Longrightarrow> within n (VObj (membersAt k ps))"
proof (cases "map_of ps k")
  case (Some v)
  assume "within (Suc n) (VObj ps)" "0 < n"
  then have "within n v" "0 < n"
    using map_of_SomeD [OF Some] by (auto simp: list_all_iff)
  then show ?thesis
    using Some by (cases v) (simp_all add: membersAt_def)
qed (simp add: membersAt_def)

lemma within_saved:
  assumes "within (Suc (Suc (Suc n))) (VObj ps)"
  shows "within (Suc (Suc (Suc n))) (VObj (savedMembers u h ps))"
proof -
  let ?server = "membersAt ''server'' ps" and ?admin = "membersAt ''admin'' (membersAt ''server'' ps)"
  have server: "within (Suc (Suc n)) (VObj ?server)"
    by (rule within_at [OF assms]) simp
  then have "within (Suc n) (VObj ?admin)"
    by (rule within_at) simp
  then have "within (Suc n) (VObj (savedAdmin u h ?admin))"
    using within_put [of n _ "VStr u" "''username''"] within_put [of n _ "VStr h" "''password_hash''"]
    by (simp add: savedAdmin_def Let_def del: within.simps(2))
  then show ?thesis
    unfolding savedMembers_def savedServer_def using assms server by (intro within_put)
qed

lemma saved_parsed:
  assumes p: "plain num (VObj ps)" "validText u = u" "validText h = h" and d: "within maxNesting (VObj ps)"
    and out: "anyEncode (saveDoc u h (anyMembers num ps)) = Inr out"
  shows "parseJson (out @ [CHR 0x0A]) = Some (sortedValue (VObj (savedMembers u h ps)))"
proof -
  let ?v = "VObj (savedMembers u h ps)"
  have pl: "plain num ?v"
    by (rule plain_saved(3) [OF p])
  have "JObj (saveDoc u h (anyMembers num ps)) = anyValue num ?v"
    by (simp only: saveDoc_any [OF p] anyValue_object [OF plain_keys(2) [OF pl]])
  then have "out = indentJson 0 (sortedValue ?v)"
    using out sortedText_any [OF pl] by (simp add: anyEncode_def del: sortedText.simps sortedValue.simps anyValue.simps)
  moreover have three: "Suc (Suc (Suc (maxNesting - 3))) = maxNesting"
    by (simp add: maxNesting_def)
  have "within maxNesting (sortedValue ?v)"
    using within_saved [of "maxNesting - 3" ps u h, unfolded three] d unfolding sorted_within by blast
  ultimately show ?thesis
    using parseJson_indent [OF sorted_ints [OF pl], of "[CHR 0x0A]" 0] sorted_valid [OF pl]
    by (simp add: jsonSpace_def del: sortedValue.simps)
qed

section \<open>The account after a restart\<close>

text \<open>A config file the round trip holds for.\<close>

definition plainFile :: "(string \<Rightarrow> string option) \<Rightarrow> bytes \<Rightarrow> bool" where
  "plainFile num content \<longleftrightarrow>
     (\<exists>ps. parseJson content = Some (VObj ps) \<and> plain num (VObj ps) \<and> within maxNesting (VObj ps))"

lemma parseConfig_object:
  "parseJson content = Some (VObj ps) \<Longrightarrow>
   parseConfig bad content = Inr cfg \<longleftrightarrow> decodeMembers configFields ps emptyConfig = Some cfg"
  by (auto simp: parseConfig_def unmarshalInto_def decodeStruct_def split: option.splits)

text \<open>The document \<open>SaveAdmin\<close> starts from, as the config that is read from it.\<close>

lemma saved_document:
  assumes "loadDoc (anyDecode num bad) path w = Inr (Some doc)" "vw_file w = Inr old"
    and "case old of None \<Rightarrow> cfg = emptyConfig | Some content \<Rightarrow> plainFile num content \<and> parseConfig bad content = Inr cfg"
  obtains ps where "doc = anyMembers num ps" "plain num (VObj ps)" "within maxNesting (VObj ps)"
    "decodeMembers configFields ps emptyConfig = Some cfg"
proof (cases old)
  case None
  then have "doc = anyMembers num []" "decodeMembers configFields [] emptyConfig = Some cfg"
    using assms by (simp_all add: loadDoc_def)
  moreover have "plain num (VObj [])" "within maxNesting (VObj [])"
    by (simp_all add: maxNesting_def)
  ultimately show ?thesis
    using that by blast
next
  case (Some content)
  then obtain ps where ps: "parseJson content = Some (VObj ps)" "plain num (VObj ps)" "within maxNesting (VObj ps)"
    and cfg: "decodeMembers configFields ps emptyConfig = Some cfg"
    using assms(3) parseConfig_object by (auto simp: plainFile_def)
  have "content \<noteq> []"
    using ps(1) by (auto simp: parseJson_def)
  then have "anyDecode num bad content = Inr (Some doc)"
    using assms(1,2) Some by (auto simp: loadDoc_def split: sum.splits)
  then have "doc = anyMembers num ps"
    using ps(1) plain_fits [OF ps(2)] anyValue_object [OF plain_keys(2) [OF ps(2)]]
    by (simp add: anyDecode_def del: anyValue.simps numbersFit.simps)
  then show ?thesis
    using ps cfg by (intro that)
qed

lemma saved_config_read:
  assumes "saveAdmin (anyDecode num bad) anyEncode w path u h = (Saved, ops)"
    and "vw_temp w = Inr tmp" "tmp \<noteq> path" "m tmp = None" "vw_file w = Inr (m path)"
    and "validText u = u" "validText h = h"
    and "case m path of
        None \<Rightarrow> cfg = emptyConfig
      | Some content \<Rightarrow> plainFile num content \<and> parseConfig bad content = Inr cfg"
  shows "\<exists>out. opsApply ops m = m(path \<mapsto> out) \<and> parseConfig bad out = Inr (configWith u h cfg)"
proof -
  obtain doc out where wrote: "loadDoc (anyDecode num bad) path w = Inr (Some doc)"
    "anyEncode (saveDoc u h doc) = Inr out" "writeOut path (out @ [CHR 0x0A]) w = (Saved, ops)"
    using saveAdmin_wrote [OF assms(1)] by blast
  obtain ps where ps: "doc = anyMembers num ps" "plain num (VObj ps)" "within maxNesting (VObj ps)"
    "decodeMembers configFields ps emptyConfig = Some cfg"
    using saved_document [OF wrote(1) assms(5,8)] by blast
  let ?v = "VObj (savedMembers u h ps)"
  have "decodeStruct configFields (sortedValue ?v) emptyConfig = decodeStruct configFields ?v emptyConfig"
    using struct_blind [OF config_blind] plain_saved(3) [OF ps(2) assms(6,7)] unfolding orderBlind_def by blast
  also have "\<dots> = Some (configWith u h cfg)"
    using read_savedMembers [OF ps(2) assms(6) ps(4)] by (simp add: decodeStruct_def)
  finally have "parseConfig bad (out @ [CHR 0x0A]) = Inr (configWith u h cfg)"
    using saved_parsed [OF ps(2) assms(6,7) ps(3) wrote(2) [unfolded ps(1)]]
    by (simp add: parseConfig_def unmarshalInto_def del: sortedValue.simps)
  then show ?thesis
    using writeOut_saved [where m = m, OF wrote(3) assms(2-4)] by blast
qed

end
