(* ===== verification/Program.thy ===== *)
theory Program
  imports Sessions Config_Restart Admin_Props Server_System Path_Props
begin

text \<open>
  The program as a process, from its command line to what it does: what the run of a server and of the
  other commands ends with, what a host started with flags does for its clients, and the administrator's
  account from one start of a server to the next, through the handler that changes it, \<open>SaveAdmin\<close>, the
  file, \<open>Load\<close> and the command line.
\<close>

section \<open>Running a command\<close>

text \<open>
  \<open>Server.Run\<close>: the error it ends with, or nothing while it serves. Resolving the UDP address, listening
  on it, and serving HTTP are given; the UDP socket is there before the first HTTP request is served.
\<close>

definition serverRun ::
  "(string \<Rightarrow> string + udp_addr) \<Rightarrow> (udp_addr \<Rightarrow> string option) \<Rightarrow> (string \<Rightarrow> string option) \<Rightarrow> server_config \<Rightarrow>
     string option" where
  "serverRun resolveUDP listenUDP serveHTTP cfg =
     (case resolveUDP (cf_udpAddr cfg) of
        Inl e \<Rightarrow> Some e
      | Inr uaddr \<Rightarrow>
          (case listenUDP uaddr of
             Some e \<Rightarrow> Some e
           | None \<Rightarrow> serveHTTP (cf_httpAddr cfg)))"

text \<open>\<open>randToken\<close>, with the eight bytes that were drawn.\<close>

definition randToken :: "bytes \<Rightarrow> string" where
  "randToken drawn = hexEncode drawn"

text \<open>Bytes that were not drawn before give a token no connection has, as every new connection needs one.\<close>

lemma randToken_fresh:
  assumes "length drawn = 8" "drawn \<notin> used"
    and "\<And>c pc. sv_conns s c = Some pc \<Longrightarrow> pc_token pc \<in> randToken ` used"
  shows "freshToken (randToken drawn) s"
proof -
  have "length (hexEncode b) = 2 * length b" for b
    by (induction b) (simp_all add: hexEncode_def)
  then show ?thesis
    using assms(1,2) by (auto simp: freshToken_def randToken_def tokenLen_def dest!: assms(3))
qed

text \<open>How a command ends, given the error its run returned.\<close>

definition commandEnd :: "program_run \<Rightarrow> string option \<Rightarrow> program_exit" where
  "commandEnd run err =
     (case run of
        Finished e \<Rightarrow> e
      | Prints t \<Rightarrow> Exit 0 []
      | PrintsUsage \<Rightarrow> Exit 0 []
      | RunsServer c v \<Rightarrow> (case err of None \<Rightarrow> Exit 0 [] | Some e \<Rightarrow> fatal (''server: '' @ e))
      | RunsExpose a v \<Rightarrow> (case err of None \<Rightarrow> Exit 0 [] | Some e \<Rightarrow> fatal e)
      | RunsConnect a RunTunnels v \<Rightarrow> (case err of None \<Rightarrow> Exit 0 [] | Some e \<Rightarrow> fatal e)
      | RunsConnect a (OneShot act) v \<Rightarrow> oneShotEnd act err
      | RunsUpdate tag \<Rightarrow> updateEnd err
      | RunsModes ms v \<Rightarrow> Exit 0 (case err of None \<Rightarrow> [] | Some e \<Rightarrow> e))"

lemmas run_defs_program [go_defs] = serverRun_def randToken_def commandEnd_def

section \<open>A host from its flags\<close>

text \<open>
  C4: A host does only what its command line allows. For every list of flags \<open>expose\<close> accepts, and over
  all rounds of its run, whatever its clients send: with \<open>--allow\<close> given, or in the config if not, every
  connection it opens goes to one of the targets named; with none it opens connections only if
  \<open>--allow-dial\<close> (or the config) says so; it runs commands only if \<open>--allow-exec\<close> (or the config) says so;
  and every file it opens or creates is below the last \<open>--file-root\<close>, or the config's.
\<close>

theorem flags_bound_host:
  assumes "applySettings (ce_frac env) sts exposeFlags = Some fs" "stops rest"
    and "path = lastOr ''config.json'' (givenTexts ''config'' sts)"
    and "fst (load (ce_bad env) (ce_read env path) path (givenTexts ''config'' sts \<noteq> [])) = Inr cfg"
    and "targets = chosenAll (givenTexts ''allow'' sts) (ex_allow (cf_expose cfg))"
    and "root = chosen (givenTexts ''file-root'' sts) (ex_fileRoot (cf_expose cfg)) []"
    and "\<forall>(b, (dw, w), a) \<in> set rounds. hw_cwd w = cwd" "cwdOk cwd" "root \<noteq> [] \<Longrightarrow> absPath cwd root \<noteq> None"
  shows "\<exists>a v. programMain env connErr (''expose'' # concat (map settingText sts) @ rest) = RunsExpose a v \<and>
    hp_fileRoot (ea_policy a) = root \<and>
    (\<forall>e \<in> set (snd (runExpose resolve quic streams unmarshal random cert a rounds)).
       case e of
         Dialed t c \<Rightarrow>
           (if targets = [] then chosenBool (givenBools ''allow-dial'' sts) (ex_allowDial (cf_expose cfg)) else t \<in> set targets)
       | Ran args input \<Rightarrow> chosenBool (givenBools ''allow-exec'' sts) (ex_allowExec (cf_expose cfg))
       | Opened p \<Rightarrow> inRoot (ea_policy a) cwd p
       | Created p mode content \<Rightarrow> inRoot (ea_policy a) cwd p)"
    (is "\<exists>a v. _ \<and> _ \<and> (\<forall>e \<in> ?done a. ?ok a e)")
proof -
  obtain a where a: "programMain env connErr (''expose'' # concat (map settingText sts) @ rest) =
      RunsExpose a (chosenBool (givenBools ''v'' sts) (ex_verbose (cf_expose cfg)))"
    "hp_fileRoot (ea_policy a) = root" "hp_allow (ea_policy a) = targets"
    "hp_allowDial (ea_policy a) =
       (chosenBool (givenBools ''allow-dial'' sts) (ex_allowDial (cf_expose cfg)) \<or> targets \<noteq> [])"
    "hp_allowExec (ea_policy a) = chosenBool (givenBools ''allow-exec'' sts) (ex_allowExec (cf_expose cfg))"
    using expose_flags_beat_config [OF assms(1-4)] unfolding assms(5,6) by metis
  have "list_all (permitted (ea_policy a) cwd) (snd (runExpose resolve quic streams unmarshal random cert a rounds))"
    using assms(7-9) a(2) by (intro runExpose_permitted) auto
  moreover have "?ok a e" if "permitted (ea_policy a) cwd e" for e
    using that by (cases e) (auto simp: permitted_def a(3-5))
  ultimately show ?thesis
    using a(1,2) by (intro exI conjI ballI) (auto simp: list_all_iff)
qed

theorem flags_bound_host_witness:
  "\<exists>a v. programMain cliEnv (\<lambda>a. None) [''expose'', ''--allow=db:5432'', ''-file-root'', ''/srv''] = RunsExpose a v \<and>
     (\<forall>e \<in> set (snd (runExpose (\<lambda>t. Some (natAddr 7)) (\<lambda>certs proto. Inr (Inr ()))
          (\<lambda>c. [Inr \<lparr> dx_in = bytesIn (frameBytes ''x''), dx_out = freshOut \<rparr>]) (\<lambda>b. Inr (tcpMsg ''db:5432'')) []
          (Inr ([], ''fp'')) a [(False, (dialWorld, tpWorld), True)])).
        case e of Dialed t c \<Rightarrow> t = ''db:5432'' | Ran args input \<Rightarrow> False | _ \<Rightarrow> True)"
proof -
  let ?sts = "[Attached True ''allow'' ''db:5432'', Apart False ''file-root'' ''/srv'']"
  obtain fs where fs: "applySettings (ce_frac cliEnv) ?sts exposeFlags = Some fs"
    by (simp add: flag_tables table_lookup applySetting_def putFlag_def setFlag_def isBoolFlag_def mput_def)
  have stop: "stops []"
    by (simp add: stops_def)
  have conf: "fst (load (ce_bad cliEnv) (ce_read cliEnv ''config.json'') ''config.json'' (givenTexts ''config'' ?sts \<noteq> [])) =
      Inr emptyConfig" "lastOr ''config.json'' (givenTexts ''config'' ?sts) = ''config.json''"
    by (simp_all add: cliEnv_def load_def loadConfig_def)
  have world: "\<forall>(b, (dw, w), a) \<in> set [(False, (dialWorld, tpWorld), True)]. hw_cwd w = None" "cwdOk None"
    by (simp_all add: tpWorld_def cwdOk_def)
  have root: "absPath None ''/srv'' \<noteq> None"
    by (simp add: absPath_def isAbs_def hasPrefix_def)
  have *: "chosenAll (givenTexts ''allow'' ?sts) (ex_allow (cf_expose emptyConfig)) = [''db:5432'']"
    "chosen (givenTexts ''file-root'' ?sts) (ex_fileRoot (cf_expose emptyConfig)) [] = ''/srv''"
    "chosenBool (givenBools ''allow-exec'' ?sts) (ex_allowExec (cf_expose emptyConfig)) = False"
    by (simp_all add: chosenAll_def chosen_def chosenBool_def emptyConfig_def)
  show ?thesis
    using flags_bound_host [OF fs stop conf(2) [symmetric] conf(1) *(1) [symmetric] *(2) [symmetric] world root,
        where connErr = "\<lambda>a. None" and resolve = "\<lambda>t. Some (natAddr 7)" and quic = "\<lambda>certs proto. Inr (Inr ())" and
          streams = "\<lambda>c. [Inr \<lparr> dx_in = bytesIn (frameBytes ''x''), dx_out = freshOut \<rparr>]" and
          unmarshal = "\<lambda>b. Inr (tcpMsg ''db:5432'')" and random = "[]" and cert = "Inr ([], ''fp'')", unfolded *(3)]
    by (fastforce simp: dashes_def split: host_effect.splits)
qed

section \<open>Text that the config file keeps\<close>

lemma isAscii_append [simp]: "isAscii (s @ t) \<longleftrightarrow> isAscii s \<and> isAscii t"
  by (simp add: isAscii_def)

lemma isAscii_subset: "set s \<subseteq> set t \<Longrightarrow> isAscii t \<Longrightarrow> isAscii s"
  by (auto simp: isAscii_def list_all_iff)

lemma isAscii_b64 [simp]: "isAscii (b64Encode s)"
  using b64Encode_set by (rule isAscii_subset) code_simp

lemma isAscii_natToDec [simp]: "isAscii (natToDec n)"
proof -
  have "isDigit c \<Longrightarrow> (of_char c :: nat) < 0x80" for c
    by (auto simp: isDigit_def less_eq_char_def)
  then show ?thesis
    using natToDec_set by (auto simp: isAscii_def list_all_iff)
qed

lemma validText_hash: "hashPassword kdf salt password = Some h \<Longrightarrow> validText h = h"
  by (rule validText_ascii) (auto simp: hashPassword_def itoa_def isAscii_code split: option.splits)

lemma validText_username:
  assumes "validateUsername name = None"
  shows "validText name = name"
proof -
  have "list_all (\<lambda>r. r < 0x80) (runes name)"
    using assms usernameRune_plain(1) by (auto simp: validateUsername_def list_all_iff split: if_splits)
  then have "isAscii name"
    using runes_ascii [of name] by (simp add: isAscii_def list_all_iff)
  then show ?thesis
    by (rule validText_ascii)
qed

section \<open>An account change, saved\<close>

text \<open>The name and the hash a successful change hands to \<open>SaveAdmin\<close>, and the account it leaves.\<close>

lemma account_saved:
  assumes "rs_status (snd (handleAuthAccount L kdf now salt (Some req) r s)) = 200"
    and "s' = fst (handleAuthAccount L kdf now salt (Some req) r s)"
  obtains u h save where "u = normalizeUsername L (acr_newUsername req)"
    "newHash kdf salt (acr_newPassword req) h" "validText u = u" "validText h = h"
    "cf_saveAdmin (sv_cfg s) = Some save" "save u h = None" "sv_cfg s' = sv_cfg (setAccount u h s)"
proof -
  obtain s1 res where a: "authSession now r s = (s1, res)"
    by fastforce
  have cfg: "sv_cfg s1 = sv_cfg s"
    using a by (auto simp: authSession_def split: option.splits prod.splits if_splits)
  let ?u = "normalizeUsername L (acr_newUsername req)"
  have name: "?u \<noteq> [] \<longrightarrow> validateUsername ?u = None"
    using assms(1) a by (auto simp: handleAuthAccount_def Let_def writeJSONError_def split: option.splits sum.splits)
  from a show ?thesis
  proof (cases rule: handleAuthAccount_cases [where L = L and kdf = kdf and salt = salt and body = "Some req"])
    case refused
    then show ?thesis using assms(1) by simp
  next
    case (saved sess req' b h)
    then have req': "req' = req"
      by simp
    obtain save where save: "cf_saveAdmin (sv_cfg s1) = Some save" "save ?u h = None"
      "sv_cfg s' = sv_cfg (setAccount ?u h s1)"
      using saveAccount_disj [of r ?u h s1] assms saved(6) req' by auto
    have "validText ?u = ?u"
      using name validText_username by (cases "?u = []") (simp_all add: isAscii_code)
    moreover have "validText h = h"
      using saved(4) validText_hash by (auto simp: newHash_def isAscii_code split: if_splits)
    moreover have "sv_cfg s' = sv_cfg (setAccount ?u h s)"
      using save(3) by (simp add: setAccount_def Let_def cfg)
    ultimately show ?thesis
      using that [OF refl saved(4) [unfolded req'] _ _ save(1) [unfolded cfg] save(2)] by blast
  qed
qed

section \<open>From one start to the next\<close>

text \<open>The program on a file system, and that its \<open>SaveAdmin\<close> answers as the writing of the file goes.\<close>

definition readOf :: "store \<Rightarrow> string \<Rightarrow> file_read" where
  "readOf m p =
     (case m p of None \<Rightarrow> ReadMissing (''open '' @ p @ '': no such file or directory'') | Some content \<Rightarrow> ReadBytes content)"

definition onFiles :: "cli_env \<Rightarrow> store \<Rightarrow> cli_env" where
  "onFiles env m = env\<lparr>ce_read := readOf m\<rparr>"

lemma onFiles_sel [simp]:
  "ce_read (onFiles env m) = readOf m" "ce_bad (onFiles env m) = ce_bad env"
  "ce_version (onFiles env m) = ce_version env" "ce_save (onFiles env m) = ce_save env"
  by (simp_all add: onFiles_def)

definition savesTo :: "cli_env \<Rightarrow> (string \<Rightarrow> string option) \<Rightarrow> save_world \<Rightarrow> string \<Rightarrow> bool" where
  "savesTo env num w path \<longleftrightarrow>
     (\<forall>u h. ce_save env path u h = None \<longleftrightarrow> fst (saveAdmin (anyDecode num (ce_bad env)) anyEncode w path u h) = Saved)"

lemma serverOf_sel [simp]:
  "cf_saveAdmin (serverOf env path cfg) = Some (ce_save env path)" "serverOf (onFiles env m) path = serverOf env path"
  by (simp_all add: serverOf_def runServer_def fun_eq_iff)

lemma serverOf_account:
  "sv_cfg s = serverOf env path cfg \<Longrightarrow> sv_cfg (setAccount u h s) = serverOf env path (configWith u h cfg)"
  by (simp add: setAccount_def serverOf_def runServer_def accountSet_def Let_def)

lemma load_read:
  assumes "fst (load bad (readOf m path) path explicit) = Inr cfg"
  shows "case m path of None \<Rightarrow> cfg = emptyConfig | Some content \<Rightarrow> parseConfig bad content = Inr cfg"
proof (cases "m path")
  case None
  then show ?thesis
    using assms by (simp add: readOf_def load_def loadConfig_def split: if_splits)
next
  case (Some content)
  then show ?thesis
    using assms by (cases "parseConfig bad content") (simp_all add: readOf_def load_def loadConfig_def)
qed

lemma read_load:
  "m path = Some content \<Longrightarrow> parseConfig bad content = Inr cfg \<Longrightarrow>
   fst (load bad (readOf m path) path explicit) = Inr cfg"
  by (simp add: readOf_def load_def loadConfig_def)

lemma server_start:
  assumes "args = [] \<and> path = defaultPath \<or> args = [''--config'', path]"
  shows "programMain env connErr (''server'' # args) = RunsServer c v \<longleftrightarrow>
    (\<exists>cfg. fst (load (ce_bad env) (ce_read env path) path (args \<noteq> [])) = Inr cfg \<and>
       c = serverOf env path cfg \<and> v = sn_verbose (cf_server cfg))"
proof (cases "fst (load (ce_bad env) (ce_read env path) path (args \<noteq> []))")
  case (Inl e)
  then show ?thesis
    by (simp add: programMain_def dispatch_modes cmdServer_def runOr_def withConfig_fails [OF assms Inl])
next
  case (Inr cfg)
  then show ?thesis
    using start_server [OF assms Inr] by (auto simp: programMain_def dispatch_modes runOr_def)
qed

text \<open>
  C6: An account change survives a restart. Let a server have been started from a config file (or from the
  default path with no file there yet) and run with the settings this start gave, and let an account
  change made through its admin interface succeed. Then \<open>SaveAdmin\<close> has rewritten the file, and touched no
  other, so that the same command started again makes a server with exactly the settings the running one
  has now; on it the administrator signs in under the new name, if one was sent, with the new password,
  and with no password whose derived key is another.
\<close>

theorem account_survives_restart:
  assumes "kdfLaw kdf"
    and "args = [] \<and> path = ''config.json'' \<or> args = [''--config'', path]"
    and start: "programMain (onFiles env m) connErr (''server'' # args) = RunsServer (sv_cfg s) v"
    and "case m path of None \<Rightarrow> True | Some content \<Rightarrow> plainFile num content"
    and saves: "savesTo env num w path" "vw_temp w = Inr tmp" "tmp \<noteq> path" "m tmp = None" "vw_file w = Inr (m path)"
    and change: "rs_status (snd (handleAuthAccount L kdf now salt (Some req) r s)) = 200"
    and "s' = fst (handleAuthAccount L kdf now salt (Some req) r s)"
    and "acr_newPassword req \<noteq> []"
  shows "\<exists>u h ops out.
    saveAdmin (anyDecode num (ce_bad env)) anyEncode w path u h = (Saved, ops) \<and>
    opsApply ops m = m(path \<mapsto> out) \<and>
    programMain (onFiles env (opsApply ops m)) connErr (''server'' # args) = RunsServer (sv_cfg s') v \<and>
    (normalizeUsername L (acr_newUsername req) \<noteq> [] \<longrightarrow>
       adminUsername (newServer now' (sv_cfg s')) = normalizeUsername L (acr_newUsername req)) \<and>
    checkAdminPassword L kdf (adminUsername (newServer now' (sv_cfg s'))) q (newServer now' (sv_cfg s')) =
      (if kdf q salt pbkdf2Iterations pbkdf2KeyLength =
          kdf (acr_newPassword req) salt pbkdf2Iterations pbkdf2KeyLength then Inr False else Inl errBadCredentials)"
proof -
  have args: "args = [] \<and> path = defaultPath \<or> args = [''--config'', path]"
    using assms(2) by (simp add: defaultPath_def)
  obtain cfg where cfg: "fst (load (ce_bad env) (readOf m path) path (args \<noteq> [])) = Inr cfg"
    "sv_cfg s = serverOf env path cfg" "v = sn_verbose (cf_server cfg)"
    using start unfolding server_start [OF args] by auto
  obtain u h save where ch: "u = normalizeUsername L (acr_newUsername req)" "newHash kdf salt (acr_newPassword req) h"
    "validText u = u" "validText h = h" "cf_saveAdmin (sv_cfg s) = Some save" "save u h = None"
    "sv_cfg s' = sv_cfg (setAccount u h s)"
    by (rule account_saved [OF change assms(11)])
  have h: "hashPassword kdf salt (acr_newPassword req) = Some h" "h \<noteq> []"
    using ch(2) assms(12) newHash_ne [OF ch(2)] by (simp_all add: newHash_def)
  obtain ops where ops: "saveAdmin (anyDecode num (ce_bad env)) anyEncode w path u h = (Saved, ops)"
    using saves(1) ch(5,6) by (simp add: savesTo_def cfg(2)) (metis prod.collapse)
  have was: "case m path of None \<Rightarrow> cfg = emptyConfig
      | Some content \<Rightarrow> plainFile num content \<and> parseConfig (ce_bad env) content = Inr cfg"
    using load_read [OF cfg(1)] assms(4) by (auto split: option.split)
  obtain out where out: "opsApply ops m = m(path \<mapsto> out)" "parseConfig (ce_bad env) out = Inr (configWith u h cfg)"
    using saved_config_read [where m = m, OF ops saves(2-5) ch(3,4) was] by blast
  have cfg': "sv_cfg s' = serverOf env path (configWith u h cfg)"
    using serverOf_account [OF cfg(2)] ch(7) by simp
  have "programMain (onFiles env (opsApply ops m)) connErr (''server'' # args) = RunsServer (sv_cfg s') v"
    unfolding server_start [OF args] out(1) cfg' using out(2) cfg(3)
    by (simp add: read_load)
  moreover have "adminUsername (newServer now' (sv_cfg s')) = (if u = [] then adminUsername s else u)"
    "ac_passwordHash (cf_admin (sv_cfg s')) = h"
    using h(2) by (simp_all add: ch(7) adminUsername_def newServer_def setAccount_def Let_def)
  moreover have "verifyPassword kdf h q \<longleftrightarrow>
      kdf q salt pbkdf2Iterations pbkdf2KeyLength = kdf (acr_newPassword req) salt pbkdf2Iterations pbkdf2KeyLength"
    by (rule verifyPassword_hash [OF assms(1) h(1)])
  ultimately show ?thesis
    using ops out(1) h(2) ch(1) by (intro exI [of _ u] exI [of _ h] exI [of _ ops] exI [of _ out])
      (simp add: checkAdminPassword_def newServer_def)
qed

definition keptFile :: bytes where
  "keptFile = ''{'' @ [CHR 0x22] @ ''server'' @ [CHR 0x22] @ '':{'' @ [CHR 0x22] @ ''name'' @ [CHR 0x22] @ '':'' @
     [CHR 0x22] @ ''x'' @ [CHR 0x22] @ ''}}''"

definition keptWorld :: save_world where
  "keptWorld = \<lparr> vw_file = Inr (Some keptFile), vw_temp = Inr ''t'', vw_writeErr = None, vw_syncErr = None,
     vw_closeErr = None, vw_renameErr = None \<rparr>"

definition keptEnv :: cli_env where
  "keptEnv = cliEnv\<lparr>ce_save := \<lambda>p u h.
     if fst (saveAdmin (anyDecode Some (ce_bad cliEnv)) anyEncode keptWorld p u h) = Saved then None else Some ''failed''\<rparr>"

lemma kept_parsed: "parseJson keptFile = Some (VObj [(''server'', VObj [(''name'', VStr ''x'')])])"
  by code_simp

lemma kept_plain: "plainFile Some keptFile"
proof -
  have "exactName ''name''"
    by (simp add: exactName_def settingNames_def configFields_def serverFields_def adminFields_def exposeFields_def
        connectFields_def field_def foldName_def runes_of_ascii isAscii_code foldRune_def)
  then show ?thesis
    by (simp add: plainFile_def kept_parsed maxNesting_def exact_account isAscii_code)
qed

lemma kept_config: "parseConfig bad keptFile = Inr (cf_server_update (sn_name_update (\<lambda>_. ''x'')) emptyConfig)"
  by (simp add: parseConfig_def unmarshalInto_def kept_parsed decodeStruct_def configFields_def serverFields_def
      fieldFor_def field_def fieldUpdate_def emptyConfig_def)

definition keptServer :: server where
  "keptServer = (newServer 0 (serverOf keptEnv ''c'' (cf_server_update (sn_name_update (\<lambda>_. ''x'')) emptyConfig)))\<lparr>sv_admin :=
     \<lparr> aa_sessions = [(''t1'', \<lparr> as_username = ''admin'', as_expires = 5 + 12 * hour, as_mustChangePassword = True \<rparr>)],
       aa_ttl = 12 * hour \<rparr>\<rparr>"

lemma kept_status: "rs_status (snd (handleAuthAccount id padKdf 6 ''salt'' (Some acctReq) (bootReq ''t1'') keptServer)) = 200"
proof -
  have "authSession 6 (bootReq ''t1'') keptServer =
      (keptServer, Some \<lparr> as_username = ''admin'', as_expires = 5 + 12 * hour, as_mustChangePassword = True \<rparr>)"
    by (simp add: keptServer_def authSession_def lookup_def bootReq_def gomap_defs duration_defs)
  moreover have "adminUsername keptServer = ''admin''" "passwordUnset keptServer"
      "cf_saveAdmin (sv_cfg keptServer) = Some (ce_save keptEnv ''c'')"
      "ac_passwordHash (cf_admin (sv_cfg keptServer)) = []"
    by (simp_all add: keptServer_def adminUsername_def passwordUnset_def newServer_def serverOf_def runServer_def
        emptyConfig_def defaultAdminUsername_def)
  moreover have "ce_save keptEnv ''c'' ''ada'' h = None" for h
    by (simp add: keptEnv_def saveAdmin_def loadDoc_def keptWorld_def anyDecode_def kept_parsed anyEncode_def writeOut_def
        mput_def)
  ultimately show ?thesis
    by (simp add: handleAuthAccount_def checkAdminPassword_def acctReq_def normal_names initialAdminPassword_def
        newPasswordError_def minPasswordChars_def hashPassword_def padKdf_def saveAccount_def writeJSON_def Let_def)
qed

theorem account_survives_restart_witness:
  "\<exists>out c. programMain (onFiles keptEnv [''c'' \<mapsto> out]) (\<lambda>a. None) [''server'', ''--config'', ''c''] = RunsServer c False \<and>
     cf_name c = ''x'' \<and> adminUsername (newServer 9 c) = ''ada'' \<and>
     checkAdminPassword id padKdf ''ada'' ''swordfish'' (newServer 9 c) = Inr False"
proof -
  let ?c = "sv_cfg (fst (handleAuthAccount id padKdf 6 ''salt'' (Some acctReq) (bootReq ''t1'') keptServer))"
  let ?args = "[''--config'', ''c'']" and ?m = "[''c'' \<mapsto> keptFile]"
  have args: "?args = [] \<and> ''c'' = ''config.json'' \<or> ?args = [''--config'', ''c'']"
    by simp
  have start: "programMain (onFiles keptEnv ?m) (\<lambda>a. None) (''server'' # ?args) = RunsServer (sv_cfg keptServer) False"
    by (subst server_start [of _ "''c''"])
      (simp_all add: load_def loadConfig_def readOf_def kept_config keptServer_def newServer_def emptyConfig_def)
  have saves: "savesTo keptEnv Some keptWorld ''c''"
    by (simp add: savesTo_def keptEnv_def)
  obtain u h ops out where "opsApply ops ?m = ?m(''c'' \<mapsto> out)"
    "programMain (onFiles keptEnv (opsApply ops ?m)) (\<lambda>a. None) (''server'' # ?args) = RunsServer ?c False"
    "adminUsername (newServer 9 ?c) = ''ada''"
    "checkAdminPassword id padKdf (adminUsername (newServer 9 ?c)) ''swordfish'' (newServer 9 ?c) = Inr False"
    using account_survives_restart [OF padKdf_law args start _ saves _ _ _ _ kept_status refl, of "''t''" 9 "''swordfish''"]
    by (auto simp: kept_plain keptWorld_def normal_names)
  moreover have "cf_name ?c = ''x''"
    by (rule account_saved [OF kept_status refl])
      (simp add: setAccount_def Let_def keptServer_def newServer_def serverOf_def runServer_def)
  ultimately show ?thesis
    by auto
qed

end
