(* ===== verification/Updater.thy ===== *)
theory Updater
  imports File_Store Go_Text Go_Path Go_Hex
begin

text \<open>
  Self-update (\<open>cmd/relay-tunnel/update.go\<close>): which release, its checksum, and putting the new binary
  in the place of the running one. What a download gives is a function of its URL; the SHA-256 of a
  binary, the platform's names and the running version are parameters.
\<close>

section \<open>Names and checksums\<close>

text \<open>The platform, the running version, lower-casing, and SHA-256.\<close>

record update_env =
  ue_goos :: string
  ue_goarch :: string
  ue_version :: string
  ue_lower :: "nat \<Rightarrow> nat"
  ue_sha256 :: "bytes \<Rightarrow> bytes"

definition appName :: string where
  "appName = ''relay-tunnel''"

definition updateAPI :: string where
  "updateAPI = ''https://api.github.com/repos/chriswirz/relay-tunnel/releases''"

definition updateDownloadBase :: string where
  "updateDownloadBase = ''https://github.com/chriswirz/relay-tunnel/releases/download''"

definition updateAssetName :: "string \<Rightarrow> string \<Rightarrow> string" where
  "updateAssetName goos goarch =
     appName @ ''-'' @ goos @ ''-'' @ goarch @ (if goos = ''windows'' then ''.exe'' else [])"

record release =
  rl_tagName :: string
  rl_name :: string

definition releaseVersion :: "release \<Rightarrow> string" where
  "releaseVersion r = (case stringsFields (rl_name r) of f # _ \<Rightarrow> f | [] \<Rightarrow> rl_tagName r)"

text \<open>One line of SHA256SUMS: the checksum, if the line is the asset's.\<close>

definition sumOfLine :: "(nat \<Rightarrow> nat) \<Rightarrow> string \<Rightarrow> string \<Rightarrow> string option" where
  "sumOfLine L asset line =
     (case stringsFields (trimSpace line) of
        [digest, file] \<Rightarrow> if trimPrefix file ''*'' = asset then Some (toLower L digest) else None
      | _ \<Rightarrow> None)"

fun firstSum :: "(nat \<Rightarrow> nat) \<Rightarrow> string \<Rightarrow> string list \<Rightarrow> string option" where
  "firstSum L asset [] = None"
| "firstSum L asset (line # ls) = (case sumOfLine L asset line of Some s \<Rightarrow> Some s | None \<Rightarrow> firstSum L asset ls)"

definition checksumFor :: "update_env \<Rightarrow> string \<Rightarrow> string \<Rightarrow> string + string" where
  "checksumFor env sums asset =
     (case firstSum (ue_lower env) asset (splitOn (CHR 0x0A) sums) of
        Some s \<Rightarrow> Inr s
      | None \<Rightarrow>
          Inl (''SHA256SUMS does not list '' @ asset @ ''; this release may not carry a build for '' @
               ue_goos env @ ''/'' @ ue_goarch env))"

section \<open>Fetching\<close>

text \<open>
  What a request gives: its error, or an answer with its status code, its status line, its body, and
  the error that ends the body early, if any.
\<close>

record http_answer =
  ha_code :: nat
  ha_status :: string
  ha_body :: bytes
  ha_bodyErr :: "string option"

type_synonym http_get = "string \<Rightarrow> string + http_answer"

text \<open>The body is read up to 256 MiB; what would come after, an error included, is not looked at.\<close>

definition fetchURL :: "http_get \<Rightarrow> string \<Rightarrow> string + bytes" where
  "fetchURL get url =
     (case get url of
        Inl e \<Rightarrow> Inl e
      | Inr r \<Rightarrow>
          if ha_code r = 403 \<or> ha_code r = 429 then
            Inl (''GitHub answered '' @ ha_status r @
                 '' (rate limited); try again later or pass --update-version to skip the API'')
          else if ha_code r \<noteq> 200 then Inl (''GET '' @ url @ '': '' @ ha_status r)
          else if 256 * 2 ^ 20 \<le> length (ha_body r) then Inr (take (256 * 2 ^ 20) (ha_body r))
          else (case ha_bodyErr r of Some e \<Rightarrow> Inl e | None \<Rightarrow> Inr (ha_body r)))"

definition latestRelease :: "http_get \<Rightarrow> (bytes \<Rightarrow> string + release) \<Rightarrow> string + release" where
  "latestRelease get parse =
     (case fetchURL get (updateAPI @ ''/latest'') of
        Inl e \<Rightarrow> Inl (''could not ask GitHub for the latest release: '' @ e)
      | Inr body \<Rightarrow>
          (case parse body of
             Inl e \<Rightarrow> Inl (''could not read the latest release: '' @ e)
           | Inr rel \<Rightarrow> if rl_tagName rel = [] then Inl ''the latest release has no tag'' else Inr rel))"

section \<open>Replacing the binary\<close>

text \<open>
  The staging file's name, or the error of making it, and the errors of the calls that follow; the
  mode of the old binary, if it can be had. \<open>rw_backErr\<close> is the error of putting the old binary back.
  An error of the system comes with whether it is one of permission.
\<close>

type_synonym os_error = "string \<times> bool"

record replace_world =
  rw_staged :: "os_error + string"
  rw_writeErr :: "string option"
  rw_closeErr :: "string option"
  rw_mode :: "nat option"
  rw_chmodErr :: "string option"
  rw_backupErr :: "os_error option"
  rw_renameErr :: "os_error option"
  rw_backErr :: "string option"

definition updateWriteError :: "string \<Rightarrow> os_error \<Rightarrow> string" where
  "updateWriteError dir e =
     ''cannot write to '' @ dir @ '': '' @ fst e @
     (if snd e then CHR 0x0A # ''run the update with the privileges that directory needs (sudo, or an elevated shell)''
      else [])"

text \<open>The file operations, the deferred removal of the staging file last.\<close>

definition replaceExecutable :: "replace_world \<Rightarrow> string \<Rightarrow> bytes \<Rightarrow> string option \<times> fs_op list" where
  "replaceExecutable w exe binary =
     (let dir = dirPath exe; backup = exe @ ''.old'' in
      case rw_staged w of
        Inl e \<Rightarrow> (Some (updateWriteError dir e), [])
      | Inr staged \<Rightarrow>
          if rw_writeErr w \<noteq> None then
            (Some (''could not write '' @ staged @ '': '' @ the (rw_writeErr w)), [OpCreate staged, OpRemove staged])
          else if rw_closeErr w \<noteq> None then
            (Some (''could not write '' @ staged @ '': '' @ the (rw_closeErr w)),
             [OpCreate staged, OpWrite staged binary, OpRemove staged])
          else
            let mode = (case rw_mode w of Some m \<Rightarrow> or m 73 | None \<Rightarrow> 493);
                written = [OpCreate staged, OpWrite staged binary]
            in if rw_chmodErr w \<noteq> None then
                 (Some (''could not set the mode on '' @ staged @ '': '' @ the (rw_chmodErr w)), written @ [OpRemove staged])
               else
                 let ready = written @ [OpChmod staged mode, OpRemove backup]
                 in (case rw_backupErr w of
                       Some e \<Rightarrow> (Some (updateWriteError dir e), ready @ [OpRemove staged])
                     | None \<Rightarrow>
                         (case rw_renameErr w of
                            Some e \<Rightarrow>
                              (Some (updateWriteError dir e),
                               ready @ [OpRename exe backup] @
                               (if rw_backErr w = None then [OpRename backup exe] else []) @ [OpRemove staged])
                          | None \<Rightarrow>
                              (None,
                               ready @ [OpRename exe backup, OpRename staged exe, OpRemove backup, OpRemove staged]))))"

section \<open>The update\<close>

definition downloadAndReplace ::
  "update_env \<Rightarrow> http_get \<Rightarrow> replace_world \<Rightarrow> string \<Rightarrow> string \<Rightarrow> string \<Rightarrow> string option \<times> fs_op list" where
  "downloadAndReplace env get w base exe label =
     (let asset = updateAssetName (ue_goos env) (ue_goarch env) in
      case fetchURL get (base @ ''/SHA256SUMS'') of
        Inl e \<Rightarrow> (Some (''could not download SHA256SUMS for '' @ label @ '': '' @ e), [])
      | Inr sums \<Rightarrow>
          (case checksumFor env sums asset of
             Inl e \<Rightarrow> (Some e, [])
           | Inr want \<Rightarrow>
               (case fetchURL get (base @ ''/'' @ asset) of
                  Inl e \<Rightarrow> (Some (''could not download '' @ asset @ '': '' @ e), [])
                | Inr binary \<Rightarrow>
                    if hexEncode (ue_sha256 env binary) \<noteq> want then
                      (Some (''checksum mismatch for '' @ asset @ '': got '' @ hexEncode (ue_sha256 env binary) @
                             '', want '' @ want @ '' - nothing was written''), [])
                    else replaceExecutable w exe binary)))"

text \<open>
  \<open>exe\<close> is where the running binary really lives, or the error of finding it. Nothing is done, and
  no error reported, when the latest release is the running version.
\<close>

definition selfUpdate ::
  "update_env \<Rightarrow> http_get \<Rightarrow> (bytes \<Rightarrow> string + release) \<Rightarrow> replace_world \<Rightarrow> string + string \<Rightarrow> string \<Rightarrow>
     string option \<times> fs_op list" where
  "selfUpdate env get parse w exe tag =
     (case exe of
        Inl e \<Rightarrow> (Some (''could not find the running binary: '' @ e), [])
      | Inr path \<Rightarrow>
          if tag = [] then
            (case latestRelease get parse of
               Inl e \<Rightarrow> (Some e, [])
             | Inr rel \<Rightarrow>
                 if releaseVersion rel = ue_version env then (None, [])
                 else downloadAndReplace env get w (updateDownloadBase @ ''/'' @ rl_tagName rel) path (releaseVersion rel))
          else downloadAndReplace env get w (updateDownloadBase @ ''/'' @ tag) path tag)"

lemmas update_defs [go_defs] =
  appName_def updateAPI_def updateDownloadBase_def updateAssetName_def releaseVersion_def sumOfLine_def
  checksumFor_def fetchURL_def latestRelease_def updateWriteError_def
  replaceExecutable_def downloadAndReplace_def selfUpdate_def

section \<open>What can be installed\<close>

text \<open>A binary that was downloaded and matches the checksum listed for this platform.\<close>

definition verifiedBinary :: "update_env \<Rightarrow> http_get \<Rightarrow> bytes \<Rightarrow> bool" where
  "verifiedBinary env get binary \<longleftrightarrow>
     (\<exists>base sums. fetchURL get (base @ ''/SHA256SUMS'') = Inr sums \<and>
        fetchURL get (base @ ''/'' @ updateAssetName (ue_goos env) (ue_goarch env)) = Inr binary \<and>
        checksumFor env sums (updateAssetName (ue_goos env) (ue_goarch env)) =
          Inr (hexEncode (ue_sha256 env binary)))"

lemma selfUpdate_ops:
  assumes "selfUpdate env get parse w exe tag = (res, ops)" "ops \<noteq> []"
  shows "\<exists>path binary. exe = Inr path \<and> verifiedBinary env get binary \<and> replaceExecutable w path binary = (res, ops)"
proof -
  have "\<exists>binary. verifiedBinary env get binary \<and> replaceExecutable w path binary = (res, ops)"
    if "downloadAndReplace env get w base path label = (res, ops)" for base path label
    using that assms(2) unfolding verifiedBinary_def downloadAndReplace_def Let_def
    by (auto split: sum.splits if_splits)
  then show ?thesis
    using assms by (auto simp: selfUpdate_def split: sum.splits if_splits)
qed

text \<open>The state of the binary and of its backup after each operation, crashes included.\<close>

lemma replace_crash:
  assumes "replaceExecutable w exe binary = (res, ops)" "rw_staged w = Inr staged"
    and "staged \<noteq> exe" "staged \<noteq> exe @ ''.old''" "m staged = None" "m exe = Some old"
    and "m' \<in> set (crashes ops m)"
  shows "m' exe = Some old \<or> m' exe = Some binary \<or> (m' exe = None \<and> m' (exe @ ''.old'') = Some old)"
proof -
  let ?b = "exe @ ''.old''"
  have ne: "?b \<noteq> exe" "exe \<noteq> ?b"
    by simp_all
  have early: "m' exe = Some old" if "list_all (\<lambda>op. \<not> touches exe op) ops"
    using crashes_other [OF that assms(7)] assms(6) by simp
  consider (early) "list_all (\<lambda>op. \<not> touches exe op) ops"
    | (late) mode rest where "ops = [OpCreate staged, OpWrite staged binary, OpChmod staged mode, OpRemove ?b] @ rest"
      "rest = [OpRename exe ?b, OpRename ?b exe, OpRemove staged] \<or> rest = [OpRename exe ?b, OpRemove staged] \<or>
       rest = [OpRename exe ?b, OpRename staged exe, OpRemove ?b, OpRemove staged]"
    using assms(1-4) ne unfolding replaceExecutable_def Let_def
    by (auto split: if_splits option.splits)
  then show ?thesis
  proof cases
    case late
    let ?pre = "[OpCreate staged, OpWrite staged binary, OpChmod staged mode, OpRemove ?b]"
    have pre: "list_all (\<lambda>op. \<not> touches exe op) ?pre"
      using assms(3) ne by simp
    consider "m' \<in> set (crashes ?pre m)" | "m' \<in> set (crashes rest (opsApply ?pre m))"
      using assms(7) unfolding late(1) crashes_append by blast
    then show ?thesis
    proof cases
      case 1
      then have "m' exe = m exe"
        by (rule crashes_other [OF pre])
      then show ?thesis
        using assms(6) by simp
    next
      case 2
      define n where "n = opsApply ?pre m"
      have n: "n exe = Some old" "n staged = Some binary" "n ?b = None"
        using assms(3,4,6) ne by (simp_all add: n_def)
      show ?thesis
        using 2 late(2) n assms(3,4) ne unfolding n_def [symmetric] by auto
    qed
  qed (use early in blast)
qed

text \<open>
  C13: An update installs only what it verified, and never a partial binary. Whatever the servers
  answer and wherever the update fails or the process dies, the running binary's path holds the old
  binary, or a downloaded one whose SHA-256 is the one its release lists for this platform; or, in the
  window between two renames, nothing while the old binary is intact beside it under \<open>.old\<close>. If the
  update reports success and did anything, the new binary is there in full.
\<close>

theorem update_installs_verified:
  assumes "selfUpdate env get parse w (Inr exe) tag = (res, ops)" "rw_staged w = Inr staged"
    and "staged \<noteq> exe" "staged \<noteq> exe @ ''.old''" "m staged = None" "m exe = Some old"
  shows "(\<forall>m' \<in> set (crashes ops m). m' exe = Some old \<or>
      (\<exists>binary. verifiedBinary env get binary \<and> m' exe = Some binary) \<or>
      (m' exe = None \<and> m' (exe @ ''.old'') = Some old)) \<and>
    (res = None \<and> ops \<noteq> [] \<longrightarrow>
      (\<exists>binary. verifiedBinary env get binary \<and> opsApply ops m exe = Some binary \<and> opsApply ops m staged = None))"
proof (cases "ops = []")
  case True
  then show ?thesis
    using assms(6) by simp
next
  case False
  then obtain binary where b: "verifiedBinary env get binary" "replaceExecutable w exe binary = (res, ops)"
    using selfUpdate_ops [OF assms(1)] by auto
  have crash: "m' exe = Some old \<or> (\<exists>binary. verifiedBinary env get binary \<and> m' exe = Some binary) \<or>
      (m' exe = None \<and> m' (exe @ ''.old'') = Some old)" if "m' \<in> set (crashes ops m)" for m'
    using replace_crash [OF b(2) assms(2-6) that] b(1) by blast
  have "opsApply ops m exe = Some binary \<and> opsApply ops m staged = None" if ok: "res = None"
  proof -
    obtain mode where "ops = [OpCreate staged, OpWrite staged binary, OpChmod staged mode, OpRemove (exe @ ''.old''),
        OpRename exe (exe @ ''.old''), OpRename staged exe, OpRemove (exe @ ''.old''), OpRemove staged]"
      using b(2) ok assms(2) unfolding replaceExecutable_def Let_def by (auto split: if_splits option.splits)
    then show ?thesis
      using assms(3,4) by auto
  qed
  then show ?thesis
    using crash b(1) by blast
qed

definition upWorld :: replace_world where
  "upWorld = \<lparr> rw_staged = Inr ''s'', rw_writeErr = None, rw_closeErr = None, rw_mode = None, rw_chmodErr = None,
     rw_backupErr = None, rw_renameErr = None, rw_backErr = None \<rparr>"

definition upEnv :: update_env where
  "upEnv = \<lparr> ue_goos = ''a'', ue_goarch = ''b'', ue_version = ''v1'', ue_lower = id,
     ue_sha256 = (\<lambda>b. [CHR 0x1F]) \<rparr>"

lemma upEnv_sel: "ue_goos upEnv = ''a''" "ue_goarch upEnv = ''b''" "ue_sha256 upEnv b = [CHR 0x1F]"
  "ue_lower upEnv = id"
  by (simp_all add: upEnv_def)

definition upGet :: http_get where
  "upGet url = Inr \<lparr> ha_code = 200, ha_status = ''200 OK'',
     ha_body = (if hasSuffix url ''SUMS'' then ''1F relay-tunnel-a-b'' else ''bin''), ha_bodyErr = None \<rparr>"

lemma up_checksum: "checksumFor upEnv ''1F relay-tunnel-a-b'' ''relay-tunnel-a-b'' = Inr ''1f''"
proof -
  have "stringsFields (trimSpace ''1F relay-tunnel-a-b'') = [''1F'', ''relay-tunnel-a-b'']"
    by (simp add: trimSpace_ascii isSpaceRune_def stringsFields_def spans.simps decodeRune_def)
  moreover have "trimPrefix ''relay-tunnel-a-b'' ''*'' = ''relay-tunnel-a-b''"
    by (simp add: trimPrefix_def hasPrefix_def)
  moreover have "toLower id ''1F'' = ''1f''"
    by (simp add: toLower_def isAscii_def lowerRune_def char_of_eq_iff)
  ultimately have s: "sumOfLine id ''relay-tunnel-a-b'' ''1F relay-tunnel-a-b'' = Some ''1f''"
    unfolding sumOfLine_def by simp
  have l: "splitOn (CHR 0x0A) ''1F relay-tunnel-a-b'' = [''1F relay-tunnel-a-b'']"
    by (rule splitOn_no_sep) simp
  show ?thesis
    unfolding checksumFor_def l upEnv_sel firstSum.simps s by simp
qed

lemma up_fetch: "fetchURL upGet url = Inr (if hasSuffix url ''SUMS'' then ''1F relay-tunnel-a-b'' else ''bin'')"
proof -
  have "\<not> 256 * 2 ^ 20 \<le> length b" if "length b \<le> 100" for b :: bytes
    using that by simp
  then show ?thesis
    by (simp add: fetchURL_def upGet_def del: numeral_le_iff)
qed

lemma up_update:
  "selfUpdate upEnv upGet (\<lambda>b. Inl []) upWorld (Inr ''x'') ''v2'' = replaceExecutable upWorld ''x'' ''bin''"
  by (simp add: selfUpdate_def downloadAndReplace_def up_fetch hasSuffix_def updateAssetName_def
      appName_def updateDownloadBase_def up_checksum upEnv_sel hexEncode_def hexDigitLower_def char_of_eq_iff Let_def)

theorem update_installs_verified_witness:
  "\<exists>binary. verifiedBinary upEnv upGet binary \<and>
     opsApply (snd (selfUpdate upEnv upGet (\<lambda>b. Inl []) upWorld (Inr ''x'') ''v2'')) [''x'' \<mapsto> ''old''] ''x'' = Some binary"
proof -
  obtain ops where r: "selfUpdate upEnv upGet (\<lambda>b. Inl []) upWorld (Inr ''x'') ''v2'' = (None, ops)" "ops \<noteq> []"
    unfolding up_update by (simp add: replaceExecutable_def upWorld_def Let_def)
  have "rw_staged upWorld = Inr ''s''"
    by (simp add: upWorld_def)
  from update_installs_verified [where m = "[''x'' \<mapsto> ''old'']" and old = "''old''", OF r(1) this] show ?thesis
    using r by auto
qed

text \<open>Between the two renames there is no binary at the path.\<close>

lemma update_window:
  "\<exists>m' \<in> set (crashes (snd (replaceExecutable upWorld ''x'' ''new'')) [''x'' \<mapsto> ''old'']). m' ''x'' = None"
  by (simp add: replaceExecutable_def upWorld_def Let_def)

end
