(* ===== verification/Web_Ui.thy ===== *)
theory Web_Ui
  imports Go_Path
begin

text \<open>
  The embedded web interface's routing (\<open>internal/webui/webui.go\<close>). The export is a map from valid
  slash-separated names to directories and files; \<open>http.FileServer\<close> is a parameter, so an answer it
  gives is the URL path handed to it.
\<close>

datatype ui_entry = UiDir | UiFile bytes

type_synonym ui_files = "string \<rightharpoonup> ui_entry"

text \<open>\<open>UiNothing\<close>: the handler returned without an answer. \<open>UiNotFound\<close>: the library's bare 404.\<close>

datatype ui_answer = UiFavicon | UiPage nat bytes | UiServe string | UiNotFound | UiNothing

definition uiNew :: "ui_files \<Rightarrow> ui_files option" where
  "uiNew files = (if files ''index.html'' = None then None else Some files)"

definition uiExists :: "ui_files \<Rightarrow> string \<Rightarrow> bool" where
  "uiExists files name \<longleftrightarrow> name \<noteq> [] \<and> (case files name of Some (UiFile _) \<Rightarrow> True | _ \<Rightarrow> False)"

definition servePage :: "ui_files \<Rightarrow> string \<Rightarrow> nat \<Rightarrow> ui_answer option" where
  "servePage files name status =
     (case files (name @ ''.html'') of Some (UiFile body) \<Rightarrow> Some (UiPage status body) | _ \<Rightarrow> None)"

definition uiServeHTTP :: "ui_files \<Rightarrow> string \<Rightarrow> ui_answer" where
  "uiServeHTTP files urlPath =
     (let clean = trimPrefix (cleanPath urlPath) ''/'' in
      if clean = ''favicon.ico'' then UiFavicon
      else if clean = [] \<or> clean = ''.'' \<or> clean = ''index.html'' then
        (case servePage files ''index'' 200 of Some a \<Rightarrow> a | None \<Rightarrow> UiNothing)
      else if uiExists files clean then UiServe urlPath
      else if uiExists files (clean @ ''.html'') then UiServe (urlPath @ ''.html'')
      else (case servePage files ''404'' 404 of Some a \<Rightarrow> a | None \<Rightarrow> UiNotFound))"

lemmas ui_defs [go_defs] = uiNew_def uiExists_def servePage_def uiServeHTTP_def

text \<open>
  A page asked for by its own clean path is the file the export has for it, with or without the suffix.
\<close>

lemma ui_clean_page:
  assumes "cleanPath urlPath = urlPath" "hasPrefix urlPath ''/''" "uiServeHTTP files urlPath = UiServe p"
  shows "uiExists files (tl p)"
proof -
  obtain name where "urlPath = ''/'' @ name"
    using assms(2) by (cases urlPath) (auto simp: hasPrefix_def)
  then show ?thesis
    using assms(1,3)
    by (auto simp: uiServeHTTP_def trimPrefix_def hasPrefix_def servePage_def Let_def
        split: if_splits option.splits ui_entry.splits)
qed

text \<open>
  With a slash at the end the suffix lands after the slash, so the file server is asked for a name the
  export need not have, and the visitor gets neither the page nor the export's 404 page.
\<close>

lemma ui_trailing_slash:
  "uiServeHTTP [''a.html'' \<mapsto> UiFile [], ''404.html'' \<mapsto> UiFile []] ''/a/'' = UiServe ''/a/.html'' \<and>
   cleanPath ''/a/.html'' = ''/a/.html''"
  by code_simp

end
