(* ===== verification/Usage.thy ===== *)
theory Usage
  imports Sync_Cli
begin

text \<open>
  The usage texts of both programs (\<open>usage\<close> in \<open>cmd/relay-tunnel/main.go\<close> and
  \<open>examples/relay-sync/main.go\<close>), line by line, and that every flag they name exists.
\<close>

definition usageLines :: "string list" where
  "usageLines =
     [''relay-tunnel '' @ [CHR 0xE2, CHR 0x80, CHR 0x94] @ '' direct peer-to-peer tunnels with NAT traversal'',
      [],
      ''USAGE'',
      ''  relay-tunnel server   [--http :7000] [--udp :7001] [--public-udp HOST:7001] [--public-url URL] [--admin=false]'',
      ''  relay-tunnel expose   --server ws://HOST:7000/signal [--code CODE] [policy]'',
      ''  relay-tunnel connect  --server ws://HOST:7000/signal --code CODE [actions]'',
      ''  relay-tunnel [--config PATH]   run every enabled section from the config file'',
      ''  relay-tunnel update [--version TAG]'',
      ''  relay-tunnel version'',
      ''  relay-tunnel --example-config'',
      [],
      ''SERVER'',
      ''  --admin=false           serve signaling alone, with no web interface and no admin API'',
      ''  --name NAME             label this server in its own admin interface'',
      ''  The web interface, on the signaling listener, shows the sessions and relay'',
      ''  routes this server is carrying. It signs in as a single administrator, whose'',
      ''  password is stored hashed in the config file; a server with none set accepts'',
      ''  admin/admin once and then demands a new one.'',
      [],
      ''UPDATE'',
      ''  --update                download the latest release, verify it against the'',
      ''                          release'' @ [CHR 0x27] @ ''s SHA256SUMS and replace this binary in place'',
      ''  --update-version TAG    update to that release tag instead of the latest'',
      ''  The running binary is replaced only after its checksum matches, and the old'',
      ''  one is kept alongside until the replacement is in place. A system-wide install'',
      ''  needs the privileges of the directory it lives in.'',
      [],
      ''CONFIG'',
      ''  --config PATH           read settings from a JSON file (default config.json)'',
      ''  --example-config        print a sample config.json to stdout'',
      ''  Command-line flags always take priority over config file values.'',
      ''  With no subcommand, each config section whose '' @ [CHR 0x22] @ ''enabled'' @ [CHR 0x22] @ '' is true is started.'',
      [],
      ''IDENTIFYING A PEER'',
      ''  --name NAME             label this peer in the server'' @ [CHR 0x27] @ ''s admin interface, so an'',
      ''                          operator can tell two machines on one code apart. It is'',
      ''                          optional, unverified, and used for nothing else.'',
      [],
      ''EXPOSE POLICY'',
      ''  --allow-dial            allow the client to open TCP connections through this host'',
      ''  --allow host:port       whitelist a specific dial target (repeatable)'',
      ''  --allow-exec            allow remote command execution'',
      ''  --file-root DIR         allow file get/put rooted at DIR'',
      [],
      ''CONNECT ACTIONS'',
      ''  -L [laddr:]lport:rhost:rport   local port forward (repeatable)'',
      ''  -D [laddr:]lport               local SOCKS5 proxy through the peer'',
      ''  get   REMOTE LOCAL             download a file from the host'',
      ''  put   LOCAL REMOTE             upload a file to the host'',
      ''  exec  -- CMD [ARGS...]         run a command on the host'']"

definition usage :: string where
  "usage = concat (map (\<lambda>l. l @ [CHR 0x0A]) usageLines)"

definition syncUsageLines :: "string list" where
  "syncUsageLines =
     [''relay-sync - one-way directory sync over relay-tunnel'',
      [],
      ''USAGE'',
      ''  relay-sync serve --server ws://HOST:7000/signal --code CODE DIR'',
      ''  relay-sync push  --server ws://HOST:7000/signal --code CODE LOCAL REMOTE [--delete] [--dry-run]'',
      ''  relay-sync pull  --server ws://HOST:7000/signal --code CODE REMOTE LOCAL [--delete] [--dry-run]'',
      ''  relay-sync --example-config'',
      [],
      ''  Flags may come before or after the command, so these are the same:'',
      ''    relay-sync --config sync.json push ./local remote'',
      ''    relay-sync push --config sync.json ./local remote'',
      [],
      ''  serve  host the directory DIR and answer sync requests'',
      ''  push   mirror LOCAL (this machine) onto REMOTE (relative to the host'' @ [CHR 0x27] @ ''s DIR)'',
      ''  pull   mirror REMOTE (relative to the host'' @ [CHR 0x27] @ ''s DIR) onto LOCAL (this machine)'',
      [],
      ''FLAGS'',
      ''  --server URL     rendezvous server, e.g. ws://HOST:7000/signal'',
      ''  --code CODE      shared session code (must match on both sides)'',
      ''  --delete         delete files at the destination that are absent from the source'',
      ''  --dry-run        report what would change without transferring anything'',
      ''  --gitignore      skip files matched by .gitignore on both sides (default true)'',
      ''  --retry DUR      keep retrying for this long if the peer is offline (default 1m; 0 = once)'',
      [],
      ''CONFIG'',
      ''  --config PATH  read settings from a JSON file (default config.json), using the'',
      ''                 same schema as relay-tunnel. serve reads the '' @ [CHR 0x22] @ ''expose'' @ [CHR 0x22] @ '' section;'',
      ''                 push and pull read the '' @ [CHR 0x22] @ ''connect'' @ [CHR 0x22] @ '' section. Command-line flags'',
      ''                 take priority over config values.'',
      ''  --example-config  print a sample config.json to stdout'']"

definition syncUsage :: string where
  "syncUsage = concat (map (\<lambda>l. l @ [CHR 0x0A]) syncUsageLines)"

text \<open>The names after two dashes.\<close>

definition nameChar :: "char \<Rightarrow> bool" where
  "nameChar c \<longleftrightarrow> c \<in> set ''abcdefghijklmnopqrstuvwxyz''"

fun longNames :: "string \<Rightarrow> string list" where
  "longNames (a # b # c # t) =
     (if a = CHR ''-'' \<and> b = CHR ''-'' \<and> nameChar c
      then (c # takeWhile (\<lambda>d. nameChar d \<or> d = CHR ''-'') t) # longNames t
      else longNames (b # c # t))"
| "longNames _ = []"

lemma longNames_skip: "a \<noteq> CHR ''-'' \<Longrightarrow> longNames (a # t) = longNames t"
  by (cases t rule: longNames.cases) auto

text \<open>Every flag the texts name is one that a command takes, or a command itself written with dashes.\<close>

lemma usage_flags:
  "list_all (\<lambda>l. list_all (\<lambda>n. n \<in> set (map fst (fg_formal serverFlags @ fg_formal exposeFlags @ fg_formal connectFlags @
      fg_formal updateFlags)) \<or> n \<in> {''update'', ''update-version'', ''example-config''}) (longNames l)) usageLines"
  by (simp add: usageLines_def longNames_skip nameChar_def flag_tables)

lemma sync_usage_flags:
  "list_all (\<lambda>l. list_all (\<lambda>n. n \<in> set (map fst (fg_formal serveFlags @ fg_formal syncFlags)) \<or>
      n = ''example-config'') (longNames l)) syncUsageLines"
  by (simp add: syncUsageLines_def longNames_skip nameChar_def serveFlags_def syncFlags_def newFlags_def)

end
