(* ===== verification/Spec2Isabelle.thy ===== *)
theory Spec2Isabelle
  imports Peer_Name Server_Props Server_Log Relay_Time Provenance Admin_Props Admin_Api Path_Props Transport Tunnel_Props Conn_Manager
    Sessions Cli_Props Sync_Tree Sync_Refine Gitignore Message_Json Admin_Json Config_Json Config_Restart Config_Save Program Updater
    Web_Ui Usage
begin

text \<open>
  relay-tunnel, modelled and verified: a rendezvous server that pairs two peers by a session code,
  the peers' way to each other through NATs or the server's relay, the authenticated tunnel over it
  with its host and client, and relay-sync, a directory mirror built on the same parts.

  The parts and where they are modelled (theory; source):

  \<^item> Foundations. \<open>Prelude\<close>: insertion-ordered maps (Go's maps with the order of an iteration made
    explicit), times and durations, the collection \<open>go_defs\<close>. \<open>Go_Strings\<close>, \<open>Go_Utf8\<close>, \<open>Go_Text\<close>,
    \<open>Go_Net\<close>, \<open>Go_Base64\<close>, \<open>Go_Hex\<close>, \<open>Go_Path\<close>, \<open>Stream_Io\<close>, \<open>File_Store\<close>: what the source uses of
    Go's library, written out: strings are lists of bytes, runes are decoded as Go decodes them, paths
    are Unix paths cleaned lexically, a reader is the bytes to come with the error that ends them, a
    file system is a map changed by operations one after the other.
  \<^item> JSON. \<open>Json_String\<close>, \<open>Go_Json\<close>, \<open>Json_Struct\<close>: how encoding/json writes and reads a text: escapes
    and \<open>\u\<close> pairs, the scanner as a pushdown machine with its nesting limit, structs with their tags,
    fields found whatever their case, omitted, null and repeated members. \<open>Message_Json\<close>, \<open>Mux_Json\<close>,
    \<open>Sync_Json\<close>, \<open>Admin_Json\<close>, \<open>Config_Json\<close> give the repository's structs their texts and read them back.
  \<^item> The server (\<open>internal/signal/server.go\<close>, \<open>proto.go\<close>). \<open>Server_State\<close>: the state and messages;
    \<open>Peer_Name\<close>: \<open>sanitizeName\<close>; \<open>Relay\<close>: \<open>serveUDP\<close>, \<open>pairLocked\<close>, \<open>gcRelay\<close>; \<open>Rendezvous\<close>:
    \<open>handleWS\<close> as handshake, message and clean-up, \<open>tryPair\<close>; \<open>Server_Control\<close>: what the
    administrator's actions do to the state; \<open>Server_System\<close>: all of it as a step relation with
    reachable states. \<open>Server_Protocol\<close>, \<open>Server_Codes\<close>, \<open>Server_Props\<close>: what holds of them;
    \<open>Relay_Time\<close>: how long a relay route lives; \<open>Server_Log\<close> (\<open>internal/xlog\<close>): what is logged about peers.
  \<^item> The administrator (\<open>admin.go\<close>, \<open>api.go\<close>). \<open>Admin_Auth\<close>: sessions, password hashes, the sign-in
    and account handlers; \<open>Admin_Api\<close>: views, handlers and routing; \<open>Admin_Props\<close>: what holds.
  \<^item> The way to the peer (\<open>internal/nat/nat.go\<close>, \<open>internal/signal/client.go\<close>). \<open>Nat_Path\<close>: reflection,
    hole punching, candidates, the relayed connection; \<open>Signal_Client\<close>: \<open>Dial\<close>; \<open>Path_Props\<close>: client
    and server together; \<open>Provenance\<close>: the server with what it has read, and the way of a host's fingerprint to
    the client that pins it.
  \<^item> The tunnel. \<open>Transport\<close> (\<open>internal/transport/quic.go\<close>): certificate and pin; \<open>Mux\<close>
    (\<open>internal/mux\<close>): stream headers; \<open>Host_App\<close>, \<open>Local_App\<close> (\<open>internal/app\<close>): host, forwards, SOCKS5,
    commands, files; \<open>Backoff\<close>, \<open>Conn_Manager\<close>: reconnection; \<open>Tunnel_Props\<close>: both ends together.
  \<^item> Configuration and command line. \<open>Config_File\<close>, \<open>Config_Save\<close> (\<open>internal/config\<close>): sections, loading,
    saving the account; \<open>Config_Restart\<close>: what a save writes, as a later start reads it; \<open>Go_Flag\<close>: Go's flag
    package; \<open>Cli\<close> (\<open>cmd/relay-tunnel/main.go\<close>): the program from its arguments to what it runs;
    \<open>Cli_Props\<close>: which value counts; \<open>Program\<close>: from the arguments to what a host does, and from one start
    of a server to the next; \<open>Usage\<close>: the usage texts; \<open>Updater\<close> (\<open>update.go\<close>), \<open>Web_Ui\<close> (\<open>internal/webui\<close>).
  \<^item> relay-sync (\<open>examples/relay-sync\<close>). \<open>Sync_Host\<close>, \<open>Sync_Client\<close>: protocol, handlers, the plan and
    its execution; \<open>Gitignore\<close>, \<open>Sync_Tree\<close>: ignore rules and manifests; \<open>Sync_Cli\<close>: commands,
    flags and retry; \<open>Sync_Props\<close>: what holds; \<open>Sync_Refine\<close>: a client's calls run against the host and its file
    system, which is the plan carried out. \<open>Sessions\<close>: the rounds of both hosts and both clients, from
    rendezvous over transport to application.

  How state and operations correspond. A Go struct is a record with its fields, a handler is one
  function with every early return, an error is a value. A locked section with the writes that follow
  it is one step of the server; a handler's run reads the clock once; tokens are drawn fresh. A
  message already received may still be handled after the administrator has closed its connection.
  The world outside - sockets, files, processes, the clock, randomness - is a record or a list of what
  each call returns, so every branch of the source is a branch of the definition and every theorem
  holds for all such worlds.

  What the lemmas show. For the server: routes are mutual and isolated, the order of the messages of
  each connection, pairing, the counters, and who is let in. For the path: what punching and dialing
  return, and that they end. For the tunnel: the host keeps to its policy, bytes arrive as they were
  sent, the manager never panics nor lets a caller sleep through a connection. For files: paths stay
  below their root, saves and updates survive a crash at any point. For the program: flags beat the config, a
  host does only what they allow, an account change is there after a restart. For relay-sync: a plan mirrors, a
  manifest is complete, a glob matches what it denotes. Every JSON message is read as it was
  written, its strings made well-formed. Interfaces proved once and interpreted on the
  code's own definitions: \<open>framing\<close> (both length-prefixed formats), \<open>json_type\<close> (every struct with a
  text), \<open>backoff\<close> (both retry loops), and the ones of the server's maps and invariants in their theories.

  Bounds and fuel. Loops over what arrives are recursions over the list of what arrives, so a loop
  that has not returned is the result None. Parsers recurse on what is left, which is shorter after every
  step (\<open>parseOne_shorter\<close>, \<open>scanStr_shorter\<close>, \<open>parseFlags_shorter\<close>), so none needs fuel; the JSON machine
  keeps encoding/json's limit of 10000 nested values.

  Parameters, that is code not under \<open>src/\<close> or outside its logic: name resolution, QUIC and TLS,
  PBKDF2 and SHA-256, the floating point of a duration's fraction and of a number in a map, the JSON codec
  where a definition is used with any codec (the theorems on both ends take the written one), the text of a decoder's error, case tables above ASCII, HTTP's client and
  file server. What is assumed of them is a hypothesis of the theorem that needs it (a TLS library that
  honours the certificate callback), with a witness.

  Not modelled: log records other than those about peers, the OpenAPI document, the timeouts given to
  \<open>http.Server\<close>, symbolic links and Windows paths, and the browser application under \<open>web/\<close>.
\<close>

end
